(* ===== verification/Prelude.thy ===== *)
theory Prelude
  imports Main "HOL-Library.Signed_Division"
begin

text \<open>
  What every component shares: Go's 64-bit \<open>int\<close> with its wrap-around and truncating division,
  decimal formatting, the errors of the program with \<open>errors.Is\<close>, and the two row-level
  operations of a table (a guarded update and its affected-row count) with their lemmas.
  Collections: \<open>table_simps\<close> (facts about table updates) and \<open>go_int_simps\<close>
  (removal of the wrap-around under a bound).
\<close>

named_theorems table_simps
named_theorems go_int_simps

section \<open>Go's int\<close>

text \<open>
  Go's \<open>int\<close> has 64 bits on every platform the project is deployed to; arithmetic wraps silently
  and division truncates towards zero (\<open>sdiv\<close>, \<open>smod\<close> of the library).
\<close>

definition max_int :: int where
  "max_int = 9223372036854775807"

definition wrap64 :: "int \<Rightarrow> int" where
  "wrap64 x = (x + 9223372036854775808) mod 18446744073709551616 - 9223372036854775808"

definition in_int64 :: "int \<Rightarrow> bool" where
  "in_int64 x \<longleftrightarrow> - 9223372036854775808 \<le> x \<and> x \<le> max_int"

text \<open>A column of SQL type INTEGER holds 32 bits.\<close>

definition max_int4 :: int where
  "max_int4 = 2147483647"

definition in_int4 :: "int \<Rightarrow> bool" where
  "in_int4 x \<longleftrightarrow> - 2147483648 \<le> x \<and> x \<le> max_int4"

lemma wrap64_id [go_int_simps]: "in_int64 x \<Longrightarrow> wrap64 x = x"
  by (simp add: wrap64_def in_int64_def max_int_def)

lemma wrap64_in [simp]: "in_int64 (wrap64 x)"
proof -
  have "0 \<le> (x + 9223372036854775808) mod 18446744073709551616"
    and "(x + 9223372036854775808) mod 18446744073709551616 < 18446744073709551616"
    by simp_all
  then show ?thesis by (simp add: in_int64_def wrap64_def max_int_def)
qed

lemma wrap64_nonneg [go_int_simps]: "0 \<le> x \<Longrightarrow> x \<le> max_int \<Longrightarrow> wrap64 x = x"
  by (simp add: wrap64_id in_int64_def)

lemma in_int4_int64: "in_int4 x \<Longrightarrow> in_int64 x"
  by (simp add: in_int4_def in_int64_def max_int4_def max_int_def)

lemma sdiv_nonneg: "0 \<le> a \<Longrightarrow> 0 < b \<Longrightarrow> a sdiv b = a div (b::int)"
  by (cases "a = 0") (simp_all add: signed_divide_int_def sgn_if)

lemma smod_nonneg: "0 \<le> a \<Longrightarrow> 0 < b \<Longrightarrow> a smod b = a mod (b::int)"
  by (cases "a = 0") (simp_all add: signed_modulo_int_def sgn_if)

section \<open>Decimal formatting\<close>

text \<open>\<open>strconv.Itoa\<close>, \<open>strconv.FormatInt(n, 10)\<close> and the verb \<open>%d\<close>.\<close>

definition digit_char :: "nat \<Rightarrow> char" where
  "digit_char d = (''0123456789'' ! d)"

fun nat_digits :: "nat \<Rightarrow> string" where
  "nat_digits n = (if n < 10 then [digit_char n] else nat_digits (n div 10) @ [digit_char (n mod 10)])"

declare nat_digits.simps [simp del]

definition itoa :: "int \<Rightarrow> string" where
  "itoa i = (if i < 0 then ''-'' @ nat_digits (nat (- i)) else nat_digits (nat i))"

definition digit_of :: "char \<Rightarrow> nat" where
  "digit_of c = of_char c - 48"

definition atoi_nat :: "string \<Rightarrow> nat" where
  "atoi_nat s = foldl (\<lambda>acc c. 10 * acc + digit_of c) 0 s"

lemma digit_of_char: "d < 10 \<Longrightarrow> digit_of (digit_char d) = d"
proof -
  have "\<forall>d<10. digit_of (digit_char d) = d" by code_simp
  then show "d < 10 \<Longrightarrow> digit_of (digit_char d) = d" by blast
qed

lemma atoi_nat_digits: "atoi_nat (nat_digits n) = n"
proof (induction n rule: nat_digits.induct)
  case (1 n)
  show ?case
  proof (cases "n < 10")
    case True
    then show ?thesis by (subst nat_digits.simps) (simp add: atoi_nat_def digit_of_char)
  next
    case False
    with "1.IH" have IH: "atoi_nat (nat_digits (n div 10)) = n div 10" by simp
    from False have "nat_digits n = nat_digits (n div 10) @ [digit_char (n mod 10)]"
      by (subst nat_digits.simps) simp
    then have "atoi_nat (nat_digits n) = 10 * atoi_nat (nat_digits (n div 10)) + n mod 10"
      by (simp add: atoi_nat_def digit_of_char)
    with IH show ?thesis by simp
  qed
qed

lemma nat_digits_inj: "nat_digits m = nat_digits n \<longleftrightarrow> m = n"
  by (metis atoi_nat_digits)

lemma digit_char_digit: "d < 10 \<Longrightarrow> digit_char d \<in> set ''0123456789''"
  unfolding digit_char_def by (rule nth_mem) simp

lemma nat_digits_set: "set (nat_digits n) \<subseteq> set ''0123456789''"
proof (induction n rule: nat_digits.induct)
  case (1 n)
  show ?case
  proof (cases "n < 10")
    case True
    then show ?thesis
      by (subst nat_digits.simps) (use digit_char_digit [OF True] in simp)
  next
    case False
    have "digit_char (n mod 10) \<in> set ''0123456789''" by (rule digit_char_digit) simp
    with "1.IH" False show ?thesis by (subst nat_digits.simps) simp
  qed
qed

lemma itoa_nonneg_inj: "0 \<le> i \<Longrightarrow> 0 \<le> j \<Longrightarrow> itoa i = itoa j \<longleftrightarrow> i = j"
  by (auto simp: itoa_def nat_digits_inj)

lemma itoa_no_dash: "0 \<le> i \<Longrightarrow> CHR ''-'' \<notin> set (itoa i)"
  using nat_digits_set [of "nat i"] by (auto simp: itoa_def)

section \<open>Errors\<close>

text \<open>
  The sentinels of \<open>internal/api/apierrors/errors.go\<close>, of the scheduler, execution and worker
  packages, the validation error, what the driver and the context return, and the wrapping of
  \<open>fmt.Errorf("...: %w", err)\<close> (\<open>Wrapf\<close>). Two sentinels with the same text are different values,
  as two calls of \<open>errors.New\<close> give different pointers.
\<close>

datatype go_error =
    ErrTestNotFound
  | ErrValidation
  | ErrConflict
  | ErrInternal
  | ErrFailedConn
  | ErrWorkerNotFound
  | ErrInsufficientWorkers
  | ErrInvalidTestState
  | ErrAssignmentNotFound
  | ErrNilScheduler
  | ErrNilExecutor
  | ErrAssignmentStopped
  | SchedulerErrInsufficientWorkers
  | WorkerErrAssignmentStopped
  | ErrInvalidRPS
  | ErrInvalidConcurrency
  | ErrInvalidDuration
  | ValidationFieldError string string
  | ErrNoRows
  | PgError string
  | ContextCanceled
  | DeadlineExceeded
  | Errorf string
  | Wrapf string go_error

text \<open>\<open>errors.Is\<close> follows the chain of wrapped errors.\<close>

fun errors_is :: "go_error \<Rightarrow> go_error \<Rightarrow> bool" where
  "errors_is (Wrapf m e) target = (Wrapf m e = target \<or> errors_is e target)"
| "errors_is e target = (e = target)"

lemma errors_is_refl [simp]: "errors_is e e"
  by (cases e) simp_all

section \<open>Table rows\<close>

text \<open>\<open>UPDATE ... SET ... WHERE\<close> on the rows of a table, and the rows it affects.\<close>

definition update_where :: "('a \<Rightarrow> bool) \<Rightarrow> ('a \<Rightarrow> 'a) \<Rightarrow> 'a list \<Rightarrow> 'a list" where
  "update_where P f xs = map (\<lambda>x. if P x then f x else x) xs"

definition count_where :: "('a \<Rightarrow> bool) \<Rightarrow> 'a list \<Rightarrow> int" where
  "count_where P xs = int (length (filter P xs))"

lemma update_where_Nil [table_simps]: "update_where P f [] = []"
  by (simp add: update_where_def)

lemma update_where_Cons [table_simps]:
  "update_where P f (x # xs) = (if P x then f x else x) # update_where P f xs"
  by (simp add: update_where_def)

lemma length_update_where [simp]: "length (update_where P f xs) = length xs"
  by (simp add: update_where_def)

lemma set_update_where:
  "set (update_where P f xs) = f ` {x \<in> set xs. P x} \<union> {x \<in> set xs. \<not> P x}"
  by (auto simp: update_where_def image_iff)

lemma in_update_whereE:
  assumes "y \<in> set (update_where P f xs)"
  obtains x where "x \<in> set xs" "P x" "y = f x" | "y \<in> set xs" "\<not> P y"
  using assms by (auto simp: set_update_where)

lemma in_update_where_hit: "x \<in> set xs \<Longrightarrow> P x \<Longrightarrow> f x \<in> set (update_where P f xs)"
  by (auto simp: set_update_where)

lemma in_update_where_miss: "x \<in> set xs \<Longrightarrow> \<not> P x \<Longrightarrow> x \<in> set (update_where P f xs)"
  by (auto simp: set_update_where)

text \<open>A column the statement does not set keeps its values, in order.\<close>

lemma map_update_where:
  "(\<And>x. x \<in> set xs \<Longrightarrow> P x \<Longrightarrow> k (f x) = k x) \<Longrightarrow> map k (update_where P f xs) = map k xs"
  by (auto simp: update_where_def)

lemma keys_update_where:
  "(\<And>x. key (f x) = key x) \<Longrightarrow> key ` set (update_where P f xs) = key ` set xs"
  by (metis list.set_map map_update_where)

lemma update_where_none: "(\<And>x. x \<in> set xs \<Longrightarrow> \<not> P x) \<Longrightarrow> update_where P f xs = xs"
  by (induction xs) (auto simp: update_where_def)

lemma update_where_cong:
  "(\<And>x. x \<in> set xs \<Longrightarrow> P x = Q x) \<Longrightarrow> (\<And>x. x \<in> set xs \<Longrightarrow> P x \<Longrightarrow> f x = g x) \<Longrightarrow>
   update_where P f xs = update_where Q g xs"
  by (auto simp: update_where_def)

lemma count_where_nonneg [simp]: "0 \<le> count_where P xs"
  by (simp add: count_where_def)

lemma count_where_zero: "count_where P xs = 0 \<longleftrightarrow> (\<forall>x\<in>set xs. \<not> P x)"
  by (auto simp: count_where_def filter_empty_conv)

lemma count_where_pos: "0 < count_where P xs \<longleftrightarrow> (\<exists>x\<in>set xs. P x)"
  by (auto simp: count_where_def filter_empty_conv)

text \<open>Row lookup by primary key.\<close>

definition find_row :: "('a \<Rightarrow> 'k) \<Rightarrow> 'k \<Rightarrow> 'a list \<Rightarrow> 'a option" where
  "find_row key k xs = List.find (\<lambda>x. key x = k) xs"

lemma find_row_Some: "find_row key k xs = Some x \<Longrightarrow> x \<in> set xs \<and> key x = k"
  by (auto simp: find_row_def find_Some_iff)

lemma find_row_key: "find_row key k xs = Some x \<Longrightarrow> key x = k"
  by (drule find_row_Some) simp

lemma find_row_None: "find_row key k xs = None \<longleftrightarrow> k \<notin> key ` set xs"
  by (auto simp: find_row_def find_None_iff)

lemma find_row_distinct:
  "distinct (map key xs) \<Longrightarrow> x \<in> set xs \<Longrightarrow> find_row key (key x) xs = Some x"
  by (induction xs) (auto simp: find_row_def)

lemma find_row_update_where:
  assumes "\<And>x. x \<in> set xs \<Longrightarrow> key (f x) = key x"
  shows "find_row key k (update_where P f xs) =
    map_option (\<lambda>x. if P x then f x else x) (find_row key k xs)"
  using assms by (induction xs) (auto simp: find_row_def table_simps)

section \<open>Rows that evolve\<close>

text \<open>
  \<open>rows_evolve key evo xs ys\<close>: every row of \<open>xs\<close> is still there in \<open>ys\<close>, changed at most as
  \<open>evo\<close> allows, and every row of \<open>ys\<close> under an old key comes from a row of \<open>xs\<close> in that way.
\<close>

definition rows_evolve :: "('a \<Rightarrow> 'k) \<Rightarrow> ('a \<Rightarrow> 'a \<Rightarrow> bool) \<Rightarrow> 'a list \<Rightarrow> 'a list \<Rightarrow> bool" where
  "rows_evolve key evo xs ys \<longleftrightarrow>
     (\<forall>x\<in>set xs. \<exists>y\<in>set ys. evo x y) \<and>
     (\<forall>y\<in>set ys. key y \<in> key ` set xs \<longrightarrow> (\<exists>x\<in>set xs. evo x y))"

lemma rows_evolve_refl: "(\<And>x. evo x x) \<Longrightarrow> rows_evolve key evo xs xs"
  by (auto simp: rows_evolve_def)

lemma rows_evolve_trans:
  assumes "rows_evolve key evo xs ys" "rows_evolve key evo ys zs"
    and trans: "\<And>x y z. evo x y \<Longrightarrow> evo y z \<Longrightarrow> evo x z"
    and key: "\<And>x y. evo x y \<Longrightarrow> key y = key x"
  shows "rows_evolve key evo xs zs"
  unfolding rows_evolve_def
proof (intro conjI ballI impI)
  fix x assume "x \<in> set xs"
  with assms(1,2) show "\<exists>z\<in>set zs. evo x z"
    unfolding rows_evolve_def by (meson trans)
next
  fix z assume z: "z \<in> set zs" "key z \<in> key ` set xs"
  then obtain x where x: "x \<in> set xs" "key z = key x" by auto
  with assms(1) obtain y where "y \<in> set ys" "evo x y" unfolding rows_evolve_def by blast
  with x key have "key z \<in> key ` set ys" by (metis imageI)
  with assms(2) z(1) obtain y' where y': "y' \<in> set ys" "evo y' z" unfolding rows_evolve_def by blast
  with key z(2) have "key y' \<in> key ` set xs" by metis
  with assms(1) y' show "\<exists>x\<in>set xs. evo x z" unfolding rows_evolve_def by (meson trans)
qed

lemma rows_evolve_update_where:
  assumes "\<And>x. x \<in> set xs \<Longrightarrow> P x \<Longrightarrow> evo x (f x)" "\<And>x. evo x x"
  shows "rows_evolve key evo xs (update_where P f xs)"
  unfolding rows_evolve_def
proof (intro conjI ballI impI)
  fix x assume "x \<in> set xs"
  with assms show "\<exists>y\<in>set (update_where P f xs). evo x y"
    by (cases "P x") (auto intro: in_update_where_hit in_update_where_miss)
next
  fix y assume "y \<in> set (update_where P f xs)"
  then show "\<exists>x\<in>set xs. evo x y" using assms by (cases rule: in_update_whereE) auto
qed

lemma rows_evolve_append:
  assumes "key ` set zs \<inter> key ` set xs = {}" "\<And>x. evo x x"
  shows "rows_evolve key evo xs (xs @ zs)"
  using assms unfolding rows_evolve_def by auto

lemma rows_evolve_unique:
  assumes "rows_evolve key evo xs ys" "distinct (map key xs)" "x \<in> set xs" "y \<in> set ys" "key y = key x"
    and key: "\<And>x y. evo x y \<Longrightarrow> key y = key x"
  shows "evo x y"
proof -
  from assms(1,3,4,5) obtain x' where x': "x' \<in> set xs" "evo x' y"
    unfolding rows_evolve_def by (metis imageI)
  with key assms(5) have "key x' = key x" by metis
  with assms(2,3) x'(1) have "x' = x" by (auto simp: distinct_map inj_on_def)
  with x' show ?thesis by simp
qed

end
