(* ===== verification/Models.thy ===== *)
theory Models
  imports Prelude
begin

text \<open>
  The data of \<open>internal/models\<close> and \<open>internal/constants\<close>: the three status types with their
  string forms, and the records of a test, a worker and an assignment row. The string forms matter
  where a status crosses a process boundary: a heartbeat carries any string, and the worker
  compares the status of its test with literals.
\<close>

section \<open>Status types\<close>

datatype TestStatus =
    StatusCreated
  | StatusStarting
  | StatusRunning
  | StatusStopping
  | StatusStopped
  | StatusCompleted
  | StatusFailed

datatype WorkerStatus =
    WorkerStatusIdle
  | WorkerStatusReserved
  | WorkerStatusRunning
  | WorkerStatusDraining
  | WorkerStatusOffline

datatype AssignmentStatus =
    AssignmentStatusReserved
  | AssignmentStatusRunning
  | AssignmentStatusCompleted
  | AssignmentStatusFailed

primrec test_status_string :: "TestStatus \<Rightarrow> string" where
  "test_status_string StatusCreated = ''CREATED''"
| "test_status_string StatusStarting = ''STARTING''"
| "test_status_string StatusRunning = ''RUNNING''"
| "test_status_string StatusStopping = ''STOPPING''"
| "test_status_string StatusStopped = ''STOPPED''"
| "test_status_string StatusCompleted = ''COMPLETED''"
| "test_status_string StatusFailed = ''FAILED''"

primrec worker_status_string :: "WorkerStatus \<Rightarrow> string" where
  "worker_status_string WorkerStatusIdle = ''IDLE''"
| "worker_status_string WorkerStatusReserved = ''RESERVED''"
| "worker_status_string WorkerStatusRunning = ''RUNNING''"
| "worker_status_string WorkerStatusDraining = ''DRAINING''"
| "worker_status_string WorkerStatusOffline = ''OFFLINE''"

primrec assignment_status_string :: "AssignmentStatus \<Rightarrow> string" where
  "assignment_status_string AssignmentStatusReserved = ''RESERVED''"
| "assignment_status_string AssignmentStatusRunning = ''RUNNING''"
| "assignment_status_string AssignmentStatusCompleted = ''COMPLETED''"
| "assignment_status_string AssignmentStatusFailed = ''FAILED''"

lemma test_status_string_inj [simp]: "test_status_string a = test_status_string b \<longleftrightarrow> a = b"
  by (cases a; cases b) simp_all

lemma worker_status_string_inj [simp]:
  "worker_status_string a = worker_status_string b \<longleftrightarrow> a = b"
  by (cases a; cases b) simp_all

section \<open>Records\<close>

text \<open>Instants are nanoseconds on one clock; the clock itself belongs to the caller.\<close>

type_synonym time = int

record Test =
  tID :: string
  tName :: string
  tStatus :: TestStatus
  tWorkerCount :: int
  tTargetURL :: string
  tMethod :: string
  tDurationSec :: int
  tRPS :: int
  tConcurrency :: int
  tCreatedAt :: time
  tUpdatedAt :: time

record Worker =
  wID :: string
  wHostname :: string
  wVersion :: string
  wStatus :: WorkerStatus
  wCPUCount :: int
  wMemoryMB :: int
  wRegisteredAt :: time
  wLastHeartbeat :: time
  wUpdatedAt :: time

text \<open>A row of the table \<open>test_workers\<close>, the columns of all migrations.\<close>

record TestWorker =
  aTestID :: string
  aWorkerID :: string
  aStatus :: AssignmentStatus
  aAssignedAt :: time
  aStartedAt :: "time option"
  aCompletedAt :: "time option"
  aRPS :: int

definition akey :: "TestWorker \<Rightarrow> string \<times> string" where
  "akey a = (aTestID a, aWorkerID a)"

lemma akey_simps [simp]:
  "akey (a\<lparr>aStatus := s\<rparr>) = akey a"
  "akey (a\<lparr>aStartedAt := t\<rparr>) = akey a"
  "akey (a\<lparr>aCompletedAt := t\<rparr>) = akey a"
  by (simp_all add: akey_def)

lemma akey_eq_iff: "akey a = (t, w) \<longleftrightarrow> aTestID a = t \<and> aWorkerID a = w"
  by (auto simp: akey_def)

end
