(* ===== verification/Capacity.thy ===== *)
theory Capacity
  imports Models
begin

text \<open>
  The capacity arithmetic: \<open>internal/scheduler/rps.go\<close> (how many workers a rate needs and how
  the rate is split among them) and \<open>internal/autoscaler/capacity.go\<close> (the demand of the active
  and of the pending tests). The lemmas show that the two halves of \<open>rps.go\<close> fit: the count is
  the least that suffices, the split is exact, even, never zero and never above the capacity of
  one worker, and where the 64-bit sum can wrap.
\<close>

section \<open>Definitions\<close>

definition RequiredWorkers :: "int \<Rightarrow> int \<Rightarrow> go_error + int" where
  "RequiredWorkers rps capacityRPS =
     (if rps \<le> 0 \<or> capacityRPS \<le> 0
      then Inl (Errorf ''rps and worker capacity must be greater than zero'')
      else Inr (wrap64 (wrap64 (rps + capacityRPS) - 1) sdiv capacityRPS))"

definition DistributeRPS :: "int \<Rightarrow> int \<Rightarrow> go_error + int list" where
  "DistributeRPS totalRPS workerCount =
     (if totalRPS \<le> 0 \<or> workerCount \<le> 0
      then Inl (Errorf ''rps and worker count must be greater than zero'')
      else let base = totalRPS sdiv workerCount; remainder = totalRPS smod workerCount
           in Inr (map (\<lambda>i. if i < remainder then wrap64 (base + 1) else base) [0..workerCount - 1]))"

definition isActiveTest :: "TestStatus \<Rightarrow> bool" where
  "isActiveTest status \<longleftrightarrow> status = StatusStarting \<or> status = StatusRunning"

text \<open>The loop of both sums, with the guard and the error text as parameters.\<close>

primrec capacity_loop :: "(Test \<Rightarrow> bool) \<Rightarrow> string \<Rightarrow> int \<Rightarrow> int \<Rightarrow> Test list \<Rightarrow> go_error + int" where
  "capacity_loop counts msg workerCapacityRPS acc [] = Inr acc"
| "capacity_loop counts msg workerCapacityRPS acc (test # rest) =
     (if \<not> counts test then capacity_loop counts msg workerCapacityRPS acc rest
      else case RequiredWorkers (tRPS test) workerCapacityRPS of
             Inl err \<Rightarrow> Inl (Wrapf (msg @ tID test) err)
           | Inr required \<Rightarrow>
               capacity_loop counts msg workerCapacityRPS (wrap64 (acc + required)) rest)"

definition DesiredCapacity :: "Test list \<Rightarrow> int \<Rightarrow> go_error + int" where
  "DesiredCapacity tests workerCapacityRPS =
     capacity_loop (\<lambda>test. isActiveTest (tStatus test)) ''calculate workers for test ''
       workerCapacityRPS 0 tests"

definition PendingCapacity :: "Test list \<Rightarrow> int \<Rightarrow> go_error + int" where
  "PendingCapacity tests workerCapacityRPS =
     capacity_loop (\<lambda>test. tStatus test = StatusCreated) ''calculate pending workers for test ''
       workerCapacityRPS 0 tests"

section \<open>The worker count\<close>

text \<open>The reference: the rounded-up quotient.\<close>

definition ceil_div :: "int \<Rightarrow> int \<Rightarrow> int" where
  "ceil_div a b = - ((- a) div b)"

lemma ceil_div_alt: "0 < b \<Longrightarrow> ceil_div a b = (a + b - 1) div b"
proof -
  assume b: "0 < b"
  let ?d = "(a + b - 1) div b" and ?m = "(a + b - 1) mod b"
  have "a + b - 1 = b * ?d + ?m" by simp
  then have "- a = b * (- ?d) + (b - 1 - ?m)" by (simp add: algebra_simps)
  moreover have "0 \<le> b - 1 - ?m" and "b - 1 - ?m < b"
    using pos_mod_bound [OF b, of "a + b - 1"] pos_mod_sign [OF b, of "a + b - 1"] by linarith+
  ultimately have "(- a) div b = - ?d" by (rule int_div_pos_eq)
  then show ?thesis by (simp add: ceil_div_def)
qed

lemma ceil_div_bounds:
  assumes "0 < b"
  shows "a \<le> ceil_div a b * b" and "(ceil_div a b - 1) * b < a"
proof -
  define q m where "q = (- a) div b" and "m = (- a) mod b"
  have "b * q = - a - m" by (simp add: q_def m_def minus_mod_eq_mult_div [symmetric])
  moreover have "0 \<le> m" "m < b" using assms by (simp_all add: m_def)
  ultimately show "a \<le> ceil_div a b * b" and "(ceil_div a b - 1) * b < a"
    unfolding ceil_div_def q_def [symmetric] by (simp_all add: algebra_simps)
qed

lemma ceil_div_pos: "0 < a \<Longrightarrow> 0 < b \<Longrightarrow> 0 < ceil_div a b"
  using ceil_div_bounds(1) [of b a] by (smt (verit) mult_nonpos_nonneg)

lemma ceil_div_le: "0 < a \<Longrightarrow> 0 < b \<Longrightarrow> ceil_div a b \<le> a"
proof -
  assume a: "0 < a" and b: "0 < b"
  have "(ceil_div a b - 1) * 1 \<le> (ceil_div a b - 1) * b"
    using ceil_div_pos [OF a b] b by (intro mult_left_mono) auto
  with ceil_div_bounds(2) [OF b, of a] show ?thesis by simp
qed

lemma RequiredWorkers_eq:
  assumes "0 < rps" "0 < cap" "rps + cap \<le> max_int"
  shows "RequiredWorkers rps cap = Inr (ceil_div rps cap)"
  using assms by (simp add: RequiredWorkers_def go_int_simps sdiv_nonneg ceil_div_alt)

lemma RequiredWorkers_InrD: "RequiredWorkers rps cap = Inr n \<Longrightarrow> 0 < rps \<and> 0 < cap"
  by (auto simp: RequiredWorkers_def split: if_splits)

section \<open>The split\<close>

lemma DistributeRPS_eq:
  assumes "0 < totalRPS" "0 < workerCount" "totalRPS \<le> max_int"
  shows "DistributeRPS totalRPS workerCount =
    Inr (map (\<lambda>i. totalRPS div workerCount + (if i < totalRPS mod workerCount then 1 else 0))
           [0..workerCount - 1])"
proof -
  have less: "totalRPS div workerCount + 1 \<le> max_int" if "0 < totalRPS mod workerCount"
  proof -
    have "workerCount \<noteq> 1" using that by auto
    with assms(2) have "2 \<le> workerCount" by simp
    then have "totalRPS div workerCount \<le> totalRPS div 2"
      using assms(1) by (intro zdiv_mono2) auto
    with assms(1,3) show ?thesis by (simp add: max_int_def)
  qed
  have "0 \<le> totalRPS div workerCount" using assms by (simp add: pos_imp_zdiv_nonneg_iff)
  with assms less show ?thesis
    by (auto simp: DistributeRPS_def sdiv_nonneg smod_nonneg Let_def go_int_simps)
qed

lemma sum_list_indicator:
  "sum_list (map (\<lambda>i. b + (if i < r then 1 else 0)) [0..<n]) = b * n + min r n"
  for b r n :: nat
  by (induction n) auto

lemma sum_list_split_int:
  assumes "0 \<le> r" "r \<le> n"
  shows "sum_list (map (\<lambda>i. b + (if i < r then 1 else 0)) [0..n - 1]) = b * n + (r::int)"
proof -
  have "sum_list (map (\<lambda>i. b + (if i < r then 1 else 0)) [0..int k - 1]) = b * int k + min r (int k)" for k
  proof (induction k)
    case 0
    show ?case using assms by simp
  next
    case (Suc k)
    have "[0..int (Suc k) - 1] = [0..int k - 1] @ [int k]"
      using upto_rec2 [of 0 "int k"] by simp
    with Suc show ?case by (simp add: algebra_simps)
  qed
  from this [of "nat n"] assms show ?thesis by simp
qed

text \<open>A share of the split lies between the rounded-down and the rounded-up quotient.\<close>

lemma share_le:
  assumes "0 < n" "r \<le> n * cap" "0 \<le> i"
  shows "r div n + (if i < r mod n then 1 else 0) \<le> (cap::int)"
proof (cases "r mod n = 0")
  case True
  then have "r = n * (r div n)" by (metis add.right_neutral mult_div_mod_eq)
  then have "n * (r div n) \<le> n * cap" using assms(2) by simp
  with True assms show ?thesis by (simp add: mult_le_cancel_left_pos)
next
  case False
  with pos_mod_sign [OF assms(1), of r] have "0 < r mod n" by simp
  then have "n * (r div n) < n * cap" using assms(2) mult_div_mod_eq [of n r] by linarith
  with assms(1) have "r div n < cap" by simp
  then show ?thesis by simp
qed

section \<open>The two sums\<close>

lemma capacity_loop_eq:
  assumes "0 < cap" "cap \<le> max_int4" "0 \<le> acc"
    and "\<And>t. t \<in> set ts \<Longrightarrow> counts t \<Longrightarrow> 0 < tRPS t \<and> tRPS t \<le> max_int4"
    and "acc + int (length ts) * max_int4 \<le> max_int"
  shows "capacity_loop counts msg cap acc ts =
    Inr (acc + sum_list (map (\<lambda>t. ceil_div (tRPS t) cap) (filter counts ts)))"
  using assms(3-)
proof (induction ts arbitrary: acc)
  case Nil
  then show ?case by simp
next
  case (Cons t ts)
  have step: "int (length (t # ts)) * max_int4 = max_int4 + int (length ts) * max_int4"
    by (simp add: algebra_simps)
  show ?case
  proof (cases "counts t")
    case False
    with Cons.prems step have "acc + int (length ts) * max_int4 \<le> max_int"
      by (simp add: max_int4_def)
    with False Cons.prems Cons.IH [of acc] show ?thesis by simp
  next
    case True
    let ?n = "ceil_div (tRPS t) cap"
    from Cons.prems(2) True have r: "0 < tRPS t" "tRPS t \<le> max_int4" by simp_all
    have req: "RequiredWorkers (tRPS t) cap = Inr ?n"
      using r assms(1,2) by (intro RequiredWorkers_eq) (simp_all add: max_int_def max_int4_def)
    have n: "0 < ?n" "?n \<le> max_int4"
      using ceil_div_pos [OF r(1) assms(1)] ceil_div_le [OF r(1) assms(1)] r by simp_all
    have bound: "acc + ?n + int (length ts) * max_int4 \<le> max_int"
      using Cons.prems(3) n step by simp
    have "0 \<le> int (length ts) * max_int4" by (simp add: max_int4_def)
    with bound have "acc + ?n \<le> max_int" by linarith
    then have "wrap64 (acc + ?n) = acc + ?n"
      using n Cons.prems(1) by (intro wrap64_nonneg) auto
    with True req bound n Cons.prems Cons.IH [of "acc + ?n"] show ?thesis
      by (simp add: add.assoc)
  qed
qed

lemma capacity_loop_error:
  "capacity_loop counts msg cap acc ts = Inl err \<Longrightarrow>
   \<exists>t\<in>set ts. counts t \<and> (\<exists>e. RequiredWorkers (tRPS t) cap = Inl e \<and> err = Wrapf (msg @ tID t) e)"
  by (induction ts arbitrary: acc) (auto split: if_splits sum.splits)

text \<open>The split of a rate over the worker count computed for it.\<close>

lemma DistributeRPS_required:
  assumes "RequiredWorkers rps cap = Inr n" "rps + cap \<le> max_int"
  shows "\<exists>allocs. DistributeRPS rps n = Inr allocs \<and> length allocs = nat n \<and>
    sum_list allocs = rps \<and> (\<forall>a\<in>set allocs. 1 \<le> a \<and> a \<le> cap) \<and>
    (\<forall>a\<in>set allocs. \<forall>b\<in>set allocs. a \<le> b + 1)"
proof -
  from RequiredWorkers_InrD [OF assms(1)] have pos: "0 < rps" "0 < cap" by simp_all
  with assms have n: "n = ceil_div rps cap" using RequiredWorkers_eq [of rps cap] by simp
  with pos have n_pos: "0 < n" and n_le: "n \<le> rps" and cover: "rps \<le> n * cap"
    by (simp_all add: ceil_div_pos ceil_div_le ceil_div_bounds)
  define share where "share i = rps div n + (if i < rps mod n then 1 else 0)" for i
  have eq: "DistributeRPS rps n = Inr (map share [0..n - 1])"
    unfolding share_def using pos n_pos assms(2) by (intro DistributeRPS_eq) auto
  have sum: "sum_list (map share [0..n - 1]) = rps"
    unfolding share_def using pos_mod_sign [OF n_pos, of rps] pos_mod_bound [OF n_pos, of rps]
    by (subst sum_list_split_int) (auto simp: mult.commute)
  have low: "1 \<le> rps div n" using n_le n_pos by (simp add: int_one_le_iff_zero_less pos_imp_zdiv_pos_iff)
  have bounds: "1 \<le> share i \<and> share i \<le> cap" if "0 \<le> i" for i
    using low share_le [OF n_pos cover that] by (auto simp: share_def)
  have near: "share i \<le> share j + 1" for i j by (simp add: share_def)
  show ?thesis
    using eq sum bounds near by (intro exI [of _ "map share [0..n - 1]"]) auto
qed

section \<open>Properties\<close>

text \<open>C29: for a positive rate and capacity whose sum does not overflow, RequiredWorkers returns
  the least worker count whose total capacity covers the rate, and at least one worker.\<close>

theorem RequiredWorkers_least:
  assumes "0 < rps" "0 < cap" "rps + cap \<le> max_int"
  shows "\<exists>n. RequiredWorkers rps cap = Inr n \<and> 0 < n \<and> rps \<le> n * cap \<and>
    (\<forall>m. rps \<le> m * cap \<longrightarrow> n \<le> m)"
proof (intro exI conjI allI impI)
  show "RequiredWorkers rps cap = Inr (ceil_div rps cap)" using assms by (rule RequiredWorkers_eq)
  show "0 < ceil_div rps cap" using assms by (intro ceil_div_pos)
  show "rps \<le> ceil_div rps cap * cap" using assms(2) by (rule ceil_div_bounds)
  fix m
  assume "rps \<le> m * cap"
  with ceil_div_bounds(2) [OF assms(2), of rps] have "(ceil_div rps cap - 1) * cap < m * cap" by simp
  with assms(2) show "ceil_div rps cap \<le> m" by simp
qed

theorem RequiredWorkers_least_witness:
  "RequiredWorkers 350 100 = Inr 4 \<and>
   (\<exists>n. RequiredWorkers 350 100 = Inr n \<and> 0 < n \<and> 350 \<le> n * 100 \<and>
     (\<forall>m. 350 \<le> m * 100 \<longrightarrow> n \<le> m))"
  using RequiredWorkers_least [of 350 100] by (simp add: max_int_def RequiredWorkers_eq ceil_div_def)

text \<open>C30: splitting a rate over the worker count computed for it gives one share per worker, the
  shares add up to the rate, every share is at least one request and at most the capacity of one
  worker, and two shares differ by at most one.\<close>

theorem DistributeRPS_for_required:
  assumes "RequiredWorkers rps cap = Inr n" "rps + cap \<le> max_int"
  shows "\<exists>allocs. DistributeRPS rps n = Inr allocs \<and> length allocs = nat n \<and>
    sum_list allocs = rps \<and> (\<forall>a\<in>set allocs. 1 \<le> a \<and> a \<le> cap) \<and>
    (\<forall>a\<in>set allocs. \<forall>b\<in>set allocs. a \<le> b + 1)"
  using assms by (rule DistributeRPS_required)

theorem DistributeRPS_for_required_witness:
  "RequiredWorkers 350 100 = Inr 4 \<and> DistributeRPS 350 4 = Inr [88, 88, 87, 87] \<and>
   (\<exists>allocs. DistributeRPS 350 4 = Inr allocs \<and> length allocs = nat 4 \<and>
    sum_list allocs = 350 \<and> (\<forall>a\<in>set allocs. 1 \<le> a \<and> a \<le> 100) \<and>
    (\<forall>a\<in>set allocs. \<forall>b\<in>set allocs. a \<le> b + 1))"
proof -
  have req: "RequiredWorkers 350 100 = Inr 4"
    by (simp add: RequiredWorkers_eq max_int_def ceil_div_def)
  have split: "DistributeRPS 350 4 = Inr [88, 88, 87, 87]"
    by (simp add: DistributeRPS_eq max_int_def upto_rec1)
  show ?thesis
    using req split DistributeRPS_for_required [OF req] by (simp add: max_int_def)
qed

end
