(* ===== verification/Database.thy ===== *)
theory Database
  imports Capacity
begin

text \<open>
  The PostgreSQL database of the control plane as the repositories see it: the three tables of
  \<open>migrations/\<close> with their keys and column ranges, the server clock that \<open>NOW()\<close> reads, and how
  a statement of the connection pool and a transaction run. A row order in a list stands for the
  unspecified physical order: results without ORDER BY, and ties of ORDER BY, follow it.

  Every round trip to the server consumes one event of a script. The event says what the other
  clients committed since the last round trip (\<open>ev_env\<close>), how the round trip ends (\<open>ev_out\<close>: done,
  failed without effect, or lost, that is, carried out although the client sees an error) and which
  worker rows other transactions hold locked (\<open>ev_locked\<close>, read by SKIP LOCKED). An exhausted
  script is a quiet server. A transaction is one serial unit: its statements run on a private copy,
  which commit installs and every other exit drops (the deferred Rollback).
\<close>

section \<open>Tables\<close>

record db =
  dTests :: "Test list"
  dWorkers :: "Worker list"
  dAssignments :: "TestWorker list"
  dNow :: time

definition empty_db :: db where
  "empty_db = \<lparr>dTests = [], dWorkers = [], dAssignments = [], dNow = 0\<rparr>"

type_synonym 'a sql = "db \<Rightarrow> go_error + db \<times> 'a"

section \<open>Inserts: primary keys, foreign keys, column ranges\<close>

definition sql_insert_test :: "Test \<Rightarrow> unit sql" where
  "sql_insert_test test d =
     (if \<not> (in_int4 (tWorkerCount test) \<and> in_int4 (tDurationSec test) \<and> in_int4 (tRPS test)
            \<and> in_int4 (tConcurrency test))
      then Inl (PgError ''integer out of range'')
      else if tID test \<in> tID ` set (dTests d)
      then Inl (PgError ''duplicate key value violates unique constraint'')
      else Inr (d\<lparr>dTests := dTests d @ [test]\<rparr>, ()))"

definition sql_insert_worker :: "Worker \<Rightarrow> unit sql" where
  "sql_insert_worker worker d =
     (if \<not> in_int4 (wCPUCount worker)
      then Inl (PgError ''integer out of range'')
      else if wID worker \<in> wID ` set (dWorkers d)
      then Inl (PgError ''duplicate key value violates unique constraint'')
      else Inr (d\<lparr>dWorkers := dWorkers d @ [worker]\<rparr>, ()))"

fun insert_assignment_rows :: "TestWorker list \<Rightarrow> unit sql" where
  "insert_assignment_rows [] d = Inr (d, ())"
| "insert_assignment_rows (row # rows) d =
     (if \<not> in_int4 (aRPS row)
      then Inl (PgError ''integer out of range'')
      else if akey row \<in> akey ` set (dAssignments d)
      then Inl (PgError ''duplicate key value violates unique constraint'')
      else if aTestID row \<notin> tID ` set (dTests d) \<or> aWorkerID row \<notin> wID ` set (dWorkers d)
      then Inl (PgError ''insert violates foreign key constraint'')
      else insert_assignment_rows rows (d\<lparr>dAssignments := dAssignments d @ [row]\<rparr>))"

text \<open>A multi-row VALUES list cannot be empty: the server rejects the statement.\<close>

definition sql_insert_assignments :: "TestWorker list \<Rightarrow> unit sql" where
  "sql_insert_assignments rows d =
     (if rows = [] then Inl (PgError ''syntax error'') else insert_assignment_rows rows d)"

lemma insert_assignment_rows_Inr:
  "insert_assignment_rows rows d = Inr (d', u) \<Longrightarrow>
   d' = d\<lparr>dAssignments := dAssignments d @ rows\<rparr> \<and>
   (\<forall>row\<in>set rows. in_int4 (aRPS row) \<and> aTestID row \<in> tID ` set (dTests d) \<and>
     aWorkerID row \<in> wID ` set (dWorkers d)) \<and>
   akey ` set rows \<inter> akey ` set (dAssignments d) = {} \<and> distinct (map akey rows)"
proof (induction rows arbitrary: d)
  case Nil
  then show ?case by simp
next
  case (Cons row rows)
  let ?d = "d\<lparr>dAssignments := dAssignments d @ [row]\<rparr>"
  from Cons.prems have row: "in_int4 (aRPS row)" "akey row \<notin> akey ` set (dAssignments d)"
      "aTestID row \<in> tID ` set (dTests d)" "aWorkerID row \<in> wID ` set (dWorkers d)"
    and rest: "insert_assignment_rows rows ?d = Inr (d', u)"
    by (simp_all split: if_splits)
  from Cons.IH [OF rest] row show ?case by auto
qed

lemma insert_assignment_rows_ok:
  assumes "\<forall>row\<in>set rows. in_int4 (aRPS row) \<and> aTestID row \<in> tID ` set (dTests d) \<and>
      aWorkerID row \<in> wID ` set (dWorkers d)"
    and "akey ` set rows \<inter> akey ` set (dAssignments d) = {}" "distinct (map akey rows)"
  shows "insert_assignment_rows rows d = Inr (d\<lparr>dAssignments := dAssignments d @ rows\<rparr>, ())"
  using assms by (induction rows arbitrary: d) auto

section \<open>Round trips, the pool, transactions\<close>

datatype outcome = Done | Failed go_error | Lost go_error

record db_event =
  ev_env :: "db \<Rightarrow> db"
  ev_out :: outcome
  ev_locked :: "string list"

text \<open>The world of a control-plane operation: the database, the script of the further round trips
  and the state \<open>'p\<close> of the provisioner behind its interface.\<close>

record 'p world =
  wdb :: db
  wscript :: "db_event list"
  wprov :: 'p

type_synonym ('p, 'a) io = "'p world \<Rightarrow> (go_error + 'a) \<times> 'p world"

definition quiet_event :: db_event where
  "quiet_event = \<lparr>ev_env = id, ev_out = Done, ev_locked = []\<rparr>"

definition next_event :: "'p world \<Rightarrow> db_event \<times> 'p world" where
  "next_event w = (case wscript w of [] \<Rightarrow> (quiet_event, w) | e # es \<Rightarrow> (e, w\<lparr>wscript := es\<rparr>))"

definition retM :: "'a \<Rightarrow> ('p, 'a) io" where
  "retM x w = (Inr x, w)"

definition failM :: "go_error \<Rightarrow> ('p, 'a) io" where
  "failM e w = (Inl e, w)"

text \<open>\<open>x, err := m(); if err != nil { return err }\<close>\<close>

definition tryM :: "('p, 'a) io \<Rightarrow> ('a \<Rightarrow> ('p, 'b) io) \<Rightarrow> ('p, 'b) io" where
  "tryM m k w = (case m w of (Inl e, w') \<Rightarrow> (Inl e, w') | (Inr x, w') \<Rightarrow> k x w')"

text \<open>\<open>if err != nil { cleanup }\<close>, whose own result is the handler's.\<close>

definition catchM :: "('p, 'a) io \<Rightarrow> (go_error \<Rightarrow> ('p, 'a) io) \<Rightarrow> ('p, 'a) io" where
  "catchM m h w = (case m w of (Inl e, w') \<Rightarrow> h e w' | (Inr x, w') \<Rightarrow> (Inr x, w'))"

text \<open>\<open>fmt.Errorf(msg + ": %w", err)\<close>\<close>

definition wrapM :: "string \<Rightarrow> ('p, 'a) io \<Rightarrow> ('p, 'a) io" where
  "wrapM msg m w = (case m w of (Inl e, w') \<Rightarrow> (Inl (Wrapf msg e), w') | (Inr x, w') \<Rightarrow> (Inr x, w'))"

text \<open>A statement sent through the pool commits by itself.\<close>

definition pool_stmt :: "'a sql \<Rightarrow> ('p, 'a) io" where
  "pool_stmt q w =
     (let (e, w1) = next_event w; d1 = ev_env e (wdb w1) in
      case ev_out e of
        Failed err \<Rightarrow> (Inl err, w1\<lparr>wdb := d1\<rparr>)
      | Done \<Rightarrow> (case q d1 of Inl err \<Rightarrow> (Inl err, w1\<lparr>wdb := d1\<rparr>)
                            | Inr (d2, x) \<Rightarrow> (Inr x, w1\<lparr>wdb := d2\<rparr>))
      | Lost err \<Rightarrow> (case q d1 of Inl _ \<Rightarrow> (Inl err, w1\<lparr>wdb := d1\<rparr>)
                                | Inr (d2, x) \<Rightarrow> (Inl err, w1\<lparr>wdb := d2\<rparr>)))"

text \<open>A statement inside a transaction runs on the private copy.\<close>

definition tx_stmt_locking :: "(string list \<Rightarrow> 'a sql) \<Rightarrow> ('p, 'a) io" where
  "tx_stmt_locking q w =
     (let (e, w1) = next_event w in
      case ev_out e of
        Done \<Rightarrow> (case q (ev_locked e) (wdb w1) of Inl err \<Rightarrow> (Inl err, w1)
                                               | Inr (d2, x) \<Rightarrow> (Inr x, w1\<lparr>wdb := d2\<rparr>))
      | Failed err \<Rightarrow> (Inl err, w1)
      | Lost err \<Rightarrow> (Inl err, w1))"

definition tx_stmt :: "'a sql \<Rightarrow> ('p, 'a) io" where
  "tx_stmt q = tx_stmt_locking (\<lambda>_. q)"

text \<open>
  \<open>tx, err := db.Begin(ctx); defer tx.Rollback(ctx); ...; tx.Commit(ctx)\<close>. The body returns the
  result together with the wrapping its Commit gives an error; a body that returns an error is
  rolled back.
\<close>

definition in_tx :: "string \<Rightarrow> ('p, (go_error \<Rightarrow> go_error) \<times> 'a) io \<Rightarrow> ('p, 'a) io" where
  "in_tx begin_msg body w =
     (let (e, w1) = next_event w; d1 = ev_env e (wdb w1) in
      case ev_out e of
        Failed err \<Rightarrow> (Inl (Wrapf begin_msg err), w1\<lparr>wdb := d1\<rparr>)
      | Lost err \<Rightarrow> (Inl (Wrapf begin_msg err), w1\<lparr>wdb := d1\<rparr>)
      | Done \<Rightarrow>
         (case body (w1\<lparr>wdb := d1\<rparr>) of
            (Inl err, w2) \<Rightarrow> (Inl err, w2\<lparr>wdb := d1\<rparr>)
          | (Inr (wrap, x), w2) \<Rightarrow>
             (let (e', w3) = next_event w2 in
              case ev_out e' of
                Done \<Rightarrow> (Inr x, w3)
              | Failed err \<Rightarrow> (Inl (wrap err), w3\<lparr>wdb := d1\<rparr>)
              | Lost err \<Rightarrow> (Inl (wrap err), w3))))"

lemmas io_defs = retM_def failM_def tryM_def catchM_def wrapM_def

section \<open>Quiet worlds\<close>

text \<open>With an exhausted script every combinator computes its plain meaning.\<close>

abbreviation quiet :: "'p world \<Rightarrow> bool" where
  "quiet w \<equiv> wscript w = []"

lemma next_event_quiet: "quiet w \<Longrightarrow> next_event w = (quiet_event, w)"
  by (simp add: next_event_def)

lemma pool_stmt_quiet:
  "quiet w \<Longrightarrow> pool_stmt q w =
    (case q (wdb w) of Inl err \<Rightarrow> (Inl err, w) | Inr (d2, x) \<Rightarrow> (Inr x, w\<lparr>wdb := d2\<rparr>))"
  by (simp add: pool_stmt_def next_event_quiet quiet_event_def split: sum.split)

lemma tx_stmt_locking_quiet:
  "quiet w \<Longrightarrow> tx_stmt_locking q w =
    (case q [] (wdb w) of Inl err \<Rightarrow> (Inl err, w) | Inr (d2, x) \<Rightarrow> (Inr x, w\<lparr>wdb := d2\<rparr>))"
  by (simp add: tx_stmt_locking_def next_event_quiet quiet_event_def split: sum.split)

lemma tx_stmt_quiet:
  "quiet w \<Longrightarrow> tx_stmt q w =
    (case q (wdb w) of Inl err \<Rightarrow> (Inl err, w) | Inr (d2, x) \<Rightarrow> (Inr x, w\<lparr>wdb := d2\<rparr>))"
  by (simp add: tx_stmt_def tx_stmt_locking_quiet)

lemmas quiet_simps = pool_stmt_quiet tx_stmt_locking_quiet tx_stmt_quiet

section \<open>What a script does to the database\<close>

text \<open>
  \<open>env_ok R w\<close>: every step of the other clients that the script holds satisfies the relation \<open>R\<close>.
  \<open>keeps R m\<close>: then the operation \<open>m\<close>, whatever round trips fail, relates the database before
  and after by \<open>R\<close>.
\<close>

definition env_ok :: "(db \<Rightarrow> db \<Rightarrow> bool) \<Rightarrow> 'p world \<Rightarrow> bool" where
  "env_ok R w \<longleftrightarrow> (\<forall>e\<in>set (wscript w). \<forall>d. R d (ev_env e d))"

definition keeps :: "(db \<Rightarrow> db \<Rightarrow> bool) \<Rightarrow> ('p, 'a) io \<Rightarrow> bool" where
  "keeps R m \<longleftrightarrow> (\<forall>w. env_ok R w \<longrightarrow> R (wdb w) (wdb (snd (m w))) \<and> env_ok R (snd (m w)))"

text \<open>
  \<open>frame m\<close>: the operation consumes events of the script from the front and leaves the
  provisioner's state alone, as every pure database operation does.
\<close>

definition frame :: "('p, 'a) io \<Rightarrow> bool" where
  "frame m \<longleftrightarrow> (\<forall>w r w'. m w = (r, w') \<longrightarrow>
     (\<exists>n. wscript w' = drop n (wscript w)) \<and> wprov w' = wprov w)"

named_theorems frame_intros

lemma env_ok_quiet [simp]: "quiet w \<Longrightarrow> env_ok R w"
  by (simp add: env_ok_def)

lemma env_ok_wdb [simp]: "env_ok R (w\<lparr>wdb := d\<rparr>) = env_ok R w"
  by (simp add: env_ok_def)

lemma env_ok_drop: "env_ok R w \<Longrightarrow> wscript w' = drop n (wscript w) \<Longrightarrow> env_ok R w'"
  by (auto simp: env_ok_def dest: in_set_dropD)

lemma next_event_script:
  "next_event w = (e, w1) \<Longrightarrow> wdb w1 = wdb w \<and> (\<exists>n. wscript w1 = drop n (wscript w))"
  by (auto simp: next_event_def split: list.splits intro: exI [of _ 0] exI [of _ "Suc 0"])

lemma next_event_env:
  "next_event w = (e, w1) \<Longrightarrow> env_ok R w \<Longrightarrow> (\<And>d. R d d) \<Longrightarrow>
   wdb w1 = wdb w \<and> R (wdb w) (ev_env e (wdb w)) \<and> env_ok R w1"
  by (auto simp: next_event_def env_ok_def quiet_event_def split: list.splits)

lemma keepsD:
  "keeps R m \<Longrightarrow> env_ok R w \<Longrightarrow> m w = (r, w') \<Longrightarrow> R (wdb w) (wdb w') \<and> env_ok R w'"
  by (auto simp: keeps_def dest: spec [of _ w])

lemma frameD:
  assumes "frame m" "m w = (r, w')"
  shows "\<exists>n. wscript w' = drop n (wscript w)" and "wprov w' = wprov w"
  using assms by (simp_all add: frame_def)

lemma frameI:
  assumes "\<And>w r w'. m w = (r, w') \<Longrightarrow> \<exists>n. wscript w' = drop n (wscript w)"
    and "\<And>w r w'. m w = (r, w') \<Longrightarrow> wprov w' = wprov w"
  shows "frame m"
  using assms by (simp add: frame_def)

lemma next_event_prov: "next_event w = (e, w1) \<Longrightarrow> wprov w1 = wprov w"
  by (auto simp: next_event_def split: list.splits)

lemma frame_retM [frame_intros]: "frame (retM x)"
  by (auto simp: frame_def retM_def intro: exI [of _ 0])

lemma frame_failM [frame_intros]: "frame (failM e)"
  by (auto simp: frame_def failM_def intro: exI [of _ 0])

lemma frame_wrapM [frame_intros]: "frame m \<Longrightarrow> frame (wrapM msg m)"
  unfolding frame_def wrapM_def by (auto split: prod.splits sum.splits)

lemma frame_tryM [frame_intros]:
  assumes "frame m" "\<And>x. frame (k x)"
  shows "frame (tryM m k)"
proof (rule frameI)
  fix w r w'
  assume run: "tryM m k w = (r, w')"
  obtain r1 w1 where m: "m w = (r1, w1)" by fastforce
  note m' = frameD [OF assms(1) m]
  note k' = frameD [OF assms(2), where w = w1 and w' = w' and r = r]
  from m' obtain n where "wscript w1 = drop n (wscript w)" by blast
  with run m m' k' show "\<exists>n. wscript w' = drop n (wscript w)"
    by (cases r1) (auto simp: tryM_def)
  from run m m' k' show "wprov w' = wprov w" by (cases r1) (auto simp: tryM_def)
qed

lemma frame_catchM [frame_intros]:
  assumes "frame m" "\<And>e. frame (h e)"
  shows "frame (catchM m h)"
proof (rule frameI)
  fix w r w'
  assume run: "catchM m h w = (r, w')"
  obtain r1 w1 where m: "m w = (r1, w1)" by fastforce
  note m' = frameD [OF assms(1) m]
  note h' = frameD [OF assms(2), where w = w1 and w' = w' and r = r]
  from m' obtain n where "wscript w1 = drop n (wscript w)" by blast
  with run m m' h' show "\<exists>n. wscript w' = drop n (wscript w)"
    by (cases r1) (auto simp: catchM_def)
  from run m m' h' show "wprov w' = wprov w" by (cases r1) (auto simp: catchM_def)
qed

lemma frame_pool_stmt [frame_intros]: "frame (pool_stmt q)"
proof (rule frameI)
  fix w r w'
  assume run: "pool_stmt q w = (r, w')"
  obtain e w1 where e: "next_event w = (e, w1)" by fastforce
  note e' = next_event_script [OF e] next_event_prov [OF e]
  from run e e' show "\<exists>n. wscript w' = drop n (wscript w)" and "wprov w' = wprov w"
    by (auto simp: pool_stmt_def Let_def split: outcome.splits sum.splits)
qed

lemma frame_stmt_locking [frame_intros]: "frame (tx_stmt_locking q)"
proof (rule frameI)
  fix w r w'
  assume run: "tx_stmt_locking q w = (r, w')"
  obtain e w1 where e: "next_event w = (e, w1)" by fastforce
  note e' = next_event_script [OF e] next_event_prov [OF e]
  from run e e' show "\<exists>n. wscript w' = drop n (wscript w)" and "wprov w' = wprov w"
    by (auto simp: tx_stmt_locking_def Let_def split: outcome.splits sum.splits)
qed

lemma frame_stmt [frame_intros]: "frame (tx_stmt q)"
  unfolding tx_stmt_def by (rule frame_stmt_locking)

lemma frame_if [frame_intros]: "frame m \<Longrightarrow> frame m' \<Longrightarrow> frame (if b then m else m')"
  by simp

lemma frame_let [frame_intros]: "frame (f x) \<Longrightarrow> frame (let y = x in f y)"
  by simp

section \<open>The three ends of a transaction\<close>

text \<open>The database an operation finds at its first round trip.\<close>

definition db_seen :: "'p world \<Rightarrow> db" where
  "db_seen w = ev_env (fst (next_event w)) (wdb w)"

lemma db_seen_quiet [simp]: "quiet w \<Longrightarrow> db_seen w = wdb w"
  by (simp add: db_seen_def next_event_quiet quiet_event_def)

text \<open>Rolled back, committed and reported, or committed and lost on the way back.\<close>

lemma in_tx_cases:
  assumes run: "in_tx msg body w = (r, w')" and frame: "frame body"
  obtains (rolled_back) err where
      "r = Inl err" "wdb w' = db_seen w"
  | (committed) w1 wrap x w2 where
      "r = Inr x" "body w1 = (Inr (wrap, x), w2)" "wdb w' = wdb w2"
      "wdb w1 = db_seen w"
  | (lost) w1 wrap x w2 err where
      "r = Inl (wrap err)" "body w1 = (Inr (wrap, x), w2)" "wdb w' = wdb w2"
      "wdb w1 = db_seen w"
proof -
  obtain e w1 where e: "next_event w = (e, w1)" by fastforce
  let ?w1 = "w1\<lparr>wdb := ev_env e (wdb w)\<rparr>"
  have wdb1: "wdb w1 = wdb w" using next_event_script [OF e] by simp
  obtain r2 w2 where b: "body ?w1 = (r2, w2)" by fastforce
  obtain e' w3 where e': "next_event w2 = (e', w3)" by fastforce
  have wdb3: "wdb w3 = wdb w2" using next_event_script [OF e'] by simp
  show thesis
  proof (cases "ev_out e = Done \<and> (\<exists>y. r2 = Inr y)")
    case False
    with run e b wdb1 show thesis
      by (intro rolled_back [of "case r of Inl err \<Rightarrow> err | Inr _ \<Rightarrow> ErrInternal"])
         (auto simp: in_tx_def Let_def db_seen_def split: outcome.splits sum.splits)
  next
    case True
    then obtain wrap x where x: "ev_out e = Done" "r2 = Inr (wrap, x)" by auto
    have start: "wdb ?w1 = db_seen w" using e by (simp add: db_seen_def)
    show thesis
    proof (cases "ev_out e'")
      case Done
      with run e b e' x wdb1 wdb3 have "r = Inr x" "wdb w' = wdb w2"
        by (simp_all add: in_tx_def Let_def)
      with committed b x start show thesis by blast
    next
      case (Failed err)
      with run e b e' x wdb1 show thesis
        by (intro rolled_back [of "wrap err"]) (auto simp: in_tx_def Let_def db_seen_def)
    next
      case (Lost err)
      with run e b e' x wdb1 wdb3 have "r = Inl (wrap err)" "wdb w' = wdb w2"
        by (simp_all add: in_tx_def Let_def)
      with lost b x start show thesis by blast
    qed
  qed
qed

lemma frame_in_tx [frame_intros]:
  assumes "frame body"
  shows "frame (in_tx msg body)"
proof (rule frameI)
  fix w r w'
  assume run: "in_tx msg body w = (r, w')"
  obtain e w1 where e: "next_event w = (e, w1)" by fastforce
  note e1 = next_event_script [OF e] next_event_prov [OF e]
  obtain r2 w2 where b: "body (w1\<lparr>wdb := ev_env e (wdb w1)\<rparr>) = (r2, w2)" by fastforce
  note b1 = frameD [OF assms b]
  obtain e' w3 where e': "next_event w2 = (e', w3)" by fastforce
  note e2 = next_event_script [OF e'] next_event_prov [OF e']
  from e1 obtain n where n: "wscript w1 = drop n (wscript w)" by blast
  from b1 n obtain m where m: "wscript w2 = drop m (wscript w)" by auto
  from e2 m obtain k where k: "wscript w3 = drop k (wscript w)" by auto
  from run e b e'
  have "wscript w' = wscript w1 \<or> wscript w' = wscript w2 \<or> wscript w' = wscript w3"
    by (auto simp: in_tx_def Let_def split: outcome.splits sum.splits)
  with n m k show "\<exists>n. wscript w' = drop n (wscript w)" by metis
  from run e b e' e1 b1 e2 show "wprov w' = wprov w"
    by (auto simp: in_tx_def Let_def split: outcome.splits sum.splits)
qed

section \<open>Relations every round trip keeps\<close>

text \<open>
  The contract between the database and every operation above it: \<open>R\<close> is a preorder on databases,
  so an operation keeps \<open>R\<close> when each of its statements and transactions does.
\<close>

locale db_relation =
  fixes R :: "db \<Rightarrow> db \<Rightarrow> bool"
  assumes R_refl: "R d d"
    and R_trans: "R d1 d2 \<Longrightarrow> R d2 d3 \<Longrightarrow> R d1 d3"
begin

lemma keeps_retM: "keeps R (retM x)"
  by (simp add: keeps_def retM_def R_refl)

lemma keeps_failM: "keeps R (failM e)"
  by (simp add: keeps_def failM_def R_refl)

lemma keeps_tryM:
  assumes "keeps R m" "\<And>x. keeps R (k x)"
  shows "keeps R (tryM m k)"
  unfolding keeps_def
proof (intro allI impI)
  fix w :: "'a world"
  assume w: "env_ok R w"
  obtain r w1 where m: "m w = (r, w1)" by fastforce
  from keepsD [OF assms(1) w m] have w1: "R (wdb w) (wdb w1)" "env_ok R w1" by simp_all
  show "R (wdb w) (wdb (snd (tryM m k w))) \<and> env_ok R (snd (tryM m k w))"
  proof (cases r)
    case (Inl e)
    with m w1 show ?thesis by (simp add: tryM_def)
  next
    case (Inr x)
    obtain r2 w2 where k: "k x w1 = (r2, w2)" by fastforce
    from keepsD [OF assms(2) w1(2) k] w1 m Inr k show ?thesis
      by (auto simp: tryM_def intro: R_trans)
  qed
qed

lemma keeps_catchM:
  assumes "keeps R m" "\<And>e. keeps R (h e)"
  shows "keeps R (catchM m h)"
  unfolding keeps_def
proof (intro allI impI)
  fix w :: "'a world"
  assume w: "env_ok R w"
  obtain r w1 where m: "m w = (r, w1)" by fastforce
  from keepsD [OF assms(1) w m] have w1: "R (wdb w) (wdb w1)" "env_ok R w1" by simp_all
  show "R (wdb w) (wdb (snd (catchM m h w))) \<and> env_ok R (snd (catchM m h w))"
  proof (cases r)
    case (Inr x)
    with m w1 show ?thesis by (simp add: catchM_def)
  next
    case (Inl e)
    obtain r2 w2 where h: "h e w1 = (r2, w2)" by fastforce
    from keepsD [OF assms(2) w1(2) h] w1 m Inl h show ?thesis
      by (auto simp: catchM_def intro: R_trans)
  qed
qed

lemma keeps_wrapM: "keeps R m \<Longrightarrow> keeps R (wrapM msg m)"
  unfolding keeps_def wrapM_def by (auto split: prod.splits sum.splits)

lemma keeps_pool_stmt:
  assumes "\<And>d d' x. q d = Inr (d', x) \<Longrightarrow> R d d'"
  shows "keeps R (pool_stmt q)"
  unfolding keeps_def
proof (intro allI impI)
  fix w :: "'b world"
  assume w: "env_ok R w"
  obtain e w1 where e: "next_event w = (e, w1)" by fastforce
  from next_event_env [OF e w R_refl]
  have "wdb w1 = wdb w" "R (wdb w) (ev_env e (wdb w))" "env_ok R w1" by simp_all
  with e assms show "R (wdb w) (wdb (snd (pool_stmt q w))) \<and> env_ok R (snd (pool_stmt q w))"
    by (auto simp: pool_stmt_def Let_def split: outcome.split sum.split intro: R_trans)
qed

text \<open>A transaction keeps \<open>R\<close> when its committed result does.\<close>

lemma keeps_in_tx:
  assumes "frame body" "\<And>w wrap x w'. body w = (Inr (wrap, x), w') \<Longrightarrow> R (wdb w) (wdb w')"
  shows "keeps R (in_tx msg body)"
  unfolding keeps_def
proof (intro allI impI)
  fix w :: "'a world"
  assume w: "env_ok R w"
  obtain r w' where run: "in_tx msg body w = (r, w')" by fastforce
  obtain e w1 where e: "next_event w = (e, w1)" by fastforce
  from next_event_env [OF e w R_refl] e
  have env: "R (wdb w) (db_seen w)" by (simp add: db_seen_def)
  from frameD(1) [OF frame_in_tx [OF assms(1)] run] w have "env_ok R w'"
    by (auto intro: env_ok_drop)
  moreover have "R (wdb w) (wdb w')"
    using run assms(1)
  proof (cases rule: in_tx_cases)
    case rolled_back
    with env show ?thesis by simp
  next
    case committed
    with env assms(2) [OF committed(2)] show ?thesis by (auto intro: R_trans)
  next
    case lost
    with env assms(2) [OF lost(2)] show ?thesis by (auto intro: R_trans)
  qed
  ultimately show "R (wdb w) (wdb (snd (in_tx msg body w))) \<and> env_ok R (snd (in_tx msg body w))"
    using run by simp
qed

lemma keeps_if: "keeps R m \<Longrightarrow> keeps R m' \<Longrightarrow> keeps R (if b then m else m')"
  by simp

lemmas keeps_intros =
  keeps_retM keeps_failM keeps_tryM keeps_catchM keeps_wrapM keeps_if

end

section \<open>Successful runs of a transaction body\<close>

named_theorems run_elims

lemma tryM_InrE [run_elims]:
  assumes "tryM m k w = (Inr y, w')"
  obtains x w1 where "m w = (Inr x, w1)" "k x w1 = (Inr y, w')"
  using assms by (auto simp: tryM_def split: prod.splits sum.splits)

lemma wrapM_InrE [run_elims]:
  assumes "wrapM msg m w = (Inr y, w')"
  obtains "m w = (Inr y, w')"
  using assms by (auto simp: wrapM_def split: prod.splits sum.splits)

lemma catch_failM_InrE [run_elims]:
  assumes "catchM m (\<lambda>e. failM (f e)) w = (Inr y, w')"
  obtains "m w = (Inr y, w')"
  using assms by (auto simp: catchM_def failM_def split: prod.splits sum.splits)

lemma tx_stmt_locking_InrE [run_elims]:
  assumes "tx_stmt_locking q w = (Inr y, w')"
  obtains l where "q l (wdb w) = Inr (wdb w', y)"
proof -
  obtain e w1 where e: "next_event w = (e, w1)" by fastforce
  with assms next_event_script [OF e] that show thesis
    by (auto simp: tx_stmt_locking_def Let_def split: outcome.splits sum.splits)
qed

lemma tx_stmt_InrE [run_elims]:
  assumes "tx_stmt q w = (Inr y, w')"
  obtains "q (wdb w) = Inr (wdb w', y)"
  using assms unfolding tx_stmt_def by (rule tx_stmt_locking_InrE)

lemma retM_InrE [run_elims]:
  assumes "retM x w = (Inr y, w')"
  obtains "y = x" "w' = w"
  using assms by (simp add: retM_def)

lemma if_InrE [run_elims]:
  assumes "(if b then m else m') w = (Inr y, w')"
  obtains b "m w = (Inr y, w')" | "\<not> b" "m' w = (Inr y, w')"
  using assms by (simp split: if_splits)

lemma failM_InrE [run_elims]:
  assumes "failM e w = (Inr y, w')"
  obtains "False"
  using assms by (simp add: failM_def)

end
