(* ===== verification/TestRepository.thy ===== *)
theory TestRepository
  imports Database
begin

text \<open>
  \<open>internal/repository/test_repository.go\<close>: the statements on the table \<open>tests\<close> and the six
  operations of \<open>PostgresTestRepository\<close>, each one statement through the pool. The locale
  \<open>status_store\<close> is the part of the interface the service relies on when it claims a test; the
  repository interprets it.
\<close>

section \<open>Statements\<close>

definition sql_select_tests :: "Test list sql" where
  "sql_select_tests d = Inr (d, sort_key (\<lambda>t. - tCreatedAt t) (dTests d))"

definition sql_select_test :: "string \<Rightarrow> Test sql" where
  "sql_select_test tid d =
     (case find_row tID tid (dTests d) of None \<Rightarrow> Inl ErrNoRows | Some t \<Rightarrow> Inr (d, t))"

definition sql_update_status :: "string \<Rightarrow> TestStatus \<Rightarrow> int sql" where
  "sql_update_status tid status d =
     Inr (d\<lparr>dTests := update_where (\<lambda>t. tID t = tid)
                 (\<lambda>t. t\<lparr>tStatus := status, tUpdatedAt := dNow d\<rparr>) (dTests d)\<rparr>,
          count_where (\<lambda>t. tID t = tid) (dTests d))"

definition sql_update_worker_count :: "string \<Rightarrow> int \<Rightarrow> int sql" where
  "sql_update_worker_count tid workerCount d =
     (if \<not> in_int4 workerCount then Inl (PgError ''integer out of range'')
      else Inr (d\<lparr>dTests := update_where (\<lambda>t. tID t = tid)
                      (\<lambda>t. t\<lparr>tWorkerCount := workerCount, tUpdatedAt := dNow d\<rparr>) (dTests d)\<rparr>,
                count_where (\<lambda>t. tID t = tid) (dTests d)))"

definition sql_transition_status :: "string \<Rightarrow> TestStatus \<Rightarrow> TestStatus \<Rightarrow> int sql" where
  "sql_transition_status tid from to d =
     Inr (d\<lparr>dTests := update_where (\<lambda>t. tID t = tid \<and> tStatus t = from)
                 (\<lambda>t. t\<lparr>tStatus := to, tUpdatedAt := dNow d\<rparr>) (dTests d)\<rparr>,
          count_where (\<lambda>t. tID t = tid \<and> tStatus t = from) (dTests d))"

section \<open>Operations\<close>

definition TestRepo_CreateTest :: "Test \<Rightarrow> ('p, unit) io" where
  "TestRepo_CreateTest test = wrapM ''create test'' (pool_stmt (sql_insert_test test))"

definition TestRepo_GetTests :: "('p, Test list) io" where
  "TestRepo_GetTests = wrapM ''list tests'' (pool_stmt sql_select_tests)"

definition TestRepo_GetTestByID :: "string \<Rightarrow> ('p, Test) io" where
  "TestRepo_GetTestByID tid =
     catchM (pool_stmt (sql_select_test tid))
       (\<lambda>err. if errors_is err ErrNoRows then failM ErrTestNotFound
              else failM (Wrapf ''get test'' err))"

definition TestRepo_UpdateStatus :: "string \<Rightarrow> TestStatus \<Rightarrow> ('p, unit) io" where
  "TestRepo_UpdateStatus tid status =
     tryM (wrapM ''update test status'' (pool_stmt (sql_update_status tid status)))
       (\<lambda>rowsAffected. if rowsAffected = 0 then failM ErrTestNotFound else retM ())"

definition TestRepo_UpdateWorkerCount :: "string \<Rightarrow> int \<Rightarrow> ('p, unit) io" where
  "TestRepo_UpdateWorkerCount tid workerCount =
     tryM (wrapM ''update test worker count'' (pool_stmt (sql_update_worker_count tid workerCount)))
       (\<lambda>rowsAffected. if rowsAffected = 0 then failM ErrTestNotFound else retM ())"

definition TestRepo_TryTransitionStatus ::
    "string \<Rightarrow> TestStatus \<Rightarrow> TestStatus \<Rightarrow> ('p, bool) io" where
  "TestRepo_TryTransitionStatus tid from to =
     tryM (wrapM ''transition test status'' (pool_stmt (sql_transition_status tid from to)))
       (\<lambda>rowsAffected. retM (rowsAffected > 0))"

lemmas TestRepo_defs =
  TestRepo_CreateTest_def TestRepo_GetTests_def TestRepo_GetTestByID_def TestRepo_UpdateStatus_def
  TestRepo_UpdateWorkerCount_def TestRepo_TryTransitionStatus_def

lemmas test_sql_defs =
  sql_select_tests_def sql_select_test_def sql_update_status_def sql_update_worker_count_def
  sql_transition_status_def

section \<open>Reading a test's status\<close>

definition test_status :: "string \<Rightarrow> db \<Rightarrow> TestStatus option" where
  "test_status tid d = map_option tStatus (find_row tID tid (dTests d))"

lemma test_status_dTests: "dTests d = dTests d' \<Longrightarrow> test_status tid d = test_status tid d'"
  by (simp add: test_status_def)

text \<open>What a status write does to every test's status.\<close>

lemma test_status_update:
  "sql_update_status tid st d = Inr (d', n) \<Longrightarrow>
   test_status i d' = (if i = tid then map_option (\<lambda>_. st) (test_status tid d) else test_status i d)"
  by (cases "find_row tID i (dTests d)")
     (auto simp: sql_update_status_def test_status_def find_row_update_where dest: find_row_key)

lemma test_status_worker_count:
  "sql_update_worker_count tid c d = Inr (d', n) \<Longrightarrow> test_status i d' = test_status i d"
  by (cases "find_row tID i (dTests d)")
     (auto simp: sql_update_worker_count_def test_status_def find_row_update_where
       split: if_splits dest: find_row_key)

lemma test_status_transition:
  assumes "sql_transition_status tid from to d = Inr (d', n)"
  shows "test_status i d' =
     (if i = tid \<and> test_status tid d = Some from then Some to else test_status i d)"
proof (cases "find_row tID i (dTests d)")
  case None
  with assms show ?thesis
    by (auto simp: sql_transition_status_def test_status_def find_row_update_where)
next
  case (Some a)
  then have "tID a = i" by (rule find_row_key)
  with Some assms show ?thesis
    by (auto simp: sql_transition_status_def test_status_def find_row_update_where)
qed

lemma count_transition:
  assumes "sql_transition_status tid from to d = Inr (d', n)"
  shows "0 < n \<longleftrightarrow> (\<exists>t\<in>set (dTests d). tID t = tid \<and> tStatus t = from)"
  using assms by (auto simp: sql_transition_status_def count_where_pos)

section \<open>The claim interface\<close>

text \<open>
  What the service needs of a store of test statuses to claim a test: a conditional write that
  reports whether it happened, and does happen exactly when the status was the expected one.
\<close>

locale status_store =
  fixes invar :: "'s \<Rightarrow> bool"
    and status_of :: "string \<Rightarrow> 's \<Rightarrow> TestStatus option"
    and try_transition :: "string \<Rightarrow> TestStatus \<Rightarrow> TestStatus \<Rightarrow> 's \<Rightarrow> bool \<times> 's"
  assumes won_iff: "invar s \<Longrightarrow> fst (try_transition tid from to s) \<longleftrightarrow> status_of tid s = Some from"
    and status_after: "invar s \<Longrightarrow> status_of i (snd (try_transition tid from to s)) =
      (if i = tid \<and> status_of tid s = Some from then Some to else status_of i s)"
    and invar_after: "invar s \<Longrightarrow> invar (snd (try_transition tid from to s))"
begin

text \<open>Any number of claims by any clients, with no other writer: at most one wins.\<close>

primrec claims :: "string \<Rightarrow> TestStatus \<Rightarrow> TestStatus \<Rightarrow> nat \<Rightarrow> 's \<Rightarrow> nat" where
  "claims tid from to 0 s = 0"
| "claims tid from to (Suc n) s =
     (case try_transition tid from to s of
        (won, s') \<Rightarrow> (if won then 1 else 0) + claims tid from to n s')"

lemma claims_step:
  assumes "invar s" "from \<noteq> to" "try_transition tid from to s = (won, s')"
  shows "won = (status_of tid s = Some from)" "status_of tid s' \<noteq> Some from" "invar s'"
  using won_iff [OF assms(1), of tid "from" to] status_after [OF assms(1), of tid tid "from" to]
    invar_after [OF assms(1), of tid "from" to] assms(2,3)
  by auto

lemma claims_lost:
  "invar s \<Longrightarrow> from \<noteq> to \<Longrightarrow> status_of tid s \<noteq> Some from \<Longrightarrow> claims tid from to n s = 0"
proof (induction n arbitrary: s)
  case 0
  then show ?case by simp
next
  case (Suc n)
  obtain won s' where t: "try_transition tid from to s = (won, s')" by fastforce
  from claims_step [OF Suc.prems(1,2) t] Suc.prems(3) have "\<not> won" by simp
  with t Suc.IH [OF claims_step(3) [OF Suc.prems(1,2) t] Suc.prems(2)
      claims_step(2) [OF Suc.prems(1,2) t]]
  show ?case by simp
qed

lemma claims_at_most_one:
  assumes "invar s" "from \<noteq> to"
  shows "claims tid from to n s = (if 0 < n \<and> status_of tid s = Some from then 1 else 0)"
proof (cases n)
  case 0
  then show ?thesis by simp
next
  case (Suc m)
  obtain won s' where t: "try_transition tid from to s = (won, s')" by fastforce
  from claims_step [OF assms t] t Suc claims_lost [of s' "from" to tid m] assms(2)
  show ?thesis by simp
qed

end

section \<open>The repository provides it\<close>

text \<open>The claim as the tables see it: the statement and its affected-row test.\<close>

definition transition_db :: "string \<Rightarrow> TestStatus \<Rightarrow> TestStatus \<Rightarrow> db \<Rightarrow> bool \<times> db" where
  "transition_db tid from to d =
     (case sql_transition_status tid from to d of
        Inl e \<Rightarrow> (False, d) | Inr (d', rowsAffected) \<Rightarrow> (0 < rowsAffected, d'))"

definition distinct_tests :: "db \<Rightarrow> bool" where
  "distinct_tests d \<longleftrightarrow> distinct (map tID (dTests d))"

lemma test_status_eq_Some:
  "distinct_tests d \<Longrightarrow> test_status tid d = Some st \<longleftrightarrow>
   (\<exists>t\<in>set (dTests d). tID t = tid \<and> tStatus t = st)"
  by (auto simp: test_status_def distinct_tests_def dest: find_row_Some find_row_distinct)

interpretation test_store: status_store distinct_tests test_status transition_db
proof
  fix s :: db and tid i "from" to
  assume inv: "distinct_tests s"
  obtain d' n where t: "sql_transition_status tid from to s = Inr (d', n)"
    by (simp add: sql_transition_status_def)
  show "fst (transition_db tid from to s) \<longleftrightarrow> test_status tid s = Some from"
    using t count_transition [OF t] test_status_eq_Some [OF inv] by (simp add: transition_db_def)
  show "test_status i (snd (transition_db tid from to s)) =
      (if i = tid \<and> test_status tid s = Some from then Some to else test_status i s)"
    using t test_status_transition [OF t] by (simp add: transition_db_def)
  show "distinct_tests (snd (transition_db tid from to s))"
    using inv
    by (auto simp: transition_db_def sql_transition_status_def distinct_tests_def map_update_where)
qed

text \<open>The operation is the statement: what a run with no failing round trip computes.\<close>

lemma TestRepo_TryTransitionStatus_quiet:
  "quiet w \<Longrightarrow> TestRepo_TryTransitionStatus tid from to w =
   (case transition_db tid from to (wdb w) of (won, d') \<Rightarrow> (Inr won, w\<lparr>wdb := d'\<rparr>))"
  by (simp add: TestRepo_TryTransitionStatus_def io_defs quiet_simps transition_db_def
      sql_transition_status_def)

end
