(* ===== verification/WorkerRepository.thy ===== *)
theory WorkerRepository
  imports TestRepository
begin

text \<open>
  \<open>internal/repository/worker_repository.go\<close> and \<open>internal/repository/assignment.go\<close>: the
  statements on \<open>workers\<close> and \<open>test_workers\<close> and the operations of
  \<open>PostgresWorkerRepository\<close>. An operation that opens a transaction is \<open>in_tx\<close> of its body, whose
  statements are in the order of the code; the early Commit of two operations is part of their body.
\<close>

section \<open>Statements on workers\<close>

definition sql_select_workers :: "Worker list sql" where
  "sql_select_workers d = Inr (d, sort_key (\<lambda>w. - wRegisteredAt w) (dWorkers d))"

definition sql_select_worker :: "string \<Rightarrow> Worker sql" where
  "sql_select_worker wid d =
     (case find_row wID wid (dWorkers d) of None \<Rightarrow> Inl ErrNoRows | Some w \<Rightarrow> Inr (d, w))"

definition heartbeat_status :: "WorkerStatus \<Rightarrow> WorkerStatus \<Rightarrow> WorkerStatus" where
  "heartbeat_status reported current =
     (if current \<in> {WorkerStatusReserved, WorkerStatusDraining, WorkerStatusOffline}
      then current else reported)"

definition sql_heartbeat :: "string \<Rightarrow> WorkerStatus \<Rightarrow> time \<Rightarrow> int sql" where
  "sql_heartbeat wid reported now d =
     Inr (d\<lparr>dWorkers := update_where (\<lambda>w. wID w = wid)
                 (\<lambda>w. w\<lparr>wStatus := heartbeat_status reported (wStatus w),
                         wLastHeartbeat := now, wUpdatedAt := now\<rparr>) (dWorkers d)\<rparr>,
          count_where (\<lambda>w. wID w = wid) (dWorkers d))"

text \<open>The shared shape of the other writes: a new status under a guard.\<close>

definition set_worker_status :: "(Worker \<Rightarrow> bool) \<Rightarrow> WorkerStatus \<Rightarrow> int sql" where
  "set_worker_status P status d =
     Inr (d\<lparr>dWorkers := update_where P (\<lambda>w. w\<lparr>wStatus := status, wUpdatedAt := dNow d\<rparr>) (dWorkers d)\<rparr>,
          count_where P (dWorkers d))"

definition sql_mark_offline :: "time \<Rightarrow> int sql" where
  "sql_mark_offline cutoff =
     set_worker_status (\<lambda>w. wStatus w \<noteq> WorkerStatusOffline \<and> wLastHeartbeat w < cutoff)
       WorkerStatusOffline"

definition sql_lock_idle_workers :: "int \<Rightarrow> string list \<Rightarrow> Worker list sql" where
  "sql_lock_idle_workers workerCount locked d =
     (if workerCount < 0 then Inl (PgError ''LIMIT must not be negative'')
      else Inr (d, take (nat workerCount)
             (filter (\<lambda>w. wID w \<notin> set locked)
               (sort_key (\<lambda>w. - wLastHeartbeat w)
                 (filter (\<lambda>w. wStatus w = WorkerStatusIdle) (dWorkers d))))))"

definition sql_reserve_workers :: "string list \<Rightarrow> int sql" where
  "sql_reserve_workers workerIDs =
     set_worker_status (\<lambda>w. wID w \<in> set workerIDs) WorkerStatusReserved"

definition sql_release_workers :: "string list \<Rightarrow> int sql" where
  "sql_release_workers workerIDs =
     set_worker_status (\<lambda>w. wID w \<in> set workerIDs \<and> wStatus w = WorkerStatusReserved)
       WorkerStatusIdle"

definition sql_select_removable :: "string list \<Rightarrow> string list sql" where
  "sql_select_removable workerIDs d =
     Inr (d, map wID (filter (\<lambda>w. wID w \<in> set workerIDs \<and> wStatus w = WorkerStatusIdle) (dWorkers d)))"

definition sql_drain_workers :: "string list \<Rightarrow> int sql" where
  "sql_drain_workers removable =
     set_worker_status (\<lambda>w. wID w \<in> set removable) WorkerStatusDraining"

definition sql_worker_running :: "string \<Rightarrow> int sql" where
  "sql_worker_running wid =
     set_worker_status (\<lambda>w. wID w = wid \<and> wStatus w = WorkerStatusReserved) WorkerStatusRunning"

definition sql_worker_idle :: "string \<Rightarrow> int sql" where
  "sql_worker_idle wid =
     set_worker_status (\<lambda>w. wID w = wid \<and> wStatus w = WorkerStatusRunning) WorkerStatusIdle"

section \<open>Statements on assignments\<close>

definition set_assignment ::
    "(TestWorker \<Rightarrow> bool) \<Rightarrow> (TestWorker \<Rightarrow> TestWorker) \<Rightarrow> int sql" where
  "set_assignment P f d =
     Inr (d\<lparr>dAssignments := update_where P f (dAssignments d)\<rparr>, count_where P (dAssignments d))"

definition active_assignment :: "TestWorker \<Rightarrow> bool" where
  "active_assignment a \<longleftrightarrow> aStatus a = AssignmentStatusReserved \<or> aStatus a = AssignmentStatusRunning"

definition sql_assignment_running :: "string \<Rightarrow> string \<Rightarrow> int sql" where
  "sql_assignment_running tid wid d =
     set_assignment
       (\<lambda>a. aTestID a = tid \<and> aWorkerID a = wid \<and> aStatus a = AssignmentStatusReserved)
       (\<lambda>a. a\<lparr>aStatus := AssignmentStatusRunning, aStartedAt := Some (dNow d)\<rparr>) d"

definition sql_assignment_completed :: "string \<Rightarrow> string \<Rightarrow> int sql" where
  "sql_assignment_completed tid wid d =
     set_assignment
       (\<lambda>a. aTestID a = tid \<and> aWorkerID a = wid \<and> aStatus a = AssignmentStatusRunning)
       (\<lambda>a. a\<lparr>aStatus := AssignmentStatusCompleted, aCompletedAt := Some (dNow d)\<rparr>) d"

definition sql_assignment_failed :: "string \<Rightarrow> string \<Rightarrow> int sql" where
  "sql_assignment_failed tid wid d =
     set_assignment (\<lambda>a. aTestID a = tid \<and> aWorkerID a = wid \<and> active_assignment a)
       (\<lambda>a. a\<lparr>aStatus := AssignmentStatusFailed, aCompletedAt := Some (dNow d)\<rparr>) d"

definition sql_release_assignments :: "string \<Rightarrow> int sql" where
  "sql_release_assignments tid d =
     set_assignment (\<lambda>a. aTestID a = tid \<and> active_assignment a)
       (\<lambda>a. a\<lparr>aStatus := AssignmentStatusCompleted, aCompletedAt := Some (dNow d)\<rparr>) d"

definition offline_worker :: "db \<Rightarrow> string \<Rightarrow> bool" where
  "offline_worker d wid \<longleftrightarrow> (\<exists>w\<in>set (dWorkers d). wID w = wid \<and> wStatus w = WorkerStatusOffline)"

definition sql_fail_offline_assignments :: "int sql" where
  "sql_fail_offline_assignments d =
     set_assignment (\<lambda>a. offline_worker d (aWorkerID a) \<and> active_assignment a)
       (\<lambda>a. a\<lparr>aStatus := AssignmentStatusFailed, aCompletedAt := Some (dNow d)\<rparr>) d"

definition sql_select_assigned :: "string \<Rightarrow> string list sql" where
  "sql_select_assigned tid d =
     Inr (d, map aWorkerID (filter (\<lambda>a. aTestID a = tid) (dAssignments d)))"

definition sql_has_incomplete :: "string \<Rightarrow> bool sql" where
  "sql_has_incomplete tid d =
     Inr (d, \<exists>a\<in>set (dAssignments d). aTestID a = tid \<and> aStatus a \<noteq> AssignmentStatusCompleted)"

section \<open>Statements on tests\<close>

definition sql_lock_test :: "string \<Rightarrow> string sql" where
  "sql_lock_test tid d = (if tid \<in> tID ` set (dTests d) then Inr (d, tid) else Inl ErrNoRows)"

definition set_running_tests :: "(Test \<Rightarrow> bool) \<Rightarrow> TestStatus \<Rightarrow> int sql" where
  "set_running_tests P status d =
     (let Q = (\<lambda>t. P t \<and> tStatus t = StatusRunning) in
      Inr (d\<lparr>dTests := update_where Q (\<lambda>t. t\<lparr>tStatus := status, tUpdatedAt := dNow d\<rparr>) (dTests d)\<rparr>,
           count_where Q (dTests d)))"

definition sql_complete_test :: "string \<Rightarrow> int sql" where
  "sql_complete_test tid = set_running_tests (\<lambda>t. tID t = tid) StatusCompleted"

definition sql_fail_test :: "string \<Rightarrow> int sql" where
  "sql_fail_test tid = set_running_tests (\<lambda>t. tID t = tid) StatusFailed"

definition sql_fail_tests :: "int sql" where
  "sql_fail_tests d =
     set_running_tests
       (\<lambda>t. \<exists>a\<in>set (dAssignments d). aTestID a = tID t \<and> aStatus a = AssignmentStatusFailed)
       StatusFailed d"

section \<open>Operations: workers\<close>

definition WorkerRepo_CreateWorker :: "Worker \<Rightarrow> ('p, unit) io" where
  "WorkerRepo_CreateWorker worker = wrapM ''create worker'' (pool_stmt (sql_insert_worker worker))"

definition WorkerRepo_GetWorkers :: "('p, Worker list) io" where
  "WorkerRepo_GetWorkers = wrapM ''list workers'' (pool_stmt sql_select_workers)"

definition WorkerRepo_GetWorkerByID :: "string \<Rightarrow> ('p, Worker) io" where
  "WorkerRepo_GetWorkerByID wid =
     catchM (pool_stmt (sql_select_worker wid))
       (\<lambda>err. if errors_is err ErrNoRows then failM ErrWorkerNotFound
              else failM (Wrapf ''get worker'' err))"

definition WorkerRepo_UpdateHeartbeat :: "string \<Rightarrow> WorkerStatus \<Rightarrow> time \<Rightarrow> ('p, unit) io" where
  "WorkerRepo_UpdateHeartbeat wid status now =
     tryM (wrapM ''update heartbeat'' (pool_stmt (sql_heartbeat wid status now)))
       (\<lambda>rowsAffected. if rowsAffected = 0 then failM ErrWorkerNotFound else retM ())"

definition WorkerRepo_MarkOfflineWorkers :: "time \<Rightarrow> ('p, int) io" where
  "WorkerRepo_MarkOfflineWorkers cutoff =
     wrapM ''mark worker offline'' (pool_stmt (sql_mark_offline cutoff))"

text \<open>One row per reserved worker, in the order of the selection; \<open>NOW()\<close> is the transaction's.\<close>

definition assignment_row :: "string \<Rightarrow> time \<Rightarrow> Worker \<times> int \<Rightarrow> TestWorker" where
  "assignment_row testID now = (\<lambda>(worker, rps).
     \<lparr>aTestID = testID, aWorkerID = wID worker, aStatus = AssignmentStatusReserved,
      aAssignedAt = now, aStartedAt = None, aCompletedAt = None, aRPS = rps\<rparr>)"

definition reserve_body ::
    "string \<Rightarrow> int \<Rightarrow> int list \<Rightarrow> ('p, (go_error \<Rightarrow> go_error) \<times> Worker list) io" where
  "reserve_body testID workerCount rpsAllocations =
     tryM (wrapM ''lock idle workers'' (tx_stmt_locking (sql_lock_idle_workers workerCount)))
     (\<lambda>selected. let workerIDs = map wID selected in
        if int (length workerIDs) < workerCount then failM ErrInsufficientWorkers
        else tryM (wrapM ''reserve workers'' (tx_stmt (sql_reserve_workers workerIDs)))
        (\<lambda>_. let reservedWorkers = map (\<lambda>w. w\<lparr>wStatus := WorkerStatusReserved\<rparr>) selected in
           if length rpsAllocations \<noteq> length reservedWorkers
           then failM (Errorf (''rps allocation count '' @ itoa (int (length rpsAllocations)) @
                  '' does not match worker count '' @ itoa (int (length reservedWorkers))))
           else tryM (wrapM ''create test-worker mappings''
                       (tx_stmt (\<lambda>d. sql_insert_assignments
                          (map (assignment_row testID (dNow d)) (zip reservedWorkers rpsAllocations)) d)))
           (\<lambda>_. retM (Wrapf ''commit reservation transaction'', reservedWorkers))))"

definition WorkerRepo_ReserveWorkersForTest ::
    "string \<Rightarrow> int \<Rightarrow> int list \<Rightarrow> ('p, Worker list) io" where
  "WorkerRepo_ReserveWorkersForTest testID workerCount rpsAllocations =
     in_tx ''begin reservation transaction'' (reserve_body testID workerCount rpsAllocations)"

definition release_body :: "string \<Rightarrow> ('p, (go_error \<Rightarrow> go_error) \<times> unit) io" where
  "release_body testID =
     tryM (wrapM ''lock test-worker mappings'' (tx_stmt (sql_select_assigned testID)))
     (\<lambda>workerIDs.
        if workerIDs = [] then retM (\<lambda>err. err, ())
        else tryM (wrapM ''release workers'' (tx_stmt (sql_release_workers workerIDs)))
        (\<lambda>_. tryM (wrapM ''complete test-worker assignments'' (tx_stmt (sql_release_assignments testID)))
        (\<lambda>_. retM (Wrapf ''commit release transaction'', ()))))"

definition WorkerRepo_ReleaseWorkersForTest :: "string \<Rightarrow> ('p, unit) io" where
  "WorkerRepo_ReleaseWorkersForTest testID =
     in_tx ''begin release transaction'' (release_body testID)"

definition fail_offline_body :: "('p, (go_error \<Rightarrow> go_error) \<times> int) io" where
  "fail_offline_body =
     tryM (wrapM ''fail assignments for offline workers'' (tx_stmt sql_fail_offline_assignments))
     (\<lambda>affected.
        tryM (wrapM ''fail tests for offline workers'' (tx_stmt sql_fail_tests))
        (\<lambda>_. retM (Wrapf ''commit offline assignment reconciliation transaction'', affected)))"

definition WorkerRepo_MarkAssignmentsFailedForOfflineWorkers :: "('p, int) io" where
  "WorkerRepo_MarkAssignmentsFailedForOfflineWorkers =
     in_tx ''begin offline assignment reconciliation transaction'' fail_offline_body"

definition terminate_body :: "string list \<Rightarrow> ('p, (go_error \<Rightarrow> go_error) \<times> string list) io" where
  "terminate_body workerIDs =
     tryM (wrapM ''lock idle workers for termination'' (tx_stmt (sql_select_removable workerIDs)))
     (\<lambda>removable.
        if removable = [] then retM (Wrapf ''commit empty termination transaction'', [])
        else tryM (wrapM ''mark workers draining'' (tx_stmt (sql_drain_workers removable)))
        (\<lambda>_. retM (Wrapf ''commit worker termination transaction'', removable)))"

definition WorkerRepo_TerminateIdleWorkers :: "string list \<Rightarrow> ('p, string list) io" where
  "WorkerRepo_TerminateIdleWorkers workerIDs =
     (if workerIDs = [] then retM []
      else in_tx ''begin worker termination transaction'' (terminate_body workerIDs))"

section \<open>Operations: assignments\<close>

record AssignmentDetails =
  dTestID :: string
  dWorkerID :: string
  dStatus :: AssignmentStatus
  dAssignedAt :: time
  dStartedAt :: "time option"
  dCompletedAt :: "time option"
  dTargetURL :: string
  dMethod :: string
  dDurationSec :: int
  dRPS :: int
  dConcurrency :: int

text \<open>The join of an assignment row with its test, for LIMIT 1 the first pair.\<close>

definition assignment_details :: "TestWorker \<Rightarrow> Test \<Rightarrow> AssignmentDetails" where
  "assignment_details a t =
     \<lparr>dTestID = aTestID a, dWorkerID = aWorkerID a, dStatus = aStatus a, dAssignedAt = aAssignedAt a,
      dStartedAt = aStartedAt a, dCompletedAt = aCompletedAt a, dTargetURL = tTargetURL t,
      dMethod = tMethod t, dDurationSec = tDurationSec t, dRPS = aRPS a, dConcurrency = tConcurrency t\<rparr>"

definition sql_reserved_assignment :: "string \<Rightarrow> AssignmentDetails sql" where
  "sql_reserved_assignment wid d =
     (case [(a, t). a \<leftarrow> dAssignments d, t \<leftarrow> dTests d, tID t = aTestID a \<and> aWorkerID a = wid \<and>
             aStatus a = AssignmentStatusReserved] of
        [] \<Rightarrow> Inl ErrNoRows
      | (a, t) # rest \<Rightarrow> Inr (d, assignment_details a t))"

definition WorkerRepo_GetReservedAssignment :: "string \<Rightarrow> ('p, AssignmentDetails option) io" where
  "WorkerRepo_GetReservedAssignment wid =
     catchM (tryM (pool_stmt (sql_reserved_assignment wid)) (\<lambda>assignment. retM (Some assignment)))
       (\<lambda>err. if errors_is err ErrNoRows then retM None else failM (Wrapf ''get assignment'' err))"

definition mark_running_body :: "string \<Rightarrow> string \<Rightarrow> ('p, (go_error \<Rightarrow> go_error) \<times> unit) io" where
  "mark_running_body testID workerID =
     tryM (wrapM ''mark assignment running'' (tx_stmt (sql_assignment_running testID workerID)))
     (\<lambda>rowsAffected.
        if rowsAffected = 0 then failM ErrAssignmentNotFound
        else tryM (wrapM ''update worker to running'' (tx_stmt (sql_worker_running workerID)))
        (\<lambda>_. retM (Wrapf ''commit assignment running transaction'', ())))"

definition WorkerRepo_MarkAssignmentRunning :: "string \<Rightarrow> string \<Rightarrow> ('p, unit) io" where
  "WorkerRepo_MarkAssignmentRunning testID workerID =
     in_tx ''begin assignment running transaction'' (mark_running_body testID workerID)"

definition mark_completed_body :: "string \<Rightarrow> string \<Rightarrow> ('p, (go_error \<Rightarrow> go_error) \<times> unit) io" where
  "mark_completed_body testID workerID =
     tryM (catchM (tx_stmt (sql_lock_test testID))
            (\<lambda>err. failM (if errors_is err ErrNoRows then ErrTestNotFound
                          else Wrapf ''lock test for assignment completion'' err)))
     (\<lambda>lockedTestID.
        tryM (wrapM ''mark assignment completed'' (tx_stmt (sql_assignment_completed testID workerID)))
        (\<lambda>rowsAffected.
           if rowsAffected = 0 then failM ErrAssignmentNotFound
           else tryM (wrapM ''update worker to idle'' (tx_stmt (sql_worker_idle workerID)))
           (\<lambda>_. tryM (wrapM ''check incomplete assignments'' (tx_stmt (sql_has_incomplete testID)))
           (\<lambda>hasIncompleteAssignments.
              tryM (if hasIncompleteAssignments then retM 0
                    else wrapM ''mark test completed'' (tx_stmt (sql_complete_test testID)))
              (\<lambda>_. retM (Wrapf ''commit assignment completion transaction'', ()))))))"

definition WorkerRepo_MarkAssignmentCompleted :: "string \<Rightarrow> string \<Rightarrow> ('p, unit) io" where
  "WorkerRepo_MarkAssignmentCompleted testID workerID =
     in_tx ''begin assignment completion transaction'' (mark_completed_body testID workerID)"

definition mark_failed_body :: "string \<Rightarrow> string \<Rightarrow> ('p, (go_error \<Rightarrow> go_error) \<times> unit) io" where
  "mark_failed_body testID workerID =
     tryM (wrapM ''mark assignment failed'' (tx_stmt (sql_assignment_failed testID workerID)))
     (\<lambda>rowsAffected.
        if rowsAffected = 0 then failM ErrAssignmentNotFound
        else tryM (wrapM ''mark test failed'' (tx_stmt (sql_fail_test testID)))
        (\<lambda>_. retM (Wrapf ''commit assignment failure transaction'', ())))"

definition WorkerRepo_MarkAssignmentFailed :: "string \<Rightarrow> string \<Rightarrow> ('p, unit) io" where
  "WorkerRepo_MarkAssignmentFailed testID workerID =
     in_tx ''begin assignment failure transaction'' (mark_failed_body testID workerID)"

end
