(* ===== verification/Transactions.thy ===== *)
theory Transactions
  imports WorkerRepository
begin

text \<open>
  What each transaction of the worker repository promises, as a relation between the database
  before, the database after and the result (the \<open>_post\<close> predicates), and the contract
  \<open>transaction\<close> that every one of them meets: whatever round trip fails, the database is either
  left as it was found or changed by the whole promised effect.
\<close>

section \<open>The contract\<close>

locale transaction =
  fixes begin_msg :: string
    and body :: "('p, (go_error \<Rightarrow> go_error) \<times> 'a) io"
    and post :: "db \<Rightarrow> db \<Rightarrow> 'a \<Rightarrow> bool"
  assumes body_frame: "frame body"
    and body_post: "body w = (Inr (wrap, x), w') \<Longrightarrow> post (wdb w) (wdb w') x"
begin

lemma all_or_nothing:
  assumes "in_tx begin_msg body w = (r, w')"
  shows "(\<exists>err. r = Inl err) \<and> wdb w' = db_seen w \<or>
    (\<exists>x. post (db_seen w) (wdb w') x \<and> (r = Inr x \<or> (\<exists>err. r = Inl err)))"
  using assms body_frame
proof (cases rule: in_tx_cases)
  case rolled_back
  then show ?thesis by simp
next
  case (committed w1 wrap x w2)
  with body_post [OF committed(2)] show ?thesis by auto
next
  case (lost w1 wrap x w2 err)
  with body_post [OF lost(2)] show ?thesis by auto
qed

lemma on_success: "in_tx begin_msg body w = (Inr x, w') \<Longrightarrow> post (db_seen w) (wdb w') x"
  using all_or_nothing by fastforce

lemma keeps_tx:
  assumes "db_relation R" "\<And>d d' x. post d d' x \<Longrightarrow> R d d'"
  shows "keeps R (in_tx begin_msg body)"
  using body_frame by (rule db_relation.keeps_in_tx [OF assms(1)]) (auto intro: assms(2) dest: body_post)

end

section \<open>The promised effects\<close>

definition worker_to :: "WorkerStatus \<Rightarrow> time \<Rightarrow> Worker \<Rightarrow> Worker" where
  "worker_to status now w = w\<lparr>wStatus := status, wUpdatedAt := now\<rparr>"

definition test_to :: "TestStatus \<Rightarrow> time \<Rightarrow> Test \<Rightarrow> Test" where
  "test_to status now t = t\<lparr>tStatus := status, tUpdatedAt := now\<rparr>"

definition assignment_done :: "AssignmentStatus \<Rightarrow> time \<Rightarrow> TestWorker \<Rightarrow> TestWorker" where
  "assignment_done status now a = a\<lparr>aStatus := status, aCompletedAt := Some now\<rparr>"

definition assignment_started :: "time \<Rightarrow> TestWorker \<Rightarrow> TestWorker" where
  "assignment_started now a = a\<lparr>aStatus := AssignmentStatusRunning, aStartedAt := Some now\<rparr>"

lemmas row_defs = worker_to_def test_to_def assignment_done_def assignment_started_def

lemma row_keys [simp]:
  "wID (worker_to s now w) = wID w" "wStatus (worker_to s now w) = s"
  "tID (test_to ts now t) = tID t" "tStatus (test_to ts now t) = ts"
  "akey (assignment_done as now a) = akey a" "aStatus (assignment_done as now a) = as"
  "akey (assignment_started now a) = akey a"
  "aStatus (assignment_started now a) = AssignmentStatusRunning"
  "aTestID (assignment_done as now a) = aTestID a" "aTestID (assignment_started now a) = aTestID a"
  "aWorkerID (assignment_done as now a) = aWorkerID a"
  "aWorkerID (assignment_started now a) = aWorkerID a"
  by (simp_all add: row_defs)

definition reserve_post :: "string \<Rightarrow> int \<Rightarrow> int list \<Rightarrow> db \<Rightarrow> db \<Rightarrow> Worker list \<Rightarrow> bool" where
  "reserve_post testID workerCount allocs d d' ws \<longleftrightarrow>
     (\<exists>sel. set sel \<subseteq> {w \<in> set (dWorkers d). wStatus w = WorkerStatusIdle} \<and>
        int (length sel) = workerCount \<and> length allocs = length sel \<and>
        distinct (map wID sel) \<and>
        ws = map (\<lambda>w. w\<lparr>wStatus := WorkerStatusReserved\<rparr>) sel \<and>
        (let rows = map (assignment_row testID (dNow d)) (zip sel allocs) in
         akey ` set rows \<inter> akey ` set (dAssignments d) = {} \<and>
         (\<forall>row\<in>set rows. in_int4 (aRPS row)) \<and> testID \<in> tID ` set (dTests d) \<and>
         d' = d\<lparr>dWorkers := update_where (\<lambda>w. wID w \<in> wID ` set sel)
                  (worker_to WorkerStatusReserved (dNow d)) (dWorkers d),
                dAssignments := dAssignments d @ rows\<rparr>))"

definition release_post :: "string \<Rightarrow> db \<Rightarrow> db \<Rightarrow> unit \<Rightarrow> bool" where
  "release_post testID d d' u \<longleftrightarrow>
     d' = d\<lparr>dWorkers := update_where
              (\<lambda>w. (testID, wID w) \<in> akey ` set (dAssignments d) \<and> wStatus w = WorkerStatusReserved)
              (worker_to WorkerStatusIdle (dNow d)) (dWorkers d),
            dAssignments := update_where (\<lambda>a. aTestID a = testID \<and> active_assignment a)
              (assignment_done AssignmentStatusCompleted (dNow d)) (dAssignments d)\<rparr>"

definition fail_offline_post :: "db \<Rightarrow> db \<Rightarrow> int \<Rightarrow> bool" where
  "fail_offline_post d d' n \<longleftrightarrow>
     (let P = (\<lambda>a. offline_worker d (aWorkerID a) \<and> active_assignment a);
          as = update_where P (assignment_done AssignmentStatusFailed (dNow d)) (dAssignments d) in
      n = count_where P (dAssignments d) \<and>
      d' = d\<lparr>dAssignments := as,
             dTests := update_where
               (\<lambda>t. (\<exists>a\<in>set as. aTestID a = tID t \<and> aStatus a = AssignmentStatusFailed) \<and>
                    tStatus t = StatusRunning)
               (test_to StatusFailed (dNow d)) (dTests d)\<rparr>)"

definition terminate_post :: "string list \<Rightarrow> db \<Rightarrow> db \<Rightarrow> string list \<Rightarrow> bool" where
  "terminate_post workerIDs d d' removed \<longleftrightarrow>
     removed = map wID (filter (\<lambda>w. wID w \<in> set workerIDs \<and> wStatus w = WorkerStatusIdle) (dWorkers d)) \<and>
     d' = d\<lparr>dWorkers := update_where (\<lambda>w. wID w \<in> set removed)
              (worker_to WorkerStatusDraining (dNow d)) (dWorkers d)\<rparr>"

definition mark_running_post :: "string \<Rightarrow> string \<Rightarrow> db \<Rightarrow> db \<Rightarrow> unit \<Rightarrow> bool" where
  "mark_running_post tid wid d d' u \<longleftrightarrow>
     (let P = (\<lambda>a. aTestID a = tid \<and> aWorkerID a = wid \<and> aStatus a = AssignmentStatusReserved) in
      (\<exists>a\<in>set (dAssignments d). P a) \<and>
      d' = d\<lparr>dAssignments := update_where P (assignment_started (dNow d)) (dAssignments d),
             dWorkers := update_where (\<lambda>w. wID w = wid \<and> wStatus w = WorkerStatusReserved)
               (worker_to WorkerStatusRunning (dNow d)) (dWorkers d)\<rparr>)"

definition mark_completed_post :: "string \<Rightarrow> string \<Rightarrow> db \<Rightarrow> db \<Rightarrow> unit \<Rightarrow> bool" where
  "mark_completed_post tid wid d d' u \<longleftrightarrow>
     (let P = (\<lambda>a. aTestID a = tid \<and> aWorkerID a = wid \<and> aStatus a = AssignmentStatusRunning);
          as = update_where P (assignment_done AssignmentStatusCompleted (dNow d)) (dAssignments d) in
      (\<exists>a\<in>set (dAssignments d). P a) \<and>
      d' = d\<lparr>dAssignments := as,
             dWorkers := update_where (\<lambda>w. wID w = wid \<and> wStatus w = WorkerStatusRunning)
               (worker_to WorkerStatusIdle (dNow d)) (dWorkers d),
             dTests := update_where
               (\<lambda>t. (\<forall>a\<in>set as. aTestID a = tid \<longrightarrow> aStatus a = AssignmentStatusCompleted) \<and>
                    tID t = tid \<and> tStatus t = StatusRunning)
               (test_to StatusCompleted (dNow d)) (dTests d)\<rparr>)"

definition mark_failed_post :: "string \<Rightarrow> string \<Rightarrow> db \<Rightarrow> db \<Rightarrow> unit \<Rightarrow> bool" where
  "mark_failed_post tid wid d d' u \<longleftrightarrow>
     (let P = (\<lambda>a. aTestID a = tid \<and> aWorkerID a = wid \<and> active_assignment a) in
      (\<exists>a\<in>set (dAssignments d). P a) \<and>
      d' = d\<lparr>dAssignments := update_where P (assignment_done AssignmentStatusFailed (dNow d)) (dAssignments d),
             dTests := update_where (\<lambda>t. tID t = tid \<and> tStatus t = StatusRunning)
               (test_to StatusFailed (dNow d)) (dTests d)\<rparr>)"

lemmas post_defs =
  reserve_post_def release_post_def fail_offline_post_def terminate_post_def
  mark_running_post_def mark_completed_post_def mark_failed_post_def

text \<open>The statements in terms of the row functions.\<close>

lemma set_worker_status_eq:
  "set_worker_status P st d = Inr (d', n) \<longleftrightarrow>
   d' = d\<lparr>dWorkers := update_where P (worker_to st (dNow d)) (dWorkers d)\<rparr> \<and>
   n = count_where P (dWorkers d)"
  by (auto simp: set_worker_status_def worker_to_def [abs_def])

lemma set_running_tests_eq:
  "set_running_tests P st d = Inr (d', n) \<longleftrightarrow>
   d' = d\<lparr>dTests := update_where (\<lambda>t. P t \<and> tStatus t = StatusRunning) (test_to st (dNow d)) (dTests d)\<rparr> \<and>
   n = count_where (\<lambda>t. P t \<and> tStatus t = StatusRunning) (dTests d)"
  by (auto simp: set_running_tests_def test_to_def [abs_def] Let_def)

lemma set_assignment_eq:
  "set_assignment P f d = Inr (d', n) \<longleftrightarrow>
   d' = d\<lparr>dAssignments := update_where P f (dAssignments d)\<rparr> \<and> n = count_where P (dAssignments d)"
  by (auto simp: set_assignment_def)

lemmas worker_sql_defs =
  sql_mark_offline_def sql_reserve_workers_def sql_release_workers_def sql_drain_workers_def
  sql_worker_running_def sql_worker_idle_def set_worker_status_eq

lemmas assignment_sql_defs =
  sql_assignment_running_def sql_assignment_completed_def sql_assignment_failed_def
  sql_release_assignments_def sql_fail_offline_assignments_def set_assignment_eq

lemmas running_sql_defs =
  sql_complete_test_def sql_fail_test_def sql_fail_tests_def set_running_tests_eq

section \<open>The repository keeps the contract\<close>

lemma set_take_filter_subset: "set (take n (filter P xs)) \<subseteq> {x \<in> set xs. P x}"
  by (auto dest: in_set_takeD)

lemma sql_lock_idle_workersD:
  assumes "sql_lock_idle_workers n locked d = Inr (d', sel)"
  shows "d' = d" "set sel \<subseteq> {w \<in> set (dWorkers d). wStatus w = WorkerStatusIdle}"
    "int (length sel) \<le> n"
  using assms
  by (auto simp: sql_lock_idle_workers_def split: if_splits dest!: in_set_takeD)

lemma assignment_rows_reserved:
  "map (assignment_row tid now) (zip (map (\<lambda>w. w\<lparr>wStatus := s\<rparr>) ws) rs) =
   map (assignment_row tid now) (zip ws rs)"
  by (induction ws rs rule: list_induct2') (simp_all add: assignment_row_def)

lemma akey_assignment_row [simp]: "akey (assignment_row tid now (w, r)) = (tid, wID w)"
  by (simp add: akey_def assignment_row_def)

lemma map_akey_rows:
  "length rs = length ws \<Longrightarrow>
   map akey (map (assignment_row tid now) (zip ws rs)) = map (\<lambda>w. (tid, wID w)) ws"
  by (induction ws rs rule: list_induct2') simp_all

lemma rows_tid: "row \<in> set (map (assignment_row tid now) ps) \<Longrightarrow> aTestID row = tid"
  by (auto simp: assignment_row_def)

lemma reserve_body_post:
  assumes "reserve_body tid n allocs w = (Inr (wrap, ws), w')"
  shows "reserve_post tid n allocs (wdb w) (wdb w') ws"
proof -
  define rows where "rows sel = map (assignment_row tid (dNow (wdb w))) (zip sel allocs)" for sel
  from assms obtain locked sel d1 d2 k u where
    sel: "sql_lock_idle_workers n locked (wdb w) = Inr (d1, sel)" and
    enough: "\<not> int (length sel) < n" and
    upd: "sql_reserve_workers (map wID sel) d1 = Inr (d2, k)" and
    len: "length allocs = length sel" and
    ins: "sql_insert_assignments (map (assignment_row tid (dNow d2)) (zip sel allocs)) d2
      = Inr (wdb w', u)" and
    ws: "ws = map (\<lambda>w. w\<lparr>wStatus := WorkerStatusReserved\<rparr>) sel"
    unfolding reserve_body_def Let_def assignment_rows_reserved by (elim run_elims) auto
  from sql_lock_idle_workersD [OF sel]
  have d1: "d1 = wdb w" and idle: "set sel \<subseteq> {v \<in> set (dWorkers (wdb w)). wStatus v = WorkerStatusIdle}"
    and le: "int (length sel) \<le> n"
    by simp_all
  from upd d1 have d2: "d2 = (wdb w)\<lparr>dWorkers := update_where (\<lambda>v. wID v \<in> wID ` set sel)
      (worker_to WorkerStatusReserved (dNow (wdb w))) (dWorkers (wdb w))\<rparr>"
    by (simp add: worker_sql_defs)
  from ins d2 have ins1: "insert_assignment_rows (rows sel) d2 = Inr (wdb w', u)" "rows sel \<noteq> []"
    by (auto simp: sql_insert_assignments_def rows_def split: if_splits)
  note ins' = insert_assignment_rows_Inr [OF ins1(1)]
  from ins' d2 have "distinct (map akey (rows sel))" by blast
  then have "distinct (map wID sel)"
    unfolding rows_def map_akey_rows [OF len] by (auto simp: distinct_map inj_on_def)
  moreover have "tid \<in> tID ` set (dTests (wdb w))"
  proof -
    from ins1(2) have "hd (rows sel) \<in> set (rows sel)" by (rule hd_in_set)
    moreover from this have "aTestID (hd (rows sel)) = tid"
      unfolding rows_def by (rule rows_tid)
    ultimately show ?thesis using ins' d2 by force
  qed
  ultimately show ?thesis
    unfolding reserve_post_def
    using idle le enough len ws ins' d2
    by (intro exI [of _ sel]) (simp add: Let_def rows_def)
qed

lemma release_body_post:
  assumes "release_body tid w = (Inr (wrap, u), w')"
  shows "release_post tid (wdb w) (wdb w') u"
proof -
  let ?d = "wdb w"
  let ?ids = "map aWorkerID (filter (\<lambda>a. aTestID a = tid) (dAssignments ?d))"
  have mem: "wid \<in> set ?ids \<longleftrightarrow> (tid, wid) \<in> akey ` set (dAssignments ?d)" for wid
    by (auto simp: akey_def)
  show ?thesis
  proof (cases "?ids = []")
    case True
    then have none: "\<And>a. a \<in> set (dAssignments ?d) \<Longrightarrow> aTestID a \<noteq> tid"
      by (auto simp: filter_empty_conv)
    have idle: "update_where (\<lambda>v. (tid, wID v) \<in> akey ` set (dAssignments ?d) \<and> wStatus v = WorkerStatusReserved)
        f (dWorkers ?d) = dWorkers ?d" for f
      using mem True by (intro update_where_none) auto
    have same: "update_where (\<lambda>a. aTestID a = tid \<and> active_assignment a) g (dAssignments ?d) = dAssignments ?d" for g
      using none by (intro update_where_none) auto
    from assms True have "wdb w' = ?d"
      unfolding release_body_def sql_select_assigned_def by (elim run_elims) auto
    then show ?thesis by (simp add: release_post_def idle same)
  next
    case False
    with assms obtain d1 k k2 where
      "sql_release_workers ?ids ?d = Inr (d1, k)" "sql_release_assignments tid d1 = Inr (wdb w', k2)"
      unfolding release_body_def sql_select_assigned_def by (elim run_elims) auto
    then show ?thesis
      unfolding worker_sql_defs assignment_sql_defs mem
      by (simp add: release_post_def assignment_done_def [abs_def])
  qed
qed

lemma fail_offline_body_post:
  assumes "fail_offline_body w = (Inr (wrap, n), w')"
  shows "fail_offline_post (wdb w) (wdb w') n"
  using assms
  by (auto simp: fail_offline_body_def fail_offline_post_def Let_def assignment_sql_defs
      running_sql_defs assignment_done_def [abs_def] elim!: run_elims)

lemma terminate_body_post:
  assumes "terminate_body ids w = (Inr (wrap, removed), w')"
  shows "terminate_post ids (wdb w) (wdb w') removed"
  using assms
  by (auto simp: terminate_body_def terminate_post_def sql_select_removable_def worker_sql_defs
      update_where_none filter_empty_conv elim!: run_elims split: if_splits)

lemma mark_running_body_post:
  assumes "mark_running_body tid wid w = (Inr (wrap, u), w')"
  shows "mark_running_post tid wid (wdb w) (wdb w') u"
  using assms
  by (auto simp: mark_running_body_def mark_running_post_def Let_def assignment_sql_defs
      worker_sql_defs assignment_started_def [abs_def] count_where_zero
      elim!: run_elims split: if_splits)

lemma mark_failed_body_post:
  assumes "mark_failed_body tid wid w = (Inr (wrap, u), w')"
  shows "mark_failed_post tid wid (wdb w) (wdb w') u"
  using assms
  by (auto simp: mark_failed_body_def mark_failed_post_def Let_def assignment_sql_defs
      running_sql_defs assignment_done_def [abs_def] count_where_zero
      elim!: run_elims split: if_splits)

lemma mark_completed_body_post:
  assumes "mark_completed_body tid wid w = (Inr (wrap, u), w')"
  shows "mark_completed_post tid wid (wdb w) (wdb w') u"
proof -
  from assms obtain lid d1 d2 d3 d4 n1 n2 b where
    lock: "sql_lock_test tid (wdb w) = Inr (d1, lid)" and
    compl: "sql_assignment_completed tid wid d1 = Inr (d2, n1)" "n1 \<noteq> 0" and
    idle: "sql_worker_idle wid d2 = Inr (d3, n2)" and
    check: "sql_has_incomplete tid d3 = Inr (d4, b)" and
    finish: "if b then wdb w' = d4 else \<exists>n3. sql_complete_test tid d4 = Inr (wdb w', n3)"
    unfolding mark_completed_body_def by (elim run_elims) auto
  from lock have d1: "d1 = wdb w" by (simp add: sql_lock_test_def split: if_splits)
  from check have d4: "d4 = d3" and
    b: "b \<longleftrightarrow> (\<exists>a\<in>set (dAssignments d3). aTestID a = tid \<and> aStatus a \<noteq> AssignmentStatusCompleted)"
    by (auto simp: sql_has_incomplete_def)
  let ?P = "\<lambda>a. aTestID a = tid \<and> aWorkerID a = wid \<and> aStatus a = AssignmentStatusRunning"
  let ?as = "update_where ?P (assignment_done AssignmentStatusCompleted (dNow (wdb w)))
    (dAssignments (wdb w))"
  let ?ws = "update_where (\<lambda>v. wID v = wid \<and> wStatus v = WorkerStatusRunning)
    (worker_to WorkerStatusIdle (dNow (wdb w))) (dWorkers (wdb w))"
  from compl d1 have d2: "d2 = (wdb w)\<lparr>dAssignments := ?as\<rparr>"
    and hit: "\<exists>a\<in>set (dAssignments (wdb w)). ?P a"
    by (auto simp: assignment_sql_defs assignment_done_def [abs_def] count_where_zero)
  from idle d2 have d3: "d3 = (wdb w)\<lparr>dAssignments := ?as, dWorkers := ?ws\<rparr>"
    by (simp add: worker_sql_defs)
  let ?Q = "\<lambda>t. (\<forall>a\<in>set ?as. aTestID a = tid \<longrightarrow> aStatus a = AssignmentStatusCompleted) \<and>
    tID t = tid \<and> tStatus t = StatusRunning"
  have "wdb w' = d3\<lparr>dTests := update_where ?Q (test_to StatusCompleted (dNow (wdb w))) (dTests (wdb w))\<rparr>"
  proof (cases b)
    case True
    with b d3 have "\<And>t. \<not> ?Q t" by auto
    then have "update_where ?Q (test_to StatusCompleted (dNow (wdb w))) (dTests (wdb w)) = dTests (wdb w)"
      by (intro update_where_none) simp
    with True finish d4 d3 show ?thesis by simp
  next
    case False
    with b d3 have all: "\<forall>a\<in>set ?as. aTestID a = tid \<longrightarrow> aStatus a = AssignmentStatusCompleted" by auto
    from False finish d4 d3 show ?thesis
      by (auto simp: running_sql_defs all intro!: update_where_cong)
  qed
  with hit d3 show ?thesis by (simp add: mark_completed_post_def Let_def)
qed

lemma frame_bodies [frame_intros]:
  "frame (reserve_body tid n allocs)" "frame (release_body tid)" "frame fail_offline_body"
  "frame (terminate_body ids)" "frame (mark_running_body tid wid)"
  "frame (mark_completed_body tid wid)" "frame (mark_failed_body tid wid)"
  unfolding reserve_body_def release_body_def fail_offline_body_def terminate_body_def
    mark_running_body_def mark_completed_body_def mark_failed_body_def Let_def
  by (intro frame_intros)+

interpretation reserve_tx: transaction "''begin reservation transaction''"
    "reserve_body tid n allocs" "reserve_post tid n allocs" for tid n allocs
  by unfold_locales (auto intro: frame_intros reserve_body_post)

interpretation release_tx: transaction "''begin release transaction''"
    "release_body tid" "release_post tid" for tid
  by unfold_locales (auto intro: frame_intros release_body_post)

interpretation offline_tx: transaction "''begin offline assignment reconciliation transaction''"
    fail_offline_body fail_offline_post
  by unfold_locales (auto intro: frame_intros fail_offline_body_post)

interpretation terminate_tx: transaction "''begin worker termination transaction''"
    "terminate_body ids" "terminate_post ids" for ids
  by unfold_locales (auto intro: frame_intros terminate_body_post)

interpretation running_tx: transaction "''begin assignment running transaction''"
    "mark_running_body tid wid" "mark_running_post tid wid" for tid wid
  by unfold_locales (auto intro: frame_intros mark_running_body_post)

interpretation completed_tx: transaction "''begin assignment completion transaction''"
    "mark_completed_body tid wid" "mark_completed_post tid wid" for tid wid
  by unfold_locales (auto intro: frame_intros mark_completed_body_post)

interpretation failed_tx: transaction "''begin assignment failure transaction''"
    "mark_failed_body tid wid" "mark_failed_post tid wid" for tid wid
  by unfold_locales (auto intro: frame_intros mark_failed_body_post)

end
