(* ===== verification/Validation.thy ===== *)
theory Validation
  imports Prelude
begin

text \<open>
  The string functions the services use, on the UTF-8 bytes a Go string holds, and
  \<open>internal/validation/validation.go\<close>. \<open>strings.TrimSpace\<close> removes every white space rune of
  Unicode; \<open>strings.ToUpper\<close> is exact on ASCII and on the two runes outside ASCII whose upper case
  is an ASCII letter, other bytes are left as they are (its results are only compared with
  \<open>"GET"\<close> and \<open>"POST"\<close>).
\<close>

section \<open>strings.TrimSpace\<close>

definition bytes :: "nat list \<Rightarrow> string" where
  "bytes ns = map char_of ns"

text \<open>The encodings of the white space runes (\<open>unicode.IsSpace\<close>).\<close>

definition space_runes :: "string list" where
  "space_runes =
     map bytes
      [[9], [10], [11], [12], [13], [32], [194, 133], [194, 160], [225, 154, 128],
       [226, 128, 128], [226, 128, 129], [226, 128, 130], [226, 128, 131], [226, 128, 132],
       [226, 128, 133], [226, 128, 134], [226, 128, 135], [226, 128, 136], [226, 128, 137],
       [226, 128, 138], [226, 128, 168], [226, 128, 169], [226, 128, 175], [226, 129, 159],
       [227, 128, 128]]"

fun strip_prefix :: "string \<Rightarrow> string \<Rightarrow> string option" where
  "strip_prefix [] s = Some s"
| "strip_prefix (c # cs) [] = None"
| "strip_prefix (c # cs) (d # ds) = (if c = d then strip_prefix cs ds else None)"

primrec strip_one :: "string list \<Rightarrow> string \<Rightarrow> string option" where
  "strip_one [] s = None"
| "strip_one (p # ps) s = (case strip_prefix p s of Some t \<Rightarrow> Some t | None \<Rightarrow> strip_one ps s)"

lemma strip_prefix_Some: "strip_prefix p s = Some t \<longleftrightarrow> s = p @ t"
  by (induction p s rule: strip_prefix.induct) auto

lemma strip_one_Some: "strip_one ps s = Some t \<Longrightarrow> \<exists>p\<in>set ps. s = p @ t"
  by (induction ps) (auto simp: strip_prefix_Some split: option.splits)

lemma strip_one_None: "strip_one ps s = None \<longleftrightarrow> (\<forall>p\<in>set ps. \<forall>t. s \<noteq> p @ t)"
proof (induction ps)
  case Nil
  then show ?case by simp
next
  case (Cons p ps)
  have "strip_prefix p s = None \<longleftrightarrow> (\<forall>t. s \<noteq> p @ t)"
    by (metis not_None_eq strip_prefix_Some)
  with Cons show ?case by (auto split: option.splits simp: strip_prefix_Some)
qed

text \<open>Stripping from the front until nothing matches; every pattern is nonempty, so it ends.\<close>

function strip_all :: "string list \<Rightarrow> string \<Rightarrow> string" where
  "strip_all ps s = (case strip_one ps s of
      None \<Rightarrow> s
    | Some t \<Rightarrow> if length t < length s then strip_all ps t else s)"
  by pat_completeness auto
termination
  by (relation "measure (\<lambda>(ps, s). length s)") auto

declare strip_all.simps [simp del]

definition TrimLeftSpace :: "string \<Rightarrow> string" where
  "TrimLeftSpace s = strip_all space_runes s"

definition TrimRightSpace :: "string \<Rightarrow> string" where
  "TrimRightSpace s = rev (strip_all (map rev space_runes) (rev s))"

definition TrimSpace :: "string \<Rightarrow> string" where
  "TrimSpace s = TrimRightSpace (TrimLeftSpace s)"

lemma strip_all_stable:
  assumes "[] \<notin> set ps"
  shows "strip_one ps (strip_all ps s) = None"
  using assms
proof (induction ps s rule: strip_all.induct)
  case (1 ps s)
  show ?case
  proof (cases "strip_one ps s")
    case None
    then show ?thesis by (simp add: strip_all.simps [of ps s])
  next
    case (Some t)
    from strip_one_Some [OF Some] "1.prems" have "length t < length s" by auto
    with Some "1.IH" [OF Some] "1.prems" show ?thesis by (simp add: strip_all.simps [of ps s])
  qed
qed

lemma strip_all_id: "strip_one ps s = None \<Longrightarrow> strip_all ps s = s"
  by (simp add: strip_all.simps [of ps s])

lemma strip_all_suffix: "\<exists>p. s = p @ strip_all ps s"
proof (induction ps s rule: strip_all.induct)
  case (1 ps s)
  show ?case
  proof (cases "strip_one ps s")
    case None
    then show ?thesis by (simp add: strip_all.simps [of ps s])
  next
    case (Some t)
    from strip_one_Some [OF Some] obtain p where p: "s = p @ t" by blast
    show ?thesis
    proof (cases "length t < length s")
      case True
      with "1.IH" [OF Some] obtain q where "t = q @ strip_all ps t" by blast
      moreover from Some True have "strip_all ps s = strip_all ps t"
        by (simp add: strip_all.simps [of ps s])
      ultimately show ?thesis using p by (intro exI [of _ "p @ q"]) simp
    next
      case False
      with Some show ?thesis by (simp add: strip_all.simps [of ps s])
    qed
  qed
qed

text \<open>Shortening at the end cannot create a match at the front.\<close>

lemma strip_one_prefix: "strip_one ps (s @ x) = None \<Longrightarrow> strip_one ps s = None"
  by (auto simp: strip_one_None)

lemma space_runes_nonempty: "[] \<notin> set space_runes" "[] \<notin> set (map rev space_runes)"
  by (auto simp: space_runes_def bytes_def)

lemma TrimSpace_idem: "TrimSpace (TrimSpace s) = TrimSpace s"
proof -
  let ?l = "TrimLeftSpace s" and ?t = "TrimSpace s"
  have right: "strip_one (map rev space_runes) (rev ?t) = None"
    unfolding TrimSpace_def TrimRightSpace_def
    using strip_all_stable [OF space_runes_nonempty(2)] by simp
  obtain x where "rev ?l = x @ rev ?t"
    using strip_all_suffix [of "rev ?l" "map rev space_runes"]
    by (auto simp: TrimSpace_def TrimRightSpace_def)
  then have "?l = ?t @ rev x" by (metis rev_append rev_rev_ident)
  moreover have "strip_one space_runes ?l = None"
    unfolding TrimLeftSpace_def by (rule strip_all_stable [OF space_runes_nonempty(1)])
  ultimately have "strip_one space_runes ?t = None" by (metis strip_one_prefix)
  with right show ?thesis
    unfolding TrimSpace_def [of ?t] TrimLeftSpace_def TrimRightSpace_def
    by (simp add: strip_all_id)
qed

text \<open>A string that starts and ends with a visible ASCII character is left alone.\<close>

definition visible :: "char \<Rightarrow> bool" where
  "visible c \<longleftrightarrow> 32 < (of_char c :: nat) \<and> (of_char c :: nat) < 128"

lemma strip_one_first:
  assumes "\<forall>p\<in>set ps. p \<noteq> [] \<and> hd p \<noteq> c"
  shows "strip_one ps (c # cs) = None"
  unfolding strip_one_None using assms by (metis hd_append2 list.sel(1))

lemma visible_no_space:
  assumes "visible c"
  shows "\<forall>p\<in>set space_runes. p \<noteq> [] \<and> hd p \<noteq> c" "\<forall>p\<in>set (map rev space_runes). p \<noteq> [] \<and> hd p \<noteq> c"
  using assms by (auto simp: space_runes_def bytes_def visible_def)

lemma TrimSpace_visible:
  assumes "s \<noteq> []" "visible (hd s)" "visible (last s)"
  shows "TrimSpace s = s"
proof -
  from assms(1) have "s = hd s # tl s" by simp
  then have "strip_one space_runes s = None"
    using strip_one_first [OF visible_no_space(1) [OF assms(2)], of "tl s"] by metis
  then have left: "TrimLeftSpace s = s" by (simp add: TrimLeftSpace_def strip_all_id)
  from assms(1) have "rev s = last s # tl (rev s)" by (metis hd_rev list.collapse rev_is_Nil_conv)
  then have "strip_one (map rev space_runes) (rev s) = None"
    using strip_one_first [OF visible_no_space(2) [OF assms(3)], of "tl (rev s)"] by metis
  with left show ?thesis by (simp add: TrimSpace_def TrimRightSpace_def strip_all_id)
qed

section \<open>strings.ToUpper\<close>

definition upper_byte :: "char \<Rightarrow> char" where
  "upper_byte c = (let n = of_char c :: nat in if 97 \<le> n \<and> n \<le> 122 then char_of (n - 32) else c)"

text \<open>The long s (U+017F) and the dotless i (U+0131) have the upper cases S and I.\<close>

fun ToUpper :: "string \<Rightarrow> string" where
  "ToUpper [] = []"
| "ToUpper [c] = [upper_byte c]"
| "ToUpper (c # d # s) =
     (if [c, d] = bytes [197, 191] then CHR ''S'' # ToUpper s
      else if [c, d] = bytes [196, 177] then CHR ''I'' # ToUpper s
      else upper_byte c # ToUpper (d # s))"

declare ToUpper.simps [simp del]

section \<open>internal/validation\<close>

definition Required :: "string \<Rightarrow> string \<Rightarrow> go_error option" where
  "Required fieldName val =
     (if TrimSpace val = [] then Some (ValidationFieldError fieldName ''is required'') else None)"

definition Invalid :: "string \<Rightarrow> string \<Rightarrow> go_error" where
  "Invalid fieldName message = ValidationFieldError fieldName message"

definition MaxLength :: "string \<Rightarrow> string \<Rightarrow> int \<Rightarrow> go_error option" where
  "MaxLength fieldName val max_len =
     (if int (length val) > max_len
      then Some (ValidationFieldError fieldName (''cannot exceed '' @ itoa max_len @ '' characters''))
      else None)"

definition MinLength :: "string \<Rightarrow> string \<Rightarrow> int \<Rightarrow> go_error option" where
  "MinLength fieldName val min_len =
     (if int (length val) < min_len
      then Some (ValidationFieldError fieldName (''must be at least '' @ itoa min_len @ '' characters''))
      else None)"

lemma Required_trimmed: "Required f (TrimSpace s) = None \<longleftrightarrow> TrimSpace s \<noteq> []"
  by (simp add: Required_def TrimSpace_idem)

end
