(* ===== verification/WorkerService.thy ===== *)
theory WorkerService
  imports Transactions Validation
begin

text \<open>
  \<open>internal/service/worker_service.go\<close>, \<open>assignment.go\<close> and \<open>assignment_transition.go\<close>, and the
  background health reconciler \<open>internal/reconciler/worker_reconciler.go\<close>. The generated
  identifier and the process clock are arguments.
\<close>

section \<open>Registration and heartbeats\<close>

record RegisterWorkerRequest =
  rqHostname :: string
  rqVersion :: string
  rqCPUCount :: int
  rqMemoryMB :: int

definition WorkerService_RegisterWorker ::
    "string \<Rightarrow> time \<Rightarrow> RegisterWorkerRequest \<Rightarrow> ('p, Worker) io" where
  "WorkerService_RegisterWorker newID now req =
     (let hostname = TrimSpace (rqHostname req); version = TrimSpace (rqVersion req) in
      case Required ''hostname'' hostname of Some err \<Rightarrow> failM err | None \<Rightarrow>
      (case Required ''version'' version of Some err \<Rightarrow> failM err | None \<Rightarrow>
       if rqCPUCount req \<le> 0 then failM (Invalid ''cpu_count'' ''must be greater than 0'')
       else if rqMemoryMB req \<le> 0 then failM (Invalid ''memory_mb'' ''must be greater than 0'')
       else let worker = \<lparr>wID = newID, wHostname = hostname, wVersion = version,
                  wStatus = WorkerStatusIdle, wCPUCount = rqCPUCount req,
                  wMemoryMB = rqMemoryMB req, wRegisteredAt = now, wLastHeartbeat = now,
                  wUpdatedAt = now\<rparr>
            in tryM (WorkerRepo_CreateWorker worker) (\<lambda>_. retM worker)))"

definition WorkerService_GetWorkers :: "('p, Worker list) io" where
  "WorkerService_GetWorkers = WorkerRepo_GetWorkers"

definition WorkerService_GetWorkerByID :: "string \<Rightarrow> ('p, Worker) io" where
  "WorkerService_GetWorkerByID wid = WorkerRepo_GetWorkerByID wid"

text \<open>A heartbeat carries any string; four of the five statuses are accepted.\<close>

definition accepted_heartbeats :: "WorkerStatus list" where
  "accepted_heartbeats =
     [WorkerStatusIdle, WorkerStatusReserved, WorkerStatusRunning, WorkerStatusDraining]"

definition WorkerService_Heartbeat :: "time \<Rightarrow> string \<Rightarrow> string \<Rightarrow> ('p, unit) io" where
  "WorkerService_Heartbeat now wid reqStatus =
     (case List.find (\<lambda>s. worker_status_string s = reqStatus) accepted_heartbeats of
        None \<Rightarrow> failM (Invalid ''status'' ''invalid worker status'')
      | Some status \<Rightarrow> WorkerRepo_UpdateHeartbeat wid status now)"

section \<open>Assignments\<close>

definition WorkerService_GetReservedAssignment :: "string \<Rightarrow> ('p, AssignmentDetails option) io" where
  "WorkerService_GetReservedAssignment wid =
     wrapM ''get worker assignment'' (WorkerRepo_GetReservedAssignment wid)"

definition WorkerService_StartAssignment :: "string \<Rightarrow> string \<Rightarrow> ('p, unit) io" where
  "WorkerService_StartAssignment testID workerID =
     wrapM ''start assignment'' (WorkerRepo_MarkAssignmentRunning testID workerID)"

definition WorkerService_CompleteAssignment :: "string \<Rightarrow> string \<Rightarrow> ('p, unit) io" where
  "WorkerService_CompleteAssignment testID workerID =
     wrapM ''complete assignment'' (WorkerRepo_MarkAssignmentCompleted testID workerID)"

definition WorkerService_FailAssignment :: "string \<Rightarrow> string \<Rightarrow> ('p, unit) io" where
  "WorkerService_FailAssignment testID workerID =
     wrapM ''fail assignment'' (WorkerRepo_MarkAssignmentFailed testID workerID)"

section \<open>The health reconciler\<close>

text \<open>120 seconds in nanoseconds.\<close>

definition heartbeat_timeout :: time where
  "heartbeat_timeout = 120000000000"

text \<open>One sweep; both errors are logged and end it.\<close>

definition WorkerReconciler_reconcile :: "time \<Rightarrow> ('p, unit) io" where
  "WorkerReconciler_reconcile now =
     catchM
       (tryM (WorkerRepo_MarkOfflineWorkers (now - heartbeat_timeout))
         (\<lambda>affectedWorkers. tryM WorkerRepo_MarkAssignmentsFailedForOfflineWorkers
           (\<lambda>affectedAssignments. retM ())))
       (\<lambda>err. retM ())"

text \<open>The loop: one sweep per tick, with the clock of each, until the context ends.\<close>

primrec WorkerReconciler_Start :: "time list \<Rightarrow> ('p, unit) io" where
  "WorkerReconciler_Start [] = retM ()"
| "WorkerReconciler_Start (now # ticks) =
     tryM (WorkerReconciler_reconcile now) (\<lambda>_. WorkerReconciler_Start ticks)"

end
