(* ===== verification/Provisioner.thy ===== *)
theory Provisioner
  imports Database "HOL-Library.Sublist"
begin

text \<open>
  \<open>internal/provisioner/provisioner.go\<close>: the interface \<open>Provisioner\<close> as a record of two operations,
  and \<open>ProcessProvisioner\<close>, which starts and kills worker processes. The operating system answers
  from a script: one \<open>os_event\<close> per loop iteration says which processes were reaped meanwhile (the
  goroutines that wait for them delete their map entries), what the clock and the context say and how
  Start or Kill ends. \<open>ppStarted\<close> and \<open>ppKilled\<close> log the effects outside the process.
\<close>

section \<open>Paths\<close>

text \<open>\<open>filepath.IsAbs\<close>, \<open>filepath.Clean\<close> and \<open>filepath.Join\<close> for two elements, on Unix.\<close>

fun split_on :: "char \<Rightarrow> string \<Rightarrow> string list" where
  "split_on c [] = [[]]"
| "split_on c (x # xs) =
     (if x = c then [] # split_on c xs
      else case split_on c xs of [] \<Rightarrow> [[x]] | y # ys \<Rightarrow> (x # y) # ys)"

fun join_with :: "string \<Rightarrow> string list \<Rightarrow> string" where
  "join_with s [] = []"
| "join_with s [x] = x"
| "join_with s (x # y # ys) = x @ s @ join_with s (y # ys)"

definition path_is_abs :: "string \<Rightarrow> bool" where
  "path_is_abs p \<longleftrightarrow> prefix ''/'' p"

definition clean_step :: "bool \<Rightarrow> string list \<Rightarrow> string \<Rightarrow> string list" where
  "clean_step rooted out elem =
     (if elem = [] \<or> elem = ''.'' then out
      else if elem = ''..'' then
        (if out \<noteq> [] \<and> last out \<noteq> ''..'' then butlast out else if rooted then out else out @ [elem])
      else out @ [elem])"

definition path_clean :: "string \<Rightarrow> string" where
  "path_clean p =
     (let rooted = path_is_abs p;
          body = join_with ''/'' (foldl (clean_step rooted) [] (split_on (CHR ''/'') p))
      in if rooted then ''/'' @ body else if body = [] then ''.'' else body)"

definition path_join :: "string \<Rightarrow> string \<Rightarrow> string" where
  "path_join a b =
     (if a = [] \<and> b = [] then []
      else path_clean (join_with ''/'' (filter (\<lambda>s. s \<noteq> []) [a, b])))"

section \<open>The interface\<close>

record 'p provisioner =
  Provision :: "int \<Rightarrow> ('p, unit) io"
  Terminate :: "string list \<Rightarrow> ('p, unit) io"

section \<open>Processes\<close>

record Cmd =
  cmdPath :: string
  cmdDir :: string
  cmdEnv :: "string list"

record os_event =
  os_reaped :: "string list"
  os_ctx :: "go_error option"
  os_nano :: int
  os_start :: "go_error + nat"
  os_kill :: "go_error option"

record ProcessProvisioner =
  ppBinaryPath :: string
  ppWorkingDir :: string
  ppNatsURL :: string
  ppControlPlaneURL :: string
  ppEnviron :: "string list"
  ppProcesses :: "string \<Rightarrow> nat option"
  ppStarted :: "(string \<times> Cmd) list"
  ppKilled :: "string list"
  ppScript :: "os_event list"

definition quiet_os :: os_event where
  "quiet_os = \<lparr>os_reaped = [], os_ctx = None, os_nano = 0, os_start = Inr 0, os_kill = None\<rparr>"

text \<open>The goroutine of a started command: its Wait returned, the entry goes.\<close>

definition reap :: "string list \<Rightarrow> ProcessProvisioner \<Rightarrow> ProcessProvisioner" where
  "reap hosts p = p\<lparr>ppProcesses := foldl (\<lambda>m h. m(h := None)) (ppProcesses p) hosts\<rparr>"

definition next_os :: "ProcessProvisioner \<Rightarrow> os_event \<times> ProcessProvisioner" where
  "next_os p = (case ppScript p of
      [] \<Rightarrow> (quiet_os, p)
    | e # es \<Rightarrow> (e, reap (os_reaped e) (p\<lparr>ppScript := es\<rparr>)))"

definition auto_prefix :: string where
  "auto_prefix = ''vulcan-auto-worker-''"

definition auto_hostname :: "int \<Rightarrow> int \<Rightarrow> string" where
  "auto_hostname nano i = auto_prefix @ itoa nano @ ''-'' @ itoa i"

definition worker_cmd :: "ProcessProvisioner \<Rightarrow> string \<Rightarrow> string \<Rightarrow> Cmd" where
  "worker_cmd p binary hostname =
     \<lparr>cmdPath = binary, cmdDir = ppWorkingDir p,
      cmdEnv = ppEnviron p @ [''WORKER_HOSTNAME='' @ hostname, ''NATS_URL='' @ ppNatsURL p,
                 ''CONTROL_PLANE_URL='' @ ppControlPlaneURL p]\<rparr>"

primrec provision_loop ::
    "string \<Rightarrow> int list \<Rightarrow> ProcessProvisioner \<Rightarrow> (go_error + unit) \<times> ProcessProvisioner" where
  "provision_loop binary [] p = (Inr (), p)"
| "provision_loop binary (i # rest) p =
     (let (e, p1) = next_os p in
      case os_ctx e of
        Some err \<Rightarrow> (Inl err, p1)
      | None \<Rightarrow>
         (let hostname = auto_hostname (os_nano e) i in
          case os_start e of
            Inl err \<Rightarrow> (Inl (Wrapf (''start worker '' @ itoa (i + 1)) err), p1)
          | Inr pid \<Rightarrow>
              provision_loop binary rest
                (p1\<lparr>ppProcesses := (ppProcesses p1)(hostname \<mapsto> pid),
                    ppStarted := ppStarted p1 @ [(hostname, worker_cmd p1 binary hostname)]\<rparr>)))"

definition ProcessProvisioner_Provision ::
    "int \<Rightarrow> ProcessProvisioner \<Rightarrow> (go_error + unit) \<times> ProcessProvisioner" where
  "ProcessProvisioner_Provision count p =
     (if count \<le> 0 then (Inr (), p)
      else if ppBinaryPath p = [] then (Inl (Errorf ''worker binary path is required''), p)
      else let binary = (if path_is_abs (ppBinaryPath p) then ppBinaryPath p
                         else path_join (ppWorkingDir p) (ppBinaryPath p))
           in provision_loop binary [0..count - 1] p)"

primrec ProcessProvisioner_Terminate ::
    "string list \<Rightarrow> ProcessProvisioner \<Rightarrow> (go_error + unit) \<times> ProcessProvisioner" where
  "ProcessProvisioner_Terminate [] p = (Inr (), p)"
| "ProcessProvisioner_Terminate (hostname # rest) p =
     (let (e, p1) = next_os p in
      case os_ctx e of
        Some err \<Rightarrow> (Inl err, p1)
      | None \<Rightarrow>
         (case ppProcesses p1 hostname of
            None \<Rightarrow> ProcessProvisioner_Terminate rest p1
          | Some pid \<Rightarrow>
             (case os_kill e of
                Some err \<Rightarrow> (Inl (Wrapf (''terminate worker '' @ hostname) err), p1)
              | None \<Rightarrow>
                  ProcessProvisioner_Terminate rest (p1\<lparr>ppKilled := ppKilled p1 @ [hostname]\<rparr>))))"

text \<open>The provisioner behind its interface, in the control plane's world.\<close>

definition lift_prov :: "('p \<Rightarrow> (go_error + 'a) \<times> 'p) \<Rightarrow> ('p, 'a) io" where
  "lift_prov f w = (case f (wprov w) of (r, p) \<Rightarrow> (r, w\<lparr>wprov := p\<rparr>))"

definition process_provisioner :: "ProcessProvisioner provisioner" where
  "process_provisioner =
     \<lparr>Provision = \<lambda>count. lift_prov (ProcessProvisioner_Provision count),
      Terminate = \<lambda>hostnames. lift_prov (ProcessProvisioner_Terminate hostnames)\<rparr>"

section \<open>Names\<close>

lemma auto_hostname_inj:
  assumes "0 \<le> i" "0 \<le> j" "auto_hostname m i = auto_hostname n j"
  shows "i = j"
proof -
  have cut: "takeWhile (\<lambda>c. c \<noteq> CHR ''-'') (rev (auto_hostname n j)) = rev (itoa j)"
    if "0 \<le> j" for n j
  proof -
    have "rev (auto_hostname n j) = rev (itoa j) @ CHR ''-'' # rev (auto_prefix @ itoa n)"
      by (simp add: auto_hostname_def)
    moreover have "takeWhile (\<lambda>c. c \<noteq> CHR ''-'') (rev (itoa j) @ CHR ''-'' # ys) = rev (itoa j) @ []" for ys
      using itoa_no_dash [OF that] by (subst takeWhile_append2) auto
    ultimately show ?thesis by simp
  qed
  have "rev (itoa i) = rev (itoa j)"
    using cut [OF assms(1), of m] cut [OF assms(2), of n] assms(3) by simp
  with assms show ?thesis by (simp add: itoa_nonneg_inj)
qed

lemma auto_hostname_prefix: "prefix auto_prefix (auto_hostname n i)"
  by (simp add: auto_hostname_def)

section \<open>What the loops do\<close>

lemma foldl_delete: "foldl (\<lambda>m h. m(h := None)) m hs h = (if h \<in> set hs then None else m h)"
  by (induction hs arbitrary: m) auto

lemma next_os_frame:
  assumes "next_os p = (e, p1)"
  shows "ppStarted p1 = ppStarted p" "ppKilled p1 = ppKilled p"
    "ppProcesses p1 h = None \<or> ppProcesses p1 h = ppProcesses p h"
proof -
  from assms show "ppProcesses p1 h = None \<or> ppProcesses p1 h = ppProcesses p h"
    by (auto simp: next_os_def reap_def foldl_delete split: list.splits)
  from assms show "ppStarted p1 = ppStarted p" "ppKilled p1 = ppKilled p"
    by (auto simp: next_os_def reap_def split: list.splits)
qed

lemma provision_loop_started:
  assumes "provision_loop binary is p = (r, p')" "distinct is" "\<forall>i\<in>set is. 0 \<le> i"
  shows "\<exists>started js. ppStarted p' = ppStarted p @ started \<and> prefix js is \<and>
    length started = length js \<and> (r = Inr () \<longrightarrow> js = is) \<and>
    list_all2 (\<lambda>(h, c) i. \<exists>n. h = auto_hostname n i) started js \<and> ppKilled p' = ppKilled p"
  using assms
proof (induction "is" arbitrary: p)
  case Nil
  then show ?case by (intro exI [of _ "[]"]) simp
next
  case (Cons i rest)
  obtain e p1 where e: "next_os p = (e, p1)" by fastforce
  note fr = next_os_frame(1,2) [OF e]
  show ?case
  proof (cases "os_ctx e = None \<and> (\<exists>pid. os_start e = Inr pid)")
    case False
    with Cons.prems(1) e have "ppStarted p' = ppStarted p1 \<and> ppKilled p' = ppKilled p1 \<and> r \<noteq> Inr ()"
      by (auto simp: Let_def split: option.splits sum.splits)
    with fr show ?thesis by (intro exI [of _ "[]"] exI [of _ "[]"]) auto
  next
    case True
    then obtain pid where pid: "os_ctx e = None" "os_start e = Inr pid" by auto
    let ?h = "auto_hostname (os_nano e) i"
    let ?p = "p1\<lparr>ppProcesses := (ppProcesses p1)(?h \<mapsto> pid),
                ppStarted := ppStarted p1 @ [(?h, worker_cmd p1 binary ?h)]\<rparr>"
    from Cons.prems(1) e pid have "provision_loop binary rest ?p = (r, p')" by (simp add: Let_def)
    from Cons.IH [OF this] Cons.prems obtain started js where
      "ppStarted p' = ppStarted ?p @ started" "prefix js rest" "length started = length js"
      "r = Inr () \<longrightarrow> js = rest" "list_all2 (\<lambda>(h, c) i. \<exists>n. h = auto_hostname n i) started js"
      "ppKilled p' = ppKilled ?p"
      by auto
    with fr show ?thesis
      by (intro exI [of _ "(?h, worker_cmd p1 binary ?h) # started"] exI [of _ "i # js"]) auto
  qed
qed

lemma Terminate_killed:
  assumes "ProcessProvisioner_Terminate hosts p = (r, p')"
  shows "\<exists>killed. ppKilled p' = ppKilled p @ killed \<and> set killed \<subseteq> set hosts \<and>
    ppStarted p' = ppStarted p"
  using assms
proof (induction hosts arbitrary: p)
  case Nil
  then show ?case by auto
next
  case (Cons h hosts)
  obtain e p1 where e: "next_os p = (e, p1)" by fastforce
  note fr = next_os_frame(1,2) [OF e]
  show ?case
  proof (cases "os_ctx e = None \<and> (ppProcesses p1 h = None \<or> os_kill e = None)")
    case False
    with Cons.prems e have "ppKilled p' = ppKilled p1 \<and> ppStarted p' = ppStarted p1"
      by (auto split: option.splits)
    with fr show ?thesis by auto
  next
    case True
    then obtain q where "ProcessProvisioner_Terminate hosts q = (r, p')"
      "ppKilled q = ppKilled p1 \<or> ppKilled q = ppKilled p1 @ [h]" "ppStarted q = ppStarted p1"
      using Cons.prems e by (auto split: option.splits)
    with Cons.IH [of q] fr show ?thesis by auto
  qed
qed

end
