(* ===== verification/Autoscaler.thy ===== *)
theory Autoscaler
  imports Transactions Provisioner
begin

text \<open>
  \<open>internal/autoscaler/reconciler.go\<close>: one reconciliation cycle and the periodic loop. The
  provisioner is the interface record; the mutex that serialises cycles is the atomicity of
  \<open>Reconciler_Reconcile\<close> with respect to itself, while other clients' database changes still
  come in between its round trips.
\<close>

section \<open>Definitions\<close>

record 'p Reconciler =
  rProvisioner :: "'p provisioner"
  rWorkerCapacity :: int

definition isAutoscalerManagedWorker :: "string \<Rightarrow> bool" where
  "isAutoscalerManagedWorker hostname \<longleftrightarrow> prefix ''vulcan-auto-worker-'' hostname"

text \<open>The counting loop of \<open>Reconcile\<close>: usable workers, and the idle ones in their order.\<close>

fun count_fleet :: "Worker list \<Rightarrow> int \<Rightarrow> Worker list \<Rightarrow> int \<times> Worker list" where
  "count_fleet [] actual idle = (actual, idle)"
| "count_fleet (worker # rest) actual idle =
     (case wStatus worker of
        WorkerStatusIdle \<Rightarrow> count_fleet rest (actual + 1) (idle @ [worker])
      | WorkerStatusReserved \<Rightarrow> count_fleet rest (actual + 1) idle
      | WorkerStatusRunning \<Rightarrow> count_fleet rest (actual + 1) idle
      | WorkerStatusDraining \<Rightarrow> count_fleet rest actual idle
      | WorkerStatusOffline \<Rightarrow> count_fleet rest actual idle)"

definition Reconciler_scaleUp :: "'p Reconciler \<Rightarrow> int \<Rightarrow> ('p, unit) io" where
  "Reconciler_scaleUp r count =
     (if count \<le> 0 then retM ()
      else wrapM (''provision '' @ itoa count @ '' workers'') (Provision (rProvisioner r) count))"

text \<open>\<open>hostnameByID\<close>: the map filled in the order of the candidates; a later entry wins.\<close>

definition hostname_by_id :: "Worker list \<Rightarrow> string \<Rightarrow> string option" where
  "hostname_by_id candidates = foldl (\<lambda>m worker. m(wID worker \<mapsto> wHostname worker)) (\<lambda>_. None) candidates"

definition lookup_hostnames :: "(string \<Rightarrow> string option) \<Rightarrow> string list \<Rightarrow> string list" where
  "lookup_hostnames m ids = List.map_filter m ids"

definition scale_down_candidates :: "int \<Rightarrow> Worker list \<Rightarrow> Worker list" where
  "scale_down_candidates excess idle =
     (let eligible = filter (\<lambda>worker. isAutoscalerManagedWorker (wHostname worker)) idle
      in if int (length eligible) > excess then take (nat excess) eligible else eligible)"

definition Reconciler_scaleDown :: "'p Reconciler \<Rightarrow> int \<Rightarrow> Worker list \<Rightarrow> ('p, unit) io" where
  "Reconciler_scaleDown r excess idle =
     (if excess \<le> 0 then retM ()
      else if filter (\<lambda>worker. isAutoscalerManagedWorker (wHostname worker)) idle = [] then retM ()
      else let candidates = scale_down_candidates excess idle;
               workerIDs = map wID candidates;
               hostnameByID = hostname_by_id candidates
           in tryM (wrapM ''mark workers for termination'' (WorkerRepo_TerminateIdleWorkers workerIDs))
              (\<lambda>draining.
                 if draining = [] then retM ()
                 else let hostnames = lookup_hostnames hostnameByID draining
                      in if hostnames = [] then retM ()
                         else wrapM ''terminate workers'' (Terminate (rProvisioner r) hostnames)))"

definition liftE :: "string \<Rightarrow> go_error + 'a \<Rightarrow> ('p, 'a) io" where
  "liftE msg x = (case x of Inl err \<Rightarrow> failM (Wrapf msg err) | Inr y \<Rightarrow> retM y)"

definition Reconciler_Reconcile :: "'p Reconciler \<Rightarrow> ('p, unit) io" where
  "Reconciler_Reconcile r =
     tryM (wrapM ''get tests'' TestRepo_GetTests)
     (\<lambda>tests. tryM (liftE ''calculate desired capacity'' (DesiredCapacity tests (rWorkerCapacity r)))
     (\<lambda>desired. tryM (liftE ''calculate pending capacity'' (PendingCapacity tests (rWorkerCapacity r)))
     (\<lambda>pending. tryM (wrapM ''get workers'' WorkerRepo_GetWorkers)
     (\<lambda>workers. let (actual, idle) = count_fleet workers 0 [];
                    target = (if pending > desired then pending else desired)
                in if actual < target then Reconciler_scaleUp r (target - actual)
                   else if actual > target then Reconciler_scaleDown r (actual - target) idle
                   else retM ()))))"

definition Reconciler_runOnce :: "'p Reconciler \<Rightarrow> ('p, unit) io" where
  "Reconciler_runOnce r = catchM (Reconciler_Reconcile r) (\<lambda>err. retM ())"

text \<open>The loop until the context ends: \<open>ticks\<close> is how many ticks the select takes before Done.\<close>

primrec run_ticks :: "'p Reconciler \<Rightarrow> nat \<Rightarrow> go_error \<Rightarrow> ('p, unit) io" where
  "run_ticks r 0 ctxErr = failM ctxErr"
| "run_ticks r (Suc ticks) ctxErr = tryM (Reconciler_runOnce r) (\<lambda>_. run_ticks r ticks ctxErr)"

definition Reconciler_Run :: "'p Reconciler \<Rightarrow> int \<Rightarrow> go_error option \<Rightarrow> nat \<Rightarrow> go_error \<Rightarrow> ('p, unit) io" where
  "Reconciler_Run r interval ctxErrNow ticks ctxErr =
     (if interval \<le> 0 then failM (Errorf ''reconciliation interval must be greater than zero'')
      else case ctxErrNow of
             Some err \<Rightarrow> failM err
           | None \<Rightarrow> tryM (Reconciler_runOnce r) (\<lambda>_. run_ticks r ticks ctxErr))"

section \<open>Counting\<close>

definition usable :: "Worker \<Rightarrow> bool" where
  "usable w \<longleftrightarrow> wStatus w \<in> {WorkerStatusIdle, WorkerStatusReserved, WorkerStatusRunning}"

lemma count_fleet_eq:
  "count_fleet ws n idle =
   (n + count_where usable ws, idle @ filter (\<lambda>w. wStatus w = WorkerStatusIdle) ws)"
  by (induction ws arbitrary: n idle)
     (auto simp: count_where_def usable_def split: WorkerStatus.splits)

lemma count_where_sort_key [simp]: "count_where P (sort_key k xs) = count_where P xs"
proof -
  have "length (filter P (sort_key k xs)) = length (filter P xs)"
    by (metis filter_sort length_sort)
  then show ?thesis by (simp add: count_where_def)
qed

lemma hostname_by_id_eq:
  "hostname_by_id ws i =
   (if i \<in> wID ` set ws then Some (wHostname (last (filter (\<lambda>w. wID w = i) ws))) else None)"
proof (induction ws rule: rev_induct)
  case Nil
  then show ?case by (simp add: hostname_by_id_def)
next
  case (snoc w ws)
  then show ?case by (auto simp: hostname_by_id_def)
qed

lemma hostname_by_id_Some:
  assumes "hostname_by_id ws i = Some h"
  shows "\<exists>w\<in>set ws. wID w = i \<and> wHostname w = h"
proof -
  let ?ws = "filter (\<lambda>w. wID w = i) ws"
  from assms have "?ws \<noteq> []" and h: "h = wHostname (last ?ws)"
    by (auto simp: hostname_by_id_eq filter_empty_conv split: if_splits)
  from last_in_set [OF this(1)] h show ?thesis by auto
qed

lemma set_lookup_hostnames: "set (lookup_hostnames m ids) = {h. \<exists>i\<in>set ids. m i = Some h}"
  by (induction ids) (auto simp: lookup_hostnames_def List.map_filter_def split: option.splits)

lemma length_lookup_hostnames: "length (lookup_hostnames m ids) \<le> length ids"
  by (simp add: lookup_hostnames_def List.map_filter_def)

lemma scale_down_candidates_subset:
  "set (scale_down_candidates excess idle) \<subseteq>
   {w \<in> set idle. isAutoscalerManagedWorker (wHostname w)}"
  by (auto simp: scale_down_candidates_def Let_def dest: in_set_takeD)

lemma length_scale_down_candidates:
  "0 \<le> excess \<Longrightarrow> int (length (scale_down_candidates excess idle)) \<le> excess"
  by (simp add: scale_down_candidates_def Let_def)

end
