(* ===== verification/TestService.thy ===== *)
theory TestService
  imports WorkerService Autoscaler
begin

text \<open>
  \<open>internal/service/test_service.go\<close> and \<open>internal/scheduler/scheduler.go\<close>: creating, starting and
  stopping a test. The service's two optional collaborators are options of its record. The wait for
  workers is a loop whose select decides how many ticks pass before the deadline: \<open>patTicks\<close>, at most
  60 with the code's 30 seconds and 500 milliseconds, and the error the wait ends with.
\<close>

section \<open>The scheduler\<close>

definition DefaultScheduler_AllocateWorkers ::
    "string \<Rightarrow> int \<Rightarrow> int list \<Rightarrow> ('p, Worker list) io" where
  "DefaultScheduler_AllocateWorkers testID workerCount rpsAllocations =
     wrapM ''allocate workers'' (WorkerRepo_ReserveWorkersForTest testID workerCount rpsAllocations)"

section \<open>The service\<close>

record CreateTestRequest =
  crName :: string
  crWorkerCount :: int
  crTargetURL :: string
  crMethod :: string
  crDurationSec :: int
  crRPS :: int
  crConcurrency :: int

record 'p TestService =
  tsWorkerCapacityRPS :: int
  tsReconciler :: "('p, unit) io option"
  tsProvisioner :: "'p provisioner option"

record patience =
  patTicks :: nat
  patErr :: go_error

definition TestService_CreateTest ::
    "'p TestService \<Rightarrow> string \<Rightarrow> time \<Rightarrow> CreateTestRequest \<Rightarrow> ('p, Test) io" where
  "TestService_CreateTest s newID now req =
     (let name = TrimSpace (crName req) in
      case Required ''name'' name of Some err \<Rightarrow> failM err | None \<Rightarrow>
      (let targetURL = TrimSpace (crTargetURL req) in
       case Required ''target_url'' targetURL of Some err \<Rightarrow> failM err | None \<Rightarrow>
       (let method = ToUpper (TrimSpace (crMethod req)) in
        if \<not> (method = ''GET'' \<or> method = ''POST'') then failM ErrValidation
        else if crDurationSec req \<le> 0 then failM ErrValidation
        else if crRPS req \<le> 0 then failM ErrValidation
        else if crConcurrency req \<le> 0 then failM ErrValidation
        else let test = \<lparr>tID = newID, tName = name, tStatus = StatusCreated, tWorkerCount = 0,
                   tTargetURL = TrimSpace targetURL, tMethod = ToUpper (TrimSpace method),
                   tDurationSec = crDurationSec req, tRPS = crRPS req,
                   tConcurrency = crConcurrency req, tCreatedAt = now, tUpdatedAt = now\<rparr>
             in case RequiredWorkers (tRPS test) (tsWorkerCapacityRPS s) of
                  Inl err \<Rightarrow> failM err
                | Inr requiredWorkers \<Rightarrow>
                    (let test' = test\<lparr>tWorkerCount := requiredWorkers\<rparr>
                     in tryM (TestRepo_CreateTest test') (\<lambda>_. retM test')))))"

definition TestService_GetTests :: "('p, Test list) io" where
  "TestService_GetTests = TestRepo_GetTests"

definition TestService_GetTestByID :: "string \<Rightarrow> ('p, Test) io" where
  "TestService_GetTestByID tid = TestRepo_GetTestByID tid"

definition TestService_StopTest :: "string \<Rightarrow> ('p, unit) io" where
  "TestService_StopTest tid =
     tryM (TestRepo_GetTestByID tid)
     (\<lambda>test.
        if tStatus test = StatusStopped \<or> tStatus test = StatusCompleted \<or> tStatus test = StatusFailed
        then retM ()
        else tryM (TestRepo_TryTransitionStatus tid (tStatus test) StatusStopping)
        (\<lambda>_. tryM (WorkerRepo_ReleaseWorkersForTest tid)
        (\<lambda>_. tryM (TestRepo_UpdateStatus tid StatusStopped) (\<lambda>_. retM ()))))"

definition count_idle :: "Worker list \<Rightarrow> int" where
  "count_idle workers = count_where (\<lambda>worker. wStatus worker = WorkerStatusIdle) workers"

primrec wait_for_idle :: "nat \<Rightarrow> go_error \<Rightarrow> int \<Rightarrow> ('p, unit) io" where
  "wait_for_idle 0 waitErr required =
     tryM WorkerRepo_GetWorkers
     (\<lambda>workers. if count_idle workers \<ge> required then retM () else failM waitErr)"
| "wait_for_idle (Suc ticks) waitErr required =
     tryM WorkerRepo_GetWorkers
     (\<lambda>workers. if count_idle workers \<ge> required then retM ()
                else wait_for_idle ticks waitErr required)"

definition TestService_ensureWorkersAvailable ::
    "'p TestService \<Rightarrow> patience \<Rightarrow> int \<Rightarrow> ('p, unit) io" where
  "TestService_ensureWorkersAvailable s pat required =
     tryM WorkerRepo_GetWorkers
     (\<lambda>workers.
        let missing = required - count_idle workers in
        if missing \<le> 0 then retM ()
        else tryM
          (case tsReconciler s of
             Some reconcile \<Rightarrow> reconcile
           | None \<Rightarrow> (case tsProvisioner s of
                 Some p \<Rightarrow> Provision p missing
               | None \<Rightarrow> failM ErrInsufficientWorkers))
          (\<lambda>_. wait_for_idle (patTicks pat) (patErr pat) required))"

text \<open>\<open>_, _ = s.testRepo.TryTransitionStatus(ctx, testID, STARTING, CREATED); return nil, err\<close>\<close>

definition roll_back :: "string \<Rightarrow> go_error \<Rightarrow> ('p, 'a) io" where
  "roll_back testID err w =
     (case TestRepo_TryTransitionStatus testID StatusStarting StatusCreated w of
        (_, w') \<Rightarrow> (Inl err, w'))"

definition TestService_StartTest ::
    "'p TestService \<Rightarrow> patience \<Rightarrow> string \<Rightarrow> ('p, Worker list) io" where
  "TestService_StartTest s pat testID =
     tryM (TestRepo_GetTestByID testID)
     (\<lambda>test. tryM (TestRepo_TryTransitionStatus testID StatusCreated StatusStarting)
     (\<lambda>ok. if \<not> ok then failM ErrInvalidTestState
        else tryM
          (catchM
            (tryM (case RequiredWorkers (tRPS test) (tsWorkerCapacityRPS s) of
                     Inl err \<Rightarrow> failM err | Inr n \<Rightarrow> retM n)
             (\<lambda>requiredWorkers. tryM (TestRepo_UpdateWorkerCount testID requiredWorkers)
             (\<lambda>_. tryM (TestService_ensureWorkersAvailable s pat requiredWorkers)
             (\<lambda>_. tryM (case DistributeRPS (tRPS test) requiredWorkers of
                          Inl err \<Rightarrow> failM err | Inr allocs \<Rightarrow> retM allocs)
             (\<lambda>rpsAllocations.
                DefaultScheduler_AllocateWorkers (tID test) requiredWorkers rpsAllocations)))))
            (roll_back testID))
          (\<lambda>workers. tryM (TestRepo_UpdateStatus (tID test) StatusRunning) (\<lambda>_. retM workers))))"

end
