(* ===== verification/Lifecycle.thy ===== *)
theory Lifecycle
  imports TestService
begin

text \<open>
  What no operation of the control plane ever does to the tables, whatever other clients commit in
  between and whichever round trip fails. The locale \<open>repository_relation\<close> lists what a relation
  between database states must satisfy for each write of the repositories; inside it every operation
  of the repositories, services and reconcilers is shown to keep the relation, but for the release of a
  test's workers, which \<open>release_relation\<close> adds. It is interpreted for table integrity, for the
  evolution of the rows along their life cycles, for exclusive reservation and for histories of
  committed writes.
\<close>

section \<open>Reconciling capacity\<close>

text \<open>What a relation must allow for a reconciliation cycle: draining idle workers.\<close>

locale drain_relation = db_relation R for R :: "db \<Rightarrow> db \<Rightarrow> bool" +
  assumes R_terminate: "terminate_post ids d d' removed \<Longrightarrow> R d d'"
begin

lemma rel: "db_relation R"
  by (rule db_relation_axioms)

text \<open>Reading statements leave the database alone.\<close>

lemma keeps_read:
  "(\<And>d d' x. q d = Inr (d', x) \<Longrightarrow> d' = d) \<Longrightarrow> keeps R (pool_stmt q)"
  by (rule keeps_pool_stmt) (metis R_refl)

lemma keeps_reads:
  "keeps R (pool_stmt sql_select_tests)" "keeps R (pool_stmt (sql_select_test tid))"
  "keeps R (pool_stmt sql_select_workers)" "keeps R (pool_stmt (sql_select_worker wid))"
  "keeps R (pool_stmt (sql_reserved_assignment wid))"
  by (rule keeps_read;
      auto simp: sql_select_tests_def sql_select_test_def sql_select_workers_def
        sql_select_worker_def sql_reserved_assignment_def split: option.splits list.splits)+

lemma keeps_terminate: "keeps R (WorkerRepo_TerminateIdleWorkers ids)"
  unfolding WorkerRepo_TerminateIdleWorkers_def
  by (auto intro: keeps_retM terminate_tx.keeps_tx [OF rel R_terminate])

lemma keeps_lists: "keeps R TestRepo_GetTests" "keeps R WorkerRepo_GetWorkers"
  unfolding TestRepo_GetTests_def WorkerRepo_GetWorkers_def by (intro keeps_intros keeps_reads)+

text \<open>The local provisioner touches no table.\<close>

lemma keeps_lift_prov: "keeps R (lift_prov f)"
  by (auto simp: keeps_def lift_prov_def env_ok_def R_refl split: prod.split)

lemma keeps_process_provisioner:
  "keeps R (Provision process_provisioner n)" "keeps R (Terminate process_provisioner hs)"
  by (simp_all add: process_provisioner_def keeps_lift_prov)

text \<open>The autoscaler, with a provisioner that keeps the relation.\<close>

lemma keeps_Reconcile:
  assumes "\<And>n. keeps R (Provision (rProvisioner r) n)"
    and "\<And>hs. keeps R (Terminate (rProvisioner r) hs)"
  shows "keeps R (Reconciler_Reconcile r)"
  unfolding Reconciler_Reconcile_def Reconciler_scaleUp_def Reconciler_scaleDown_def liftE_def Let_def
  using assms by (auto split: sum.split prod.split intro!: keeps_intros keeps_lists keeps_terminate)

lemma keeps_wait: "keeps R (wait_for_idle ticks err n)"
  by (induction ticks) (auto intro!: keeps_intros keeps_lists)

lemma keeps_ensure:
  assumes "\<And>m. tsReconciler s = Some m \<Longrightarrow> keeps R m"
    and "\<And>p n. tsProvisioner s = Some p \<Longrightarrow> keeps R (Provision p n)"
  shows "keeps R (TestService_ensureWorkersAvailable s pat n)"
  unfolding TestService_ensureWorkersAvailable_def Let_def
  using assms by (auto split: option.split intro!: keeps_intros keeps_lists keeps_wait)

end

section \<open>Every operation but stopping a test\<close>

locale repository_relation = drain_relation R for R :: "db \<Rightarrow> db \<Rightarrow> bool" +
  assumes R_insert_test: "sql_insert_test t d = Inr (d', u) \<Longrightarrow> R d d'"
    and R_insert_worker: "sql_insert_worker v d = Inr (d', u) \<Longrightarrow> R d d'"
    and R_update_status: "sql_update_status tid st d = Inr (d', n) \<Longrightarrow> R d d'"
    and R_worker_count: "sql_update_worker_count tid c d = Inr (d', n) \<Longrightarrow> R d d'"
    and R_transition: "sql_transition_status tid from to d = Inr (d', n) \<Longrightarrow> R d d'"
    and R_heartbeat: "sql_heartbeat wid ws now d = Inr (d', n) \<Longrightarrow> R d d'"
    and R_mark_offline: "sql_mark_offline cutoff d = Inr (d', n) \<Longrightarrow> R d d'"
    and R_reserve: "reserve_post tid c allocs d d' workers \<Longrightarrow> R d d'"
    and R_fail_offline: "fail_offline_post d d' n \<Longrightarrow> R d d'"
    and R_running: "mark_running_post tid wid d d' u \<Longrightarrow> R d d'"
    and R_completed: "mark_completed_post tid wid d d' u \<Longrightarrow> R d d'"
    and R_failed: "mark_failed_post tid wid d d' u \<Longrightarrow> R d d'"
begin

lemma keeps_TestRepo:
  "keeps R (TestRepo_CreateTest t)" "keeps R TestRepo_GetTests" "keeps R (TestRepo_GetTestByID tid)"
  "keeps R (TestRepo_UpdateStatus tid st)" "keeps R (TestRepo_UpdateWorkerCount tid c)"
  "keeps R (TestRepo_TryTransitionStatus tid from to)"
  unfolding TestRepo_defs
  by (intro keeps_intros keeps_reads keeps_pool_stmt;
      blast intro: R_insert_test R_update_status R_worker_count R_transition)+

lemma keeps_WorkerRepo:
  "keeps R (WorkerRepo_CreateWorker v)" "keeps R WorkerRepo_GetWorkers"
  "keeps R (WorkerRepo_GetWorkerByID wid)" "keeps R (WorkerRepo_UpdateHeartbeat wid ws now)"
  "keeps R (WorkerRepo_MarkOfflineWorkers cutoff)" "keeps R (WorkerRepo_GetReservedAssignment wid)"
  unfolding WorkerRepo_CreateWorker_def WorkerRepo_GetWorkers_def WorkerRepo_GetWorkerByID_def
    WorkerRepo_UpdateHeartbeat_def WorkerRepo_MarkOfflineWorkers_def WorkerRepo_GetReservedAssignment_def
  by (intro keeps_intros keeps_reads keeps_pool_stmt;
      blast intro: R_insert_worker R_heartbeat R_mark_offline)+

lemma keeps_transactions:
  "keeps R (WorkerRepo_ReserveWorkersForTest tid c allocs)"
  "keeps R WorkerRepo_MarkAssignmentsFailedForOfflineWorkers"
  "keeps R (WorkerRepo_MarkAssignmentRunning tid wid)"
  "keeps R (WorkerRepo_MarkAssignmentCompleted tid wid)"
  "keeps R (WorkerRepo_MarkAssignmentFailed tid wid)"
  unfolding WorkerRepo_ReserveWorkersForTest_def WorkerRepo_MarkAssignmentsFailedForOfflineWorkers_def
    WorkerRepo_TerminateIdleWorkers_def
    WorkerRepo_MarkAssignmentRunning_def WorkerRepo_MarkAssignmentCompleted_def
    WorkerRepo_MarkAssignmentFailed_def
  by (auto intro: keeps_retM
      reserve_tx.keeps_tx [OF rel R_reserve]
      offline_tx.keeps_tx [OF rel R_fail_offline]
      running_tx.keeps_tx [OF rel R_running] completed_tx.keeps_tx [OF rel R_completed]
      failed_tx.keeps_tx [OF rel R_failed])

lemmas keeps_repo = keeps_intros keeps_TestRepo keeps_WorkerRepo keeps_transactions keeps_terminate

lemma keeps_WorkerService:
  "keeps R (WorkerService_RegisterWorker i now req)"
  "keeps R (WorkerService_Heartbeat now wid st)"
  "keeps R (WorkerService_GetReservedAssignment wid)"
  "keeps R (WorkerService_StartAssignment tid wid)"
  "keeps R (WorkerService_CompleteAssignment tid wid)"
  "keeps R (WorkerService_FailAssignment tid wid)"
  "keeps R (WorkerReconciler_reconcile now)"
  unfolding WorkerService_RegisterWorker_def WorkerService_Heartbeat_def
    WorkerService_GetReservedAssignment_def WorkerService_StartAssignment_def
    WorkerService_CompleteAssignment_def WorkerService_FailAssignment_def
    WorkerReconciler_reconcile_def Let_def
  by (auto split: option.split intro: keeps_repo)

lemma keeps_WorkerReconciler_Start: "keeps R (WorkerReconciler_Start ticks)"
  by (induction ticks) (auto intro: keeps_repo keeps_WorkerService)

lemma keeps_CreateTest: "keeps R (TestService_CreateTest s i now req)"
  unfolding TestService_CreateTest_def Let_def
  by (auto split: option.split sum.split intro: keeps_repo)

lemma keeps_roll_back: "keeps R (roll_back tid err)"
  using keeps_TestRepo(6) [of tid StatusStarting StatusCreated]
  unfolding keeps_def roll_back_def by (auto split: prod.split)

lemma keeps_StartTest:
  assumes "\<And>m. tsReconciler s = Some m \<Longrightarrow> keeps R m"
    and "\<And>p n. tsProvisioner s = Some p \<Longrightarrow> keeps R (Provision p n)"
  shows "keeps R (TestService_StartTest s pat tid)"
  unfolding TestService_StartTest_def DefaultScheduler_AllocateWorkers_def
  using keeps_ensure [of s pat, OF assms]
  by (auto split: sum.split intro!: keeps_repo keeps_roll_back)

end

section \<open>Releasing a test's workers\<close>

text \<open>
  The one write that the relation above leaves out is the release of a test's workers; a relation
  that also allows it is kept by stopping a test.
\<close>

locale release_relation = repository_relation R for R :: "db \<Rightarrow> db \<Rightarrow> bool" +
  assumes R_release: "release_post tid d d' u \<Longrightarrow> R d d'"
begin

lemma keeps_release: "keeps R (WorkerRepo_ReleaseWorkersForTest tid)"
  unfolding WorkerRepo_ReleaseWorkersForTest_def
  by (rule release_tx.keeps_tx [OF rel R_release])

lemma keeps_StopTest: "keeps R (TestService_StopTest tid)"
  unfolding TestService_StopTest_def by (auto intro!: keeps_repo keeps_release)

end

end
