(* ===== verification/Integrity.thy ===== *)
theory Integrity
  imports Lifecycle
begin

text \<open>
  The two relations between database states that every operation keeps: table integrity (keys,
  references, column ranges and the timestamps of an assignment agree with its status), and the
  evolution of the rows along the life cycles of \<open>docs/lifecycle.md\<close>.
\<close>

section \<open>Integrity\<close>

definition test_ok :: "Test \<Rightarrow> bool" where
  "test_ok t \<longleftrightarrow> in_int4 (tWorkerCount t) \<and> in_int4 (tDurationSec t) \<and> in_int4 (tRPS t) \<and>
     in_int4 (tConcurrency t)"

definition assignment_ok :: "TestWorker \<Rightarrow> bool" where
  "assignment_ok a \<longleftrightarrow> in_int4 (aRPS a) \<and>
     (case aStatus a of
        AssignmentStatusReserved \<Rightarrow> aStartedAt a = None \<and> aCompletedAt a = None
      | AssignmentStatusRunning \<Rightarrow> aStartedAt a \<noteq> None \<and> aCompletedAt a = None
      | AssignmentStatusCompleted \<Rightarrow> aCompletedAt a \<noteq> None
      | AssignmentStatusFailed \<Rightarrow> aCompletedAt a \<noteq> None)"

definition integrity :: "db \<Rightarrow> bool" where
  "integrity d \<longleftrightarrow>
     distinct (map tID (dTests d)) \<and> distinct (map wID (dWorkers d)) \<and>
     distinct (map akey (dAssignments d)) \<and>
     (\<forall>t\<in>set (dTests d). test_ok t) \<and> (\<forall>w\<in>set (dWorkers d). in_int4 (wCPUCount w)) \<and>
     (\<forall>a\<in>set (dAssignments d). assignment_ok a \<and> aTestID a \<in> tID ` set (dTests d) \<and>
        aWorkerID a \<in> wID ` set (dWorkers d))"

lemma integrity_empty: "integrity empty_db"
  by (simp add: integrity_def empty_db_def)

text \<open>
  A write that keeps the keys and the ranges of the rows it touches keeps integrity: one lemma
  per table, and one for a write to several tables.
\<close>

definition tests_kept :: "Test list \<Rightarrow> Test list \<Rightarrow> bool" where
  "tests_kept ts ts' \<longleftrightarrow> map tID ts' = map tID ts \<and>
     ((\<forall>t\<in>set ts. test_ok t) \<longrightarrow> (\<forall>t\<in>set ts'. test_ok t))"

definition workers_kept :: "Worker list \<Rightarrow> Worker list \<Rightarrow> bool" where
  "workers_kept ws ws' \<longleftrightarrow> map wID ws' = map wID ws \<and>
     ((\<forall>w\<in>set ws. in_int4 (wCPUCount w)) \<longrightarrow> (\<forall>w\<in>set ws'. in_int4 (wCPUCount w)))"

definition assignments_kept :: "TestWorker list \<Rightarrow> TestWorker list \<Rightarrow> bool" where
  "assignments_kept as as' \<longleftrightarrow> map akey as' = map akey as \<and>
     ((\<forall>a\<in>set as. assignment_ok a) \<longrightarrow> (\<forall>a\<in>set as'. assignment_ok a))"

lemma kept_refl [simp]: "tests_kept ts ts" "workers_kept ws ws" "assignments_kept as as"
  by (simp_all add: tests_kept_def workers_kept_def assignments_kept_def)

lemma tests_kept_update:
  "(\<And>t. t \<in> set ts \<Longrightarrow> P t \<Longrightarrow> tID (f t) = tID t \<and> (test_ok t \<longrightarrow> test_ok (f t))) \<Longrightarrow>
   tests_kept ts (update_where P f ts)"
  by (auto simp: tests_kept_def set_update_where intro: map_update_where)

lemma workers_kept_update:
  "(\<And>w. w \<in> set ws \<Longrightarrow> P w \<Longrightarrow> wID (f w) = wID w \<and> wCPUCount (f w) = wCPUCount w) \<Longrightarrow>
   workers_kept ws (update_where P f ws)"
  by (auto simp: workers_kept_def set_update_where intro: map_update_where)

lemma assignments_kept_update:
  "(\<And>a. a \<in> set as \<Longrightarrow> P a \<Longrightarrow> akey (f a) = akey a \<and> (assignment_ok a \<longrightarrow> assignment_ok (f a))) \<Longrightarrow>
   assignments_kept as (update_where P f as)"
  by (auto simp: assignments_kept_def set_update_where intro: map_update_where)

lemma integrity_kept:
  assumes "integrity d" "tests_kept (dTests d) (dTests d')" "workers_kept (dWorkers d) (dWorkers d')"
    "assignments_kept (dAssignments d) (dAssignments d')"
  shows "integrity d'"
proof -
  from assms(2) have t: "map tID (dTests d') = map tID (dTests d)" by (simp add: tests_kept_def)
  from assms(3) have w: "map wID (dWorkers d') = map wID (dWorkers d)" by (simp add: workers_kept_def)
  from assms(4) have a: "map akey (dAssignments d') = map akey (dAssignments d)"
    by (simp add: assignments_kept_def)
  have tids: "tID ` set (dTests d') = tID ` set (dTests d)" by (metis list.set_map t)
  have wids: "wID ` set (dWorkers d') = wID ` set (dWorkers d)" by (metis list.set_map w)
  have keys: "akey ` set (dAssignments d') = akey ` set (dAssignments d)" by (metis list.set_map a)
  have fk: "aTestID a' \<in> tID ` set (dTests d) \<and> aWorkerID a' \<in> wID ` set (dWorkers d)"
    if "a' \<in> set (dAssignments d')" for a'
  proof -
    from that keys obtain b where "b \<in> set (dAssignments d)" "akey b = akey a'"
      by (metis (no_types, lifting) imageE imageI)
    with assms(1) have "aTestID b \<in> tID ` set (dTests d) \<and> aWorkerID b \<in> wID ` set (dWorkers d)"
      by (simp add: integrity_def)
    with \<open>akey b = akey a'\<close> show ?thesis by (simp add: akey_def)
  qed
  from assms have "\<forall>t\<in>set (dTests d'). test_ok t" "\<forall>w\<in>set (dWorkers d'). in_int4 (wCPUCount w)"
    "\<forall>a\<in>set (dAssignments d'). assignment_ok a"
    by (auto simp: integrity_def tests_kept_def workers_kept_def assignments_kept_def)
  with assms(1) t w a tids wids fk show ?thesis by (simp add: integrity_def)
qed

text \<open>The row functions keep a row good.\<close>

lemma test_ok_to [simp]: "test_ok (test_to st now t) = test_ok t"
  by (simp add: test_ok_def test_to_def)

lemma worker_to_cpu [simp]: "wCPUCount (worker_to st now w) = wCPUCount w"
  by (simp add: worker_to_def)

lemma assignment_ok_done:
  "st = AssignmentStatusCompleted \<or> st = AssignmentStatusFailed \<Longrightarrow> assignment_ok a \<Longrightarrow>
   assignment_ok (assignment_done st now a)"
  by (auto simp: assignment_ok_def assignment_done_def)

lemma assignment_ok_started:
  "aStatus a = AssignmentStatusReserved \<Longrightarrow> assignment_ok a \<Longrightarrow> assignment_ok (assignment_started now a)"
  by (simp add: assignment_ok_def assignment_started_def)

lemma assignment_ok_row: "assignment_ok (assignment_row tid now (w, r)) = in_int4 r"
  by (simp add: assignment_ok_def assignment_row_def)

lemma integrity_keptI:
  "tests_kept (dTests d) (dTests d') \<Longrightarrow> workers_kept (dWorkers d) (dWorkers d') \<Longrightarrow>
   assignments_kept (dAssignments d) (dAssignments d') \<Longrightarrow> integrity d \<longrightarrow> integrity d'"
  using integrity_kept by blast

lemmas kept_updates =
  tests_kept_update workers_kept_update assignments_kept_update

text \<open>New rows with fresh keys keep integrity.\<close>

lemma integrity_rows:
  assumes "integrity d" "distinct (map akey rows)" "akey ` set rows \<inter> akey ` set (dAssignments d) = {}"
    and "\<And>r. r \<in> set rows \<Longrightarrow> assignment_ok r \<and> aTestID r \<in> tID ` set (dTests d) \<and> aWorkerID r \<in> wID ` set (dWorkers d)"
  shows "integrity (d\<lparr>dAssignments := dAssignments d @ rows\<rparr>)"
proof -
  have "distinct (map akey (dAssignments d @ rows))"
    unfolding map_append distinct_append set_map [of akey] using assms(1-3) unfolding integrity_def by blast
  moreover have "\<forall>a\<in>set (dAssignments d @ rows). assignment_ok a \<and> aTestID a \<in> tID ` set (dTests d) \<and>
      aWorkerID a \<in> wID ` set (dWorkers d)"
    using assms(1,4) unfolding integrity_def by (simp add: ball_Un)
  ultimately show ?thesis using assms(1) unfolding integrity_def by simp
qed

lemma integrity_reserve:
  assumes "reserve_post tid n allocs d d' ws" "integrity d"
  shows "integrity d'"
proof -
  from assms(1) obtain sel where
    len: "length allocs = length sel" and dist: "distinct (map wID sel)" and
    sel: "set sel \<subseteq> {w \<in> set (dWorkers d). wStatus w = WorkerStatusIdle}" and
    fresh: "akey ` set (map (assignment_row tid (dNow d)) (zip sel allocs)) \<inter>
      akey ` set (dAssignments d) = {}" and
    int4: "\<forall>row\<in>set (map (assignment_row tid (dNow d)) (zip sel allocs)). in_int4 (aRPS row)" and
    tid: "tid \<in> tID ` set (dTests d)" and
    d': "d' = d\<lparr>dWorkers := update_where (\<lambda>w. wID w \<in> wID ` set sel)
                  (worker_to WorkerStatusReserved (dNow d)) (dWorkers d),
                dAssignments := dAssignments d @ map (assignment_row tid (dNow d)) (zip sel allocs)\<rparr>"
    unfolding reserve_post_def Let_def by blast
  let ?rows = "map (assignment_row tid (dNow d)) (zip sel allocs)"
  let ?d1 = "d\<lparr>dWorkers := dWorkers d'\<rparr>"
  have d1: "integrity ?d1"
    using assms(2) by (rule integrity_kept) (auto simp: d' intro!: workers_kept_update)
  have wids: "wID ` set (dWorkers d') = wID ` set (dWorkers d)"
    using d' by (simp add: keys_update_where)
  have "assignment_ok r \<and> aTestID r = tid \<and> aWorkerID r \<in> wID ` set (dWorkers d)"
    if "r \<in> set ?rows" for r
  proof -
    from that obtain w q where r: "r = assignment_row tid (dNow d) (w, q)" "(w, q) \<in> set (zip sel allocs)"
      by auto
    from r(2) sel have "w \<in> set (dWorkers d)" by (auto dest: set_zip_leftD)
    with r int4 that show ?thesis
      by (auto simp: assignment_ok_def assignment_row_def)
  qed
  moreover have "distinct (map akey ?rows)"
    unfolding map_akey_rows [OF len] using dist by (simp add: distinct_map inj_on_def)
  ultimately have "integrity (?d1\<lparr>dAssignments := dAssignments ?d1 @ ?rows\<rparr>)"
    using d1 fresh tid wids by (intro integrity_rows) (simp_all del: set_map set_zip)
  then show ?thesis by (simp add: d')
qed

interpretation integrity_rel: release_relation "\<lambda>d d'. integrity d \<longrightarrow> integrity d'"
proof unfold_locales
  fix d d' u t
  show "sql_insert_test t d = Inr (d', u) \<Longrightarrow> integrity d \<longrightarrow> integrity d'"
    by (auto simp: sql_insert_test_def integrity_def test_ok_def split: if_splits)
next
  fix d d' u v
  show "sql_insert_worker v d = Inr (d', u) \<Longrightarrow> integrity d \<longrightarrow> integrity d'"
    by (auto simp: sql_insert_worker_def integrity_def split: if_splits)
next
  fix d d' tid st n
  show "sql_update_status tid st d = Inr (d', n) \<Longrightarrow> integrity d \<longrightarrow> integrity d'"
    by (rule integrity_keptI; auto simp: sql_update_status_def test_ok_def split: if_splits intro!: kept_updates)
next
  fix d d' tid c n
  show "sql_update_worker_count tid c d = Inr (d', n) \<Longrightarrow> integrity d \<longrightarrow> integrity d'"
    by (rule integrity_keptI; auto simp: sql_update_worker_count_def test_ok_def split: if_splits intro!: kept_updates)
next
  fix d d' tid st st' n
  show "sql_transition_status tid st st' d = Inr (d', n) \<Longrightarrow> integrity d \<longrightarrow> integrity d'"
    by (rule integrity_keptI; auto simp: sql_transition_status_def test_ok_def split: if_splits intro!: kept_updates)
next
  fix d d' wid ws now n
  show "sql_heartbeat wid ws now d = Inr (d', n) \<Longrightarrow> integrity d \<longrightarrow> integrity d'"
    by (rule integrity_keptI; auto simp: sql_heartbeat_def split: if_splits intro!: kept_updates)
next
  fix d d' cutoff n
  show "sql_mark_offline cutoff d = Inr (d', n) \<Longrightarrow> integrity d \<longrightarrow> integrity d'"
    by (rule integrity_keptI; auto simp: worker_sql_defs split: if_splits intro!: kept_updates)
next
  fix d d' tid c allocs workers
  show "reserve_post tid c allocs d d' workers \<Longrightarrow> integrity d \<longrightarrow> integrity d'"
    by (simp add: integrity_reserve)
next
  fix d d' tid u
  show "release_post tid d d' u \<Longrightarrow> integrity d \<longrightarrow> integrity d'"
    by (rule integrity_keptI; auto simp: release_post_def assignment_ok_done split: if_splits intro!: kept_updates)
next
  fix d d' n
  show "fail_offline_post d d' n \<Longrightarrow> integrity d \<longrightarrow> integrity d'"
    by (rule integrity_keptI; auto simp: fail_offline_post_def Let_def assignment_ok_done split: if_splits intro!: kept_updates)
next
  fix d d' ids removed
  show "terminate_post ids d d' removed \<Longrightarrow> integrity d \<longrightarrow> integrity d'"
    by (rule integrity_keptI; auto simp: terminate_post_def split: if_splits intro!: kept_updates)
next
  fix d d' tid wid u
  show "mark_running_post tid wid d d' u \<Longrightarrow> integrity d \<longrightarrow> integrity d'"
    by (rule integrity_keptI; auto simp: mark_running_post_def Let_def assignment_ok_started split: if_splits intro!: kept_updates)
next
  fix d d' tid wid u
  show "mark_completed_post tid wid d d' u \<Longrightarrow> integrity d \<longrightarrow> integrity d'"
    by (rule integrity_keptI; auto simp: mark_completed_post_def Let_def assignment_ok_done split: if_splits intro!: kept_updates)
next
  fix d d' tid wid u
  show "mark_failed_post tid wid d d' u \<Longrightarrow> integrity d \<longrightarrow> integrity d'"
    by (rule integrity_keptI; auto simp: mark_failed_post_def Let_def assignment_ok_done split: if_splits intro!: kept_updates)
qed auto

section \<open>Evolution along the life cycles\<close>

text \<open>
  The statuses are ordered by what may still become of them. A worker comes and goes between its
  statuses until it is DRAINING, from where it can only go OFFLINE: a preorder.
\<close>

instantiation WorkerStatus :: preorder
begin

definition less_eq_WorkerStatus :: "WorkerStatus \<Rightarrow> WorkerStatus \<Rightarrow> bool" where
  "s \<le> s' \<longleftrightarrow>
     (s = WorkerStatusOffline \<longrightarrow> s' = WorkerStatusOffline) \<and>
     (s = WorkerStatusDraining \<longrightarrow> s' = WorkerStatusDraining \<or> s' = WorkerStatusOffline)"

definition less_WorkerStatus :: "WorkerStatus \<Rightarrow> WorkerStatus \<Rightarrow> bool" where
  "s < s' \<longleftrightarrow> s \<le> s' \<and> \<not> s' \<le> (s :: WorkerStatus)"

instance
  by standard (auto simp: less_eq_WorkerStatus_def less_WorkerStatus_def)

end

text \<open>An assignment goes from RESERVED over RUNNING to COMPLETED or FAILED, or is given up before: an
  order with RESERVED at the bottom.\<close>

instantiation AssignmentStatus :: order_bot
begin

definition less_eq_AssignmentStatus :: "AssignmentStatus \<Rightarrow> AssignmentStatus \<Rightarrow> bool" where
  "s \<le> s' \<longleftrightarrow> s' = s \<or>
     (case s of
        AssignmentStatusReserved \<Rightarrow> True
      | AssignmentStatusRunning \<Rightarrow> s' = AssignmentStatusCompleted \<or> s' = AssignmentStatusFailed
      | AssignmentStatusCompleted \<Rightarrow> False
      | AssignmentStatusFailed \<Rightarrow> False)"

definition less_AssignmentStatus :: "AssignmentStatus \<Rightarrow> AssignmentStatus \<Rightarrow> bool" where
  "s < s' \<longleftrightarrow> s \<le> s' \<and> \<not> s' \<le> (s :: AssignmentStatus)"

definition bot_AssignmentStatus :: AssignmentStatus where
  "bot = AssignmentStatusReserved"

instance
  by standard
    (auto simp: less_eq_AssignmentStatus_def less_AssignmentStatus_def bot_AssignmentStatus_def
      split: AssignmentStatus.splits)

end

text \<open>How a row may change: its status moves up, what identifies and describes it stays.\<close>

definition worker_evolves :: "Worker \<Rightarrow> Worker \<Rightarrow> bool" where
  "worker_evolves w w' \<longleftrightarrow> wID w' = wID w \<and> wHostname w' = wHostname w \<and>
     wVersion w' = wVersion w \<and> wCPUCount w' = wCPUCount w \<and> wMemoryMB w' = wMemoryMB w \<and>
     wRegisteredAt w' = wRegisteredAt w \<and> wStatus w \<le> wStatus w'"

definition assignment_evolves :: "TestWorker \<Rightarrow> TestWorker \<Rightarrow> bool" where
  "assignment_evolves a a' \<longleftrightarrow> akey a' = akey a \<and> aAssignedAt a' = aAssignedAt a \<and>
     aRPS a' = aRPS a \<and> aStatus a \<le> aStatus a' \<and>
     (\<not> active_assignment a \<longrightarrow> a' = a)"

text \<open>What was asked of a test never changes.\<close>

definition test_evolves :: "Test \<Rightarrow> Test \<Rightarrow> bool" where
  "test_evolves t t' \<longleftrightarrow> tID t' = tID t \<and> tName t' = tName t \<and> tTargetURL t' = tTargetURL t \<and>
     tMethod t' = tMethod t \<and> tDurationSec t' = tDurationSec t \<and> tRPS t' = tRPS t \<and>
     tConcurrency t' = tConcurrency t \<and> tCreatedAt t' = tCreatedAt t"

definition evolves :: "db \<Rightarrow> db \<Rightarrow> bool" where
  "evolves d d' \<longleftrightarrow>
     rows_evolve tID test_evolves (dTests d) (dTests d') \<and>
     rows_evolve wID worker_evolves (dWorkers d) (dWorkers d') \<and>
     rows_evolve akey assignment_evolves (dAssignments d) (dAssignments d')"

definition sound_step :: "db \<Rightarrow> db \<Rightarrow> bool" where
  "sound_step d d' \<longleftrightarrow> (integrity d \<longrightarrow> integrity d' \<and> evolves d d')"

lemma row_evolves_refl [simp]:
  "test_evolves t t" "worker_evolves w w" "assignment_evolves a a"
  by (simp_all add: test_evolves_def worker_evolves_def less_eq_WorkerStatus_def
      assignment_evolves_def less_eq_AssignmentStatus_def)

lemma row_evolves_key:
  "test_evolves t t' \<Longrightarrow> tID t' = tID t" "worker_evolves w w' \<Longrightarrow> wID w' = wID w"
  "assignment_evolves a a' \<Longrightarrow> akey a' = akey a"
  by (simp_all add: test_evolves_def worker_evolves_def assignment_evolves_def)

lemma test_evolves_trans: "test_evolves t t' \<Longrightarrow> test_evolves t' t'' \<Longrightarrow> test_evolves t t''"
  by (simp add: test_evolves_def)

lemma worker_evolves_trans: "worker_evolves w w' \<Longrightarrow> worker_evolves w' w'' \<Longrightarrow> worker_evolves w w''"
  unfolding worker_evolves_def by (metis order_trans)

lemma assignment_evolves_trans:
  assumes "assignment_evolves a b" "assignment_evolves b c"
  shows "assignment_evolves a c"
proof (cases "active_assignment a")
  case False
  with assms show ?thesis by (simp add: assignment_evolves_def)
next
  case True
  from assms have "aStatus a \<le> aStatus c" unfolding assignment_evolves_def by (metis order_trans)
  with True assms show ?thesis by (simp add: assignment_evolves_def)
qed

lemma evolves_refl [simp]: "evolves d d"
  by (simp add: evolves_def rows_evolve_refl)

lemma evolves_trans: "evolves d1 d2 \<Longrightarrow> evolves d2 d3 \<Longrightarrow> evolves d1 d3"
  unfolding evolves_def
  by (blast intro: rows_evolve_trans row_evolves_key test_evolves_trans worker_evolves_trans
      assignment_evolves_trans)

lemma evolvesI:
  "rows_evolve tID test_evolves (dTests d) (dTests d') \<Longrightarrow>
   rows_evolve wID worker_evolves (dWorkers d) (dWorkers d') \<Longrightarrow>
   rows_evolve akey assignment_evolves (dAssignments d) (dAssignments d') \<Longrightarrow> evolves d d'"
  by (simp add: evolves_def)

text \<open>How the row functions evolve a row.\<close>

lemma test_evolves_to [simp]: "test_evolves t (test_to st now t)"
  by (simp add: test_evolves_def test_to_def)

lemma worker_evolves_to:
  "wStatus w \<le> st \<Longrightarrow> worker_evolves w (worker_to st now w)"
  by (simp add: worker_evolves_def worker_to_def)

lemma assignment_evolves_done:
  "active_assignment a \<Longrightarrow> st = AssignmentStatusCompleted \<or> st = AssignmentStatusFailed \<Longrightarrow>
   assignment_evolves a (assignment_done st now a)"
  by (auto simp: assignment_evolves_def assignment_done_def less_eq_AssignmentStatus_def
      active_assignment_def akey_def)

lemma assignment_evolves_started:
  "aStatus a = AssignmentStatusReserved \<Longrightarrow> assignment_evolves a (assignment_started now a)"
  by (simp add: assignment_evolves_def assignment_started_def less_eq_AssignmentStatus_def
      active_assignment_def akey_def)

lemma rows_evolve_id [simp]:
  "rows_evolve tID test_evolves ts ts" "rows_evolve wID worker_evolves ws ws"
  "rows_evolve akey assignment_evolves as as"
  by (simp_all add: rows_evolve_refl)

lemmas evolve_updates =
  rows_evolve_update_where rows_evolve_append worker_evolves_to assignment_evolves_done
  assignment_evolves_started

lemma evolves_reserve:
  assumes "reserve_post tid n allocs d d' ws" "integrity d"
  shows "evolves d d'"
proof -
  from assms(1) obtain sel where
    sel: "set sel \<subseteq> {w \<in> set (dWorkers d). wStatus w = WorkerStatusIdle}" and
    fresh: "akey ` set (map (assignment_row tid (dNow d)) (zip sel allocs)) \<inter>
      akey ` set (dAssignments d) = {}" and
    d': "d' = d\<lparr>dWorkers := update_where (\<lambda>w. wID w \<in> wID ` set sel)
                  (worker_to WorkerStatusReserved (dNow d)) (dWorkers d),
                dAssignments := dAssignments d @ map (assignment_row tid (dNow d)) (zip sel allocs)\<rparr>"
    unfolding reserve_post_def Let_def by blast
  have "wStatus w = WorkerStatusIdle" if "w \<in> set (dWorkers d)" "wID w \<in> wID ` set sel" for w
  proof -
    from that(2) obtain v where v: "v \<in> set sel" "wID v = wID w" by auto
    with sel have "v \<in> set (dWorkers d)" "wStatus v = WorkerStatusIdle" by auto
    with that(1) v(2) assms(2) show ?thesis by (auto simp: integrity_def distinct_map inj_on_def)
  qed
  then have "rows_evolve wID worker_evolves (dWorkers d) (dWorkers d')"
    unfolding d' by (auto intro!: evolve_updates simp: less_eq_WorkerStatus_def)
  moreover have "rows_evolve akey assignment_evolves (dAssignments d) (dAssignments d')"
    unfolding d' using fresh by (simp add: rows_evolve_append del: set_map)
  ultimately show ?thesis by (intro evolvesI) (simp_all add: d')
qed

lemma terminate_post_worker:
  "terminate_post ids d d' removed \<Longrightarrow>
   dWorkers d' = update_where (\<lambda>w. wID w \<in> set removed) (worker_to WorkerStatusDraining (dNow d)) (dWorkers d)"
  by (simp add: terminate_post_def)

lemma evolves_terminate:
  assumes "terminate_post ids d d' removed" "integrity d"
  shows "evolves d d'"
proof -
  have "wStatus w = WorkerStatusIdle" if "w \<in> set (dWorkers d)" "wID w \<in> set removed" for w
    using that assms by (auto simp: terminate_post_def integrity_def distinct_map inj_on_def)
  then have "rows_evolve wID worker_evolves (dWorkers d) (dWorkers d')"
    unfolding terminate_post_worker [OF assms(1)]
    by (intro rows_evolve_update_where worker_evolves_to)
       (simp_all add: less_eq_WorkerStatus_def)
  moreover have "dTests d' = dTests d" "dAssignments d' = dAssignments d"
    using assms(1) by (simp_all add: terminate_post_def)
  ultimately show ?thesis by (simp add: evolves_def)
qed

text \<open>Every write is a sound step: it keeps integrity and evolves the rows.\<close>

lemma sound_stepI:
  "(integrity d \<longrightarrow> integrity d') \<Longrightarrow> (integrity d \<Longrightarrow> evolves d d') \<Longrightarrow> sound_step d d'"
  by (simp add: sound_step_def)

lemma evolves_tests:
  assumes "\<And>t. P t \<Longrightarrow> test_evolves t (f t)"
  shows "evolves d (d\<lparr>dTests := update_where P f (dTests d)\<rparr>)"
  using assms by (intro evolvesI) (simp_all add: rows_evolve_update_where)

lemma evolves_workers:
  assumes "\<And>w. P w \<Longrightarrow> worker_evolves w (f w)"
  shows "evolves d (d\<lparr>dWorkers := update_where P f (dWorkers d)\<rparr>)"
  using assms by (intro evolvesI) (simp_all add: rows_evolve_update_where)

lemma evolves_assignments:
  assumes "\<And>a. P a \<Longrightarrow> assignment_evolves a (f a)"
  shows "evolves d (d\<lparr>dAssignments := update_where P f (dAssignments d)\<rparr>)"
  using assms by (intro evolvesI) (simp_all add: rows_evolve_update_where)

lemma heartbeat_evolves:
  "worker_evolves w (w\<lparr>wStatus := heartbeat_status st (wStatus w), wLastHeartbeat := a, wUpdatedAt := b\<rparr>)"
  by (simp add: worker_evolves_def less_eq_WorkerStatus_def heartbeat_status_def)

interpretation evolution: release_relation sound_step
proof unfold_locales
  fix d
  show "sound_step d d" by (simp add: sound_step_def)
next
  fix d1 d2 d3
  show "sound_step d1 d2 \<Longrightarrow> sound_step d2 d3 \<Longrightarrow> sound_step d1 d3"
    by (auto simp: sound_step_def intro: evolves_trans)
next
  fix d d' u t
  assume run: "sql_insert_test t d = Inr (d', u)"
  then show "sound_step d d'"
    by (intro sound_stepI integrity_rel.R_insert_test [OF run])
       (auto simp: sql_insert_test_def intro!: evolvesI rows_evolve_append split: if_splits)
next
  fix d d' u v
  assume run: "sql_insert_worker v d = Inr (d', u)"
  then show "sound_step d d'"
    by (intro sound_stepI integrity_rel.R_insert_worker [OF run])
       (auto simp: sql_insert_worker_def intro!: evolvesI rows_evolve_append split: if_splits)
next
  fix d d' tid st n
  assume run: "sql_update_status tid st d = Inr (d', n)"
  then show "sound_step d d'"
    by (intro sound_stepI integrity_rel.R_update_status [OF run])
       (auto simp: sql_update_status_def test_evolves_def intro!: evolves_tests split: if_splits)
next
  fix d d' tid c n
  assume run: "sql_update_worker_count tid c d = Inr (d', n)"
  then show "sound_step d d'"
    by (intro sound_stepI integrity_rel.R_worker_count [OF run])
       (auto simp: sql_update_worker_count_def test_evolves_def intro!: evolves_tests split: if_splits)
next
  fix d d' tid st st' n
  assume run: "sql_transition_status tid st st' d = Inr (d', n)"
  then show "sound_step d d'"
    by (intro sound_stepI integrity_rel.R_transition [OF run])
       (auto simp: sql_transition_status_def test_evolves_def intro!: evolves_tests split: if_splits)
next
  fix d d' wid ws now n
  assume run: "sql_heartbeat wid ws now d = Inr (d', n)"
  then show "sound_step d d'"
    by (intro sound_stepI integrity_rel.R_heartbeat [OF run])
       (auto simp: sql_heartbeat_def heartbeat_evolves intro!: evolves_workers)
next
  fix d d' cutoff n
  assume run: "sql_mark_offline cutoff d = Inr (d', n)"
  then show "sound_step d d'"
    by (intro sound_stepI integrity_rel.R_mark_offline [OF run])
       (auto simp: worker_sql_defs less_eq_WorkerStatus_def intro!: evolves_workers worker_evolves_to)
next
  fix d d' tid c allocs workers
  assume run: "reserve_post tid c allocs d d' workers"
  then show "sound_step d d'"
    by (intro sound_stepI integrity_rel.R_reserve [OF run] evolves_reserve)
next
  fix d d' tid u
  assume run: "release_post tid d d' u"
  then show "sound_step d d'"
    by (intro sound_stepI integrity_rel.R_release [OF run])
       (auto simp: release_post_def less_eq_WorkerStatus_def
         intro!: evolvesI rows_evolve_update_where worker_evolves_to assignment_evolves_done)
next
  fix d d' n
  assume run: "fail_offline_post d d' n"
  then show "sound_step d d'"
    by (intro sound_stepI integrity_rel.R_fail_offline [OF run])
       (auto simp: fail_offline_post_def Let_def
         intro!: evolvesI rows_evolve_update_where assignment_evolves_done)
next
  fix d d' ids removed
  assume run: "terminate_post ids d d' removed"
  then show "sound_step d d'"
    by (intro sound_stepI integrity_rel.R_terminate [OF run] evolves_terminate)
next
  fix d d' tid wid u
  assume run: "mark_running_post tid wid d d' u"
  then show "sound_step d d'"
    by (intro sound_stepI integrity_rel.R_running [OF run])
       (auto simp: mark_running_post_def Let_def less_eq_WorkerStatus_def
         intro!: evolvesI rows_evolve_update_where worker_evolves_to assignment_evolves_started)
next
  fix d d' tid wid u
  assume run: "mark_completed_post tid wid d d' u"
  then show "sound_step d d'"
    by (intro sound_stepI integrity_rel.R_completed [OF run])
       (auto simp: mark_completed_post_def Let_def less_eq_WorkerStatus_def active_assignment_def
         intro!: evolvesI rows_evolve_update_where worker_evolves_to assignment_evolves_done)
next
  fix d d' tid wid u
  assume run: "mark_failed_post tid wid d d' u"
  then show "sound_step d d'"
    by (intro sound_stepI integrity_rel.R_failed [OF run])
       (auto simp: mark_failed_post_def Let_def
         intro!: evolvesI rows_evolve_update_where assignment_evolves_done)
qed

end
