(* ===== verification/Histories.thy ===== *)
theory Histories
  imports Integrity
begin

text \<open>
  The control plane as a state machine on its database. A \<open>write\<close> is one committed statement or
  transaction of a repository; \<open>committed\<close> says what it may do, \<open>history\<close> chains writes, and
  \<open>operation\<close> lists the operations that handlers and background loops run. Every operation, whatever
  the other clients commit in between and whichever round trip fails, adds a history; so what every
  write keeps holds of every state that any interleaving of clients can reach.
\<close>

section \<open>Committed writes\<close>

datatype "write" =
    InsertTest Test
  | InsertWorker Worker
  | UpdateStatus string TestStatus
  | UpdateWorkerCount string int
  | TransitionStatus string TestStatus TestStatus
  | HeartbeatOf string WorkerStatus time
  | MarkOffline time
  | Reserve string int "int list"
  | Release string
  | FailOffline
  | Drain "string list"
  | MarkRunning string string
  | MarkCompleted string string
  | MarkFailed string string
  | Tick time

inductive committed :: "write \<Rightarrow> db \<Rightarrow> db \<Rightarrow> bool" where
  c_insert_test: "sql_insert_test t d = Inr (d', u) \<Longrightarrow> committed (InsertTest t) d d'"
| c_insert_worker: "sql_insert_worker v d = Inr (d', u) \<Longrightarrow> committed (InsertWorker v) d d'"
| c_update_status: "sql_update_status tid st d = Inr (d', n) \<Longrightarrow> committed (UpdateStatus tid st) d d'"
| c_worker_count:
    "sql_update_worker_count tid c d = Inr (d', n) \<Longrightarrow> committed (UpdateWorkerCount tid c) d d'"
| c_transition:
    "sql_transition_status tid st st' d = Inr (d', n) \<Longrightarrow> committed (TransitionStatus tid st st') d d'"
| c_heartbeat: "sql_heartbeat wid ws now d = Inr (d', n) \<Longrightarrow> committed (HeartbeatOf wid ws now) d d'"
| c_mark_offline: "sql_mark_offline cutoff d = Inr (d', n) \<Longrightarrow> committed (MarkOffline cutoff) d d'"
| c_reserve: "reserve_post tid c allocs d d' ws \<Longrightarrow> committed (Reserve tid c allocs) d d'"
| c_release: "release_post tid d d' u \<Longrightarrow> committed (Release tid) d d'"
| c_fail_offline: "fail_offline_post d d' n \<Longrightarrow> committed FailOffline d d'"
| c_drain: "terminate_post ids d d' removed \<Longrightarrow> committed (Drain ids) d d'"
| c_running: "mark_running_post tid wid d d' u \<Longrightarrow> committed (MarkRunning tid wid) d d'"
| c_completed: "mark_completed_post tid wid d d' u \<Longrightarrow> committed (MarkCompleted tid wid) d d'"
| c_failed: "mark_failed_post tid wid d d' u \<Longrightarrow> committed (MarkFailed tid wid) d d'"
| c_tick: "dNow d \<le> now \<Longrightarrow> committed (Tick now) d (d\<lparr>dNow := now\<rparr>)"

inductive_cases committed_ReserveE: "committed (Reserve tid n allocs) d d'"
inductive_cases committed_ReleaseE: "committed (Release tid) d d'"

inductive history :: "write list \<Rightarrow> db \<Rightarrow> db \<Rightarrow> bool" where
  history_nil: "history [] d d"
| history_cons: "committed x d1 d2 \<Longrightarrow> history xs d2 d3 \<Longrightarrow> history (x # xs) d1 d3"

inductive_simps history_Nil_iff [simp]: "history [] d d'"
inductive_simps history_Cons_iff: "history (x # xs) d d'"

lemma history_one: "committed x d d' \<Longrightarrow> history [x] d d'"
  by (rule history_cons [OF _ history_nil])

lemma history_append: "history xs d1 d2 \<Longrightarrow> history ys d2 d3 \<Longrightarrow> history (xs @ ys) d1 d3"
  by (induction rule: history.induct) (auto intro: history_cons)

definition reaches :: "db \<Rightarrow> db \<Rightarrow> bool" where
  "reaches d d' \<longleftrightarrow> (\<exists>xs. history xs d d')"

lemma reaches_refl: "reaches d d"
  unfolding reaches_def by (blast intro: history_nil)

lemma reaches_trans: "reaches d1 d2 \<Longrightarrow> reaches d2 d3 \<Longrightarrow> reaches d1 d3"
  unfolding reaches_def by (blast intro: history_append)

lemma reaches_one: "committed x d d' \<Longrightarrow> reaches d d'"
  unfolding reaches_def by (blast intro: history_one)

text \<open>\<open>reaches\<close> is the least release relation that also lets the clock pass.\<close>

interpretation histories: release_relation reaches
  by unfold_locales
     (blast intro: reaches_refl reaches_trans reaches_one committed.intros)+

context release_relation
begin

lemma R_committed:
  assumes tick: "\<And>d now. dNow d \<le> now \<Longrightarrow> R d (d\<lparr>dNow := now\<rparr>)" and step: "committed x d d'"
  shows "R d d'"
  using step
  by cases (blast intro: tick R_insert_test R_insert_worker R_update_status R_worker_count
      R_transition R_heartbeat R_mark_offline R_reserve R_release R_fail_offline R_terminate
      R_running R_completed R_failed)+

lemma R_reaches:
  assumes tick: "\<And>d now. dNow d \<le> now \<Longrightarrow> R d (d\<lparr>dNow := now\<rparr>)" and run: "reaches d d'"
  shows "R d d'"
proof -
  from run obtain xs where "history xs d d'" unfolding reaches_def by blast
  then show ?thesis
    by (induction rule: history.induct) (blast intro: R_refl R_trans R_committed [OF tick])+
qed

end

lemma sound_step_tick: "sound_step d (d\<lparr>dNow := now\<rparr>)"
  by (simp add: sound_step_def integrity_def evolves_def)

lemma reaches_sound: "reaches d d' \<Longrightarrow> sound_step d d'"
  by (rule evolution.R_reaches [OF sound_step_tick])

section \<open>Operations\<close>

record control_plane =
  cpService :: "ProcessProvisioner TestService"
  cpReconciler :: "ProcessProvisioner Reconciler"

datatype operation =
    CreateTestOp string time CreateTestRequest
  | StartTestOp patience string
  | StopTestOp string
  | RegisterWorkerOp string time RegisterWorkerRequest
  | HeartbeatOp time string string
  | StartAssignmentOp string string
  | CompleteAssignmentOp string string
  | FailAssignmentOp string string
  | ReadOp string
  | HealthSweepOp time
  | ReconcileOp

definition forget :: "('p, 'a) io \<Rightarrow> ('p, unit) io" where
  "forget m = tryM m (\<lambda>_. retM ())"

text \<open>The wiring of \<open>cmd/server/main.go\<close>: one provisioner and one reconciler for the test
  service and for the periodic loop.\<close>

definition vulcan :: "int \<Rightarrow> control_plane" where
  "vulcan capacity =
     (let r = \<lparr>rProvisioner = process_provisioner, rWorkerCapacity = capacity\<rparr> in
      \<lparr>cpService = \<lparr>tsWorkerCapacityRPS = capacity, tsReconciler = Some (Reconciler_Reconcile r),
                    tsProvisioner = Some process_provisioner\<rparr>,
       cpReconciler = r\<rparr>)"

primrec run_operation :: "control_plane \<Rightarrow> operation \<Rightarrow> (ProcessProvisioner, unit) io" where
  "run_operation cp (CreateTestOp i now req) = forget (TestService_CreateTest (cpService cp) i now req)"
| "run_operation cp (StartTestOp pat tid) = forget (TestService_StartTest (cpService cp) pat tid)"
| "run_operation cp (StopTestOp tid) = TestService_StopTest tid"
| "run_operation cp (RegisterWorkerOp i now req) = forget (WorkerService_RegisterWorker i now req)"
| "run_operation cp (HeartbeatOp now wid st) = WorkerService_Heartbeat now wid st"
| "run_operation cp (StartAssignmentOp tid wid) = WorkerService_StartAssignment tid wid"
| "run_operation cp (CompleteAssignmentOp tid wid) = WorkerService_CompleteAssignment tid wid"
| "run_operation cp (FailAssignmentOp tid wid) = WorkerService_FailAssignment tid wid"
| "run_operation cp (ReadOp wid) = forget (WorkerService_GetReservedAssignment wid)"
| "run_operation cp (HealthSweepOp now) = WorkerReconciler_reconcile now"
| "run_operation cp ReconcileOp = Reconciler_runOnce (cpReconciler cp)"

text \<open>A run of the control plane: operations one after the other, each with its own other clients.\<close>

primrec run_operations :: "control_plane \<Rightarrow> operation list \<Rightarrow> ProcessProvisioner world \<Rightarrow> ProcessProvisioner world" where
  "run_operations cp [] w = w"
| "run_operations cp (x # xs) w = run_operations cp xs (snd (run_operation cp x w))"

context repository_relation
begin

lemma keeps_forget: "keeps R m \<Longrightarrow> keeps R (forget m)"
  unfolding forget_def by (auto intro!: keeps_repo)

lemma keeps_vulcan_Reconcile: "keeps R (Reconciler_Reconcile (cpReconciler (vulcan c)))"
  by (rule keeps_Reconcile) (simp_all add: vulcan_def Let_def keeps_process_provisioner)

lemma vulcan_collaborators:
  "tsReconciler (cpService (vulcan c)) = Some m \<Longrightarrow> keeps R m"
  "tsProvisioner (cpService (vulcan c)) = Some p \<Longrightarrow> keeps R (Provision p n)"
  using keeps_vulcan_Reconcile [of c] keeps_process_provisioner(1) [of n]
  by (auto simp: vulcan_def Let_def)

lemma keeps_vulcan_ensure:
  "keeps R (TestService_ensureWorkersAvailable (cpService (vulcan c)) pat n)"
  by (rule keeps_ensure) (rule vulcan_collaborators, assumption)+

lemma keeps_vulcan_StartTest: "keeps R (TestService_StartTest (cpService (vulcan c)) pat tid)"
  by (rule keeps_StartTest) (rule vulcan_collaborators, assumption)+

lemma keeps_operation_but_stop:
  "(\<forall>tid. x \<noteq> StopTestOp tid) \<Longrightarrow> keeps R (run_operation (vulcan c) x)"
  by (cases x)
     (auto simp: Reconciler_runOnce_def
       intro!: keeps_forget keeps_CreateTest keeps_vulcan_StartTest keeps_WorkerService
         keeps_vulcan_Reconcile keeps_repo)

end

context release_relation
begin

lemma keeps_operation: "keeps R (run_operation (vulcan c) x)"
proof (cases "\<exists>tid. x = StopTestOp tid")
  case True
  then show ?thesis using keeps_StopTest by auto
next
  case False
  then show ?thesis using keeps_operation_but_stop by blast
qed

end

lemma run_operations_reaches:
  "env_ok reaches w \<Longrightarrow>
   reaches (wdb w) (wdb (run_operations (vulcan c) xs w)) \<and>
   env_ok reaches (run_operations (vulcan c) xs w)"
proof (induction xs arbitrary: w)
  case Nil
  then show ?case by (simp add: reaches_refl)
next
  case (Cons x xs)
  let ?w = "snd (run_operation (vulcan c) x w)"
  have "reaches (wdb w) (wdb ?w)" "env_ok reaches ?w"
    using histories.keeps_operation [of c x] Cons.prems by (simp_all add: keeps_def)
  with Cons.IH [of ?w] show ?case by (auto intro: reaches_trans)
qed

end
