(* ===== verification/Exclusive.thy ===== *)
theory Exclusive
  imports Histories
begin

text \<open>
  Exclusive reservation: a worker has at most one RESERVED assignment, and while it has one it is
  RESERVED itself (or was declared OFFLINE), so no second test can reserve it and the autoscaler
  cannot drain it. Every write keeps this but one: releasing the workers of a test, which looks only
  at the worker's status and so frees a worker that is reserved for another test.
\<close>

definition reserved_rows :: "db \<Rightarrow> string \<Rightarrow> TestWorker set" where
  "reserved_rows d wid =
     {a \<in> set (dAssignments d). aWorkerID a = wid \<and> aStatus a = AssignmentStatusReserved}"

definition holds_reservation :: "Worker \<Rightarrow> bool" where
  "holds_reservation w \<longleftrightarrow> wStatus w = WorkerStatusReserved \<or> wStatus w = WorkerStatusOffline"

definition exclusive :: "db \<Rightarrow> bool" where
  "exclusive d \<longleftrightarrow>
     (\<forall>a\<in>set (dAssignments d). aStatus a = AssignmentStatusReserved \<longrightarrow>
        (\<forall>b\<in>set (dAssignments d). aStatus b = AssignmentStatusReserved \<longrightarrow>
           aWorkerID b = aWorkerID a \<longrightarrow> akey b = akey a) \<and>
        (\<forall>w\<in>set (dWorkers d). wID w = aWorkerID a \<longrightarrow> holds_reservation w))"

definition exclusive_step :: "db \<Rightarrow> db \<Rightarrow> bool" where
  "exclusive_step d d' \<longleftrightarrow> (integrity d \<longrightarrow> integrity d' \<and> (exclusive d \<longrightarrow> exclusive d'))"

lemma exclusive_empty: "exclusive empty_db"
  by (simp add: exclusive_def empty_db_def)

lemma exclusiveD:
  assumes "exclusive d" "a \<in> set (dAssignments d)" "aStatus a = AssignmentStatusReserved"
  shows "b \<in> set (dAssignments d) \<Longrightarrow> aStatus b = AssignmentStatusReserved \<Longrightarrow>
      aWorkerID b = aWorkerID a \<Longrightarrow> akey b = akey a"
    and "w \<in> set (dWorkers d) \<Longrightarrow> wID w = aWorkerID a \<Longrightarrow> holds_reservation w"
  using assms unfolding exclusive_def by blast+

text \<open>
  One lemma for every write that adds no reserved row: each reserved row of the new state is one of
  the old state, and the workers of those rows still hold the reservation.
\<close>

lemma exclusive_kept:
  assumes "exclusive d"
    and rows: "\<And>a. a \<in> set (dAssignments d') \<Longrightarrow> aStatus a = AssignmentStatusReserved \<Longrightarrow> a \<in> set (dAssignments d)"
    and workers: "\<And>w' a. w' \<in> set (dWorkers d') \<Longrightarrow> a \<in> set (dAssignments d') \<Longrightarrow>
        aStatus a = AssignmentStatusReserved \<Longrightarrow> wID w' = aWorkerID a \<Longrightarrow>
        (\<And>w. w \<in> set (dWorkers d) \<Longrightarrow> wID w = aWorkerID a \<Longrightarrow> holds_reservation w) \<Longrightarrow>
        holds_reservation w'"
  shows "exclusive d'"
  unfolding exclusive_def
proof (intro ballI impI conjI)
  fix a b assume ab: "a \<in> set (dAssignments d')" "aStatus a = AssignmentStatusReserved"
    "b \<in> set (dAssignments d')" "aStatus b = AssignmentStatusReserved" "aWorkerID b = aWorkerID a"
  show "akey b = akey a"
    using exclusiveD(1) [OF assms(1)] rows ab by blast
next
  fix a w assume aw: "a \<in> set (dAssignments d')" "aStatus a = AssignmentStatusReserved"
    "w \<in> set (dWorkers d')" "wID w = aWorkerID a"
  show "holds_reservation w"
    using workers [OF aw(3,1,2,4)] exclusiveD(2) [OF assms(1) rows [OF aw(1,2)] aw(2)] by blast
qed

text \<open>A worker write keeps every reservation when it touches no RESERVED worker, or frees none.\<close>

lemma exclusive_workers:
  assumes "exclusive d" "\<And>w. P w \<Longrightarrow> wID (f w) = wID w \<and> (holds_reservation w \<longrightarrow> holds_reservation (f w))"
    "dAssignments d' = dAssignments d" "dWorkers d' = update_where P f (dWorkers d)"
  shows "exclusive d'"
  using assms(1)
proof (rule exclusive_kept)
  fix w' a
  assume "w' \<in> set (dWorkers d')" "wID w' = aWorkerID a"
    and old: "\<And>w. w \<in> set (dWorkers d) \<Longrightarrow> wID w = aWorkerID a \<Longrightarrow> holds_reservation w"
  from this(1) show "holds_reservation w'"
    unfolding assms(4)
    by (rule in_update_whereE) (use assms(2) old \<open>wID w' = aWorkerID a\<close> in fastforce)+
qed (simp add: assms(3))

text \<open>An assignment write that leaves no row RESERVED keeps it as well.\<close>

lemma exclusive_assignments:
  assumes "exclusive d" "\<And>a. P a \<Longrightarrow> aStatus (f a) \<noteq> AssignmentStatusReserved"
    "dWorkers d' = dWorkers d" "dAssignments d' = update_where P f (dAssignments d)"
  shows "exclusive d'"
  using assms(1)
proof (rule exclusive_kept)
  fix a assume "a \<in> set (dAssignments d')" "aStatus a = AssignmentStatusReserved"
  then show "a \<in> set (dAssignments d)"
    unfolding assms(4) by (elim in_update_whereE) (use assms(2) in auto)
qed (simp add: assms(3))

lemma exclusive_reserve:
  assumes "reserve_post tid n allocs d d' ws" "integrity d" "exclusive d"
  shows "exclusive d'"
proof -
  from assms(1) obtain sel where
    sel: "set sel \<subseteq> {w \<in> set (dWorkers d). wStatus w = WorkerStatusIdle}" and
    d': "d' = d\<lparr>dWorkers := update_where (\<lambda>w. wID w \<in> wID ` set sel)
                  (worker_to WorkerStatusReserved (dNow d)) (dWorkers d),
                dAssignments := dAssignments d @ map (assignment_row tid (dNow d)) (zip sel allocs)\<rparr>"
    unfolding reserve_post_def Let_def by blast
  let ?rows = "map (assignment_row tid (dNow d)) (zip sel allocs)"
  have new: "aWorkerID a \<in> wID ` set sel \<and> aTestID a = tid" if "a \<in> set ?rows" for a
    using that by (auto simp: assignment_row_def dest: set_zip_leftD)
  have free: "aWorkerID a \<notin> wID ` set sel"
    if "a \<in> set (dAssignments d)" "aStatus a = AssignmentStatusReserved" for a
  proof
    assume "aWorkerID a \<in> wID ` set sel"
    then obtain w where w: "w \<in> set sel" "wID w = aWorkerID a" by auto
    with sel have "w \<in> set (dWorkers d)" "wStatus w = WorkerStatusIdle" by auto
    with exclusiveD(2) [OF assms(3) that] w(2) have "holds_reservation w" by blast
    with \<open>wStatus w = WorkerStatusIdle\<close> show False by (simp add: holds_reservation_def)
  qed
  show ?thesis
    unfolding exclusive_def
  proof (intro ballI impI conjI)
    fix a b assume "a \<in> set (dAssignments d')" "aStatus a = AssignmentStatusReserved"
      "b \<in> set (dAssignments d')" "aStatus b = AssignmentStatusReserved" "aWorkerID b = aWorkerID a"
    moreover from this have "a \<in> set (dAssignments d) \<or> a \<in> set ?rows"
      "b \<in> set (dAssignments d) \<or> b \<in> set ?rows"
      unfolding d' by auto
    ultimately show "akey b = akey a"
      using new free exclusiveD(1) [OF assms(3)] unfolding akey_def by metis
  next
    fix a w assume aw: "a \<in> set (dAssignments d')" "aStatus a = AssignmentStatusReserved"
      "w \<in> set (dWorkers d')" "wID w = aWorkerID a"
    from aw(3) have "w \<in> set (update_where (\<lambda>w. wID w \<in> wID ` set sel)
                  (worker_to WorkerStatusReserved (dNow d)) (dWorkers d))"
      by (simp add: d')
    then show "holds_reservation w"
    proof (cases rule: in_update_whereE)
      case 1
      then show ?thesis by (simp add: holds_reservation_def)
    next
      case 2
      with aw(4) new have "a \<notin> set ?rows" by metis
      with aw(1) d' have "a \<in> set (dAssignments d)" by auto
      with 2 exclusiveD(2) [OF assms(3)] aw show ?thesis by blast
    qed
  qed
qed

text \<open>A start may free a reservation of the row it starts, the only one of that worker.\<close>

lemma exclusive_running:
  assumes "mark_running_post tid wid d d' u" "exclusive d"
  shows "exclusive d'"
proof -
  let ?P = "\<lambda>a. aTestID a = tid \<and> aWorkerID a = wid \<and> aStatus a = AssignmentStatusReserved"
  from assms(1) obtain b where b: "b \<in> set (dAssignments d)" "?P b" and
    as: "dAssignments d' = update_where ?P (assignment_started (dNow d)) (dAssignments d)" and
    ws: "dWorkers d' = update_where (\<lambda>w. wID w = wid \<and> wStatus w = WorkerStatusReserved)
           (worker_to WorkerStatusRunning (dNow d)) (dWorkers d)"
    unfolding mark_running_post_def Let_def by auto
  have old: "a \<in> set (dAssignments d) \<and> aWorkerID a \<noteq> wid"
    if "a \<in> set (dAssignments d')" "aStatus a = AssignmentStatusReserved" for a
  proof -
    have "a \<in> set (dAssignments d) \<and> \<not> ?P a"
      using that(1) unfolding as
      by (rule in_update_whereE) (use that(2) in \<open>auto simp: assignment_started_def\<close>)
    then have a: "a \<in> set (dAssignments d)" "\<not> ?P a" by blast+
    have "aWorkerID a \<noteq> wid"
    proof
      assume "aWorkerID a = wid"
      with exclusiveD(1) [OF assms(2) b(1)] b(2) a(1) that(2) have "akey a = akey b" by simp
      with a(2) b(2) that(2) show False by (simp add: akey_def)
    qed
    with a show ?thesis by simp
  qed
  from assms(2) show ?thesis
  proof (rule exclusive_kept)
    fix w' a
    assume w': "w' \<in> set (dWorkers d')" "wID w' = aWorkerID a" and
      a: "a \<in> set (dAssignments d')" "aStatus a = AssignmentStatusReserved" and
      hold: "\<And>w. w \<in> set (dWorkers d) \<Longrightarrow> wID w = aWorkerID a \<Longrightarrow> holds_reservation w"
    from old [OF a] w'(2) have other: "wID w' \<noteq> wid" by simp
    from w'(1) have "w' \<in> set (dWorkers d)" unfolding ws
      by (rule in_update_whereE) (use other in auto)
    with w'(2) hold show "holds_reservation w'" by blast
  qed (use old in blast)
qed

lemma exclusive_completed:
  assumes "mark_completed_post tid wid d d' u" "exclusive d"
  shows "exclusive d'"
proof -
  let ?P = "\<lambda>a. aTestID a = tid \<and> aWorkerID a = wid \<and> aStatus a = AssignmentStatusRunning"
  let ?d = "d\<lparr>dAssignments := update_where ?P (assignment_done AssignmentStatusCompleted (dNow d)) (dAssignments d)\<rparr>"
  have "exclusive ?d"
    by (rule exclusive_assignments [OF assms(2), where P = ?P]) simp_all
  then show ?thesis
    by (rule exclusive_workers)
       (use assms(1) in \<open>auto simp: mark_completed_post_def Let_def holds_reservation_def\<close>)
qed

lemma exclusive_new_rows:
  assumes "exclusive d" "dAssignments d' = dAssignments d" "integrity d"
    "dWorkers d' = dWorkers d @ vs" "\<forall>v\<in>set vs. wID v \<notin> wID ` set (dWorkers d)"
  shows "exclusive d'"
  using assms(1)
proof (rule exclusive_kept)
  fix w' a
  assume w': "w' \<in> set (dWorkers d')" "a \<in> set (dAssignments d')" "wID w' = aWorkerID a"
    and old: "\<And>w. w \<in> set (dWorkers d) \<Longrightarrow> wID w = aWorkerID a \<Longrightarrow> holds_reservation w"
  from w'(2,3) assms(2,3) have "wID w' \<in> wID ` set (dWorkers d)" by (auto simp: integrity_def)
  with assms(5) w'(1) have "w' \<in> set (dWorkers d)" by (auto simp: assms(4))
  with old w'(3) show "holds_reservation w'" by blast
qed (simp add: assms(2))

lemma exclusive_tests:
  assumes "exclusive d" "dAssignments d' = dAssignments d" "dWorkers d' = dWorkers d"
  shows "exclusive d'"
proof -
  have "exclusive d' = exclusive d" unfolding exclusive_def assms(2,3) ..
  with assms(1) show ?thesis by simp
qed

lemma exclusive_stepI:
  "(integrity d \<longrightarrow> integrity d') \<Longrightarrow> (integrity d \<Longrightarrow> exclusive d \<Longrightarrow> exclusive d') \<Longrightarrow>
   exclusive_step d d'"
  by (simp add: exclusive_step_def)

lemma exclusive_step_tests:
  "(integrity d \<longrightarrow> integrity d') \<Longrightarrow> dAssignments d' = dAssignments d \<Longrightarrow> dWorkers d' = dWorkers d \<Longrightarrow>
   exclusive_step d d'"
  by (rule exclusive_stepI) (auto intro: exclusive_tests)

text \<open>Every write but the release.\<close>

interpretation exclusion: repository_relation exclusive_step
proof unfold_locales
  fix d
  show "exclusive_step d d" by (simp add: exclusive_step_def)
next
  fix d1 d2 d3
  show "exclusive_step d1 d2 \<Longrightarrow> exclusive_step d2 d3 \<Longrightarrow> exclusive_step d1 d3"
    by (auto simp: exclusive_step_def)
next
  fix d d' u t
  assume run: "sql_insert_test t d = Inr (d', u)"
  then show "exclusive_step d d'"
    by (intro exclusive_step_tests integrity_rel.R_insert_test [OF run])
       (auto simp: sql_insert_test_def split: if_splits)
next
  fix d d' u v
  assume run: "sql_insert_worker v d = Inr (d', u)"
  show "exclusive_step d d'"
    by (rule exclusive_stepI [OF integrity_rel.R_insert_worker [OF run]], elim exclusive_new_rows [of d d' "[v]"])
       (use run in \<open>auto simp: sql_insert_worker_def split: if_splits\<close>)
next
  fix d d' tid st n
  assume run: "sql_update_status tid st d = Inr (d', n)"
  then show "exclusive_step d d'"
    by (intro exclusive_step_tests integrity_rel.R_update_status [OF run])
       (auto simp: sql_update_status_def)
next
  fix d d' tid c n
  assume run: "sql_update_worker_count tid c d = Inr (d', n)"
  then show "exclusive_step d d'"
    by (intro exclusive_step_tests integrity_rel.R_worker_count [OF run])
       (auto simp: sql_update_worker_count_def split: if_splits)
next
  fix d d' tid st st' n
  assume run: "sql_transition_status tid st st' d = Inr (d', n)"
  then show "exclusive_step d d'"
    by (intro exclusive_step_tests integrity_rel.R_transition [OF run])
       (auto simp: sql_transition_status_def)
next
  fix d d' wid ws now n
  assume run: "sql_heartbeat wid ws now d = Inr (d', n)"
  show "exclusive_step d d'"
  proof (rule exclusive_stepI [OF integrity_rel.R_heartbeat [OF run]])
    assume "exclusive d"
    then show "exclusive d'"
    proof (rule exclusive_workers)
      show "dWorkers d' = update_where (\<lambda>w. wID w = wid)
        (\<lambda>w. w\<lparr>wStatus := heartbeat_status ws (wStatus w), wLastHeartbeat := now, wUpdatedAt := now\<rparr>) (dWorkers d)"
        using run by (auto simp: sql_heartbeat_def)
    qed (use run in \<open>auto simp: sql_heartbeat_def holds_reservation_def heartbeat_status_def\<close>)
  qed
next
  fix d d' cutoff n
  assume run: "sql_mark_offline cutoff d = Inr (d', n)"
  show "exclusive_step d d'"
  proof (rule exclusive_stepI [OF integrity_rel.R_mark_offline [OF run]])
    assume "exclusive d"
    then show "exclusive d'"
    proof (rule exclusive_workers)
      show "dWorkers d' = update_where (\<lambda>w. wStatus w \<noteq> WorkerStatusOffline \<and> wLastHeartbeat w < cutoff)
        (worker_to WorkerStatusOffline (dNow d)) (dWorkers d)"
        using run by (auto simp: worker_sql_defs)
    qed (use run in \<open>auto simp: worker_sql_defs holds_reservation_def\<close>)
  qed
next
  fix d d' tid c allocs workers
  assume run: "reserve_post tid c allocs d d' workers"
  then show "exclusive_step d d'"
    by (blast intro: exclusive_stepI [OF integrity_rel.R_reserve [OF run]] exclusive_reserve)
next
  fix d d' n
  assume run: "fail_offline_post d d' n"
  show "exclusive_step d d'"
  proof (rule exclusive_stepI [OF integrity_rel.R_fail_offline [OF run]])
    assume "exclusive d"
    then show "exclusive d'"
    proof (rule exclusive_assignments)
      show "dAssignments d' = update_where (\<lambda>a. offline_worker d (aWorkerID a) \<and> active_assignment a)
        (assignment_done AssignmentStatusFailed (dNow d)) (dAssignments d)"
        using run by (simp add: fail_offline_post_def Let_def)
    qed (use run in \<open>simp_all add: fail_offline_post_def Let_def\<close>)
  qed
next
  fix d d' ids removed
  assume run: "terminate_post ids d d' removed"
  show "exclusive_step d d'"
  proof (rule exclusive_stepI [OF integrity_rel.R_terminate [OF run]])
    assume "integrity d" "exclusive d"
    with run have idle: "wStatus w = WorkerStatusIdle" if "w \<in> set (dWorkers d)" "wID w \<in> set removed" for w
      using that by (auto simp: terminate_post_def integrity_def distinct_map inj_on_def)
    have eq: "update_where (\<lambda>w. wID w \<in> set removed) (worker_to WorkerStatusDraining (dNow d)) (dWorkers d) =
      update_where (\<lambda>w. wID w \<in> set removed \<and> wStatus w = WorkerStatusIdle)
        (worker_to WorkerStatusDraining (dNow d)) (dWorkers d)"
      by (rule update_where_cong) (use idle in auto)
    from \<open>exclusive d\<close> show "exclusive d'"
    proof (rule exclusive_workers)
      show "dWorkers d' = update_where (\<lambda>w. wID w \<in> set removed \<and> wStatus w = WorkerStatusIdle)
        (worker_to WorkerStatusDraining (dNow d)) (dWorkers d)"
        using run unfolding eq [symmetric] terminate_post_def by simp
    qed (use run in \<open>auto simp: terminate_post_def holds_reservation_def\<close>)
  qed
next
  fix d d' tid wid u
  assume run: "mark_running_post tid wid d d' u"
  then show "exclusive_step d d'"
    by (blast intro: exclusive_stepI [OF integrity_rel.R_running [OF run]] exclusive_running)
next
  fix d d' tid wid u
  assume run: "mark_completed_post tid wid d d' u"
  then show "exclusive_step d d'"
    by (blast intro: exclusive_stepI [OF integrity_rel.R_completed [OF run]] exclusive_completed)
next
  fix d d' tid wid u
  assume run: "mark_failed_post tid wid d d' u"
  show "exclusive_step d d'"
  proof (rule exclusive_stepI [OF integrity_rel.R_failed [OF run]])
    assume "exclusive d"
    then show "exclusive d'"
    proof (rule exclusive_assignments)
      show "dAssignments d' = update_where
        (\<lambda>a. aTestID a = tid \<and> aWorkerID a = wid \<and> active_assignment a)
        (assignment_done AssignmentStatusFailed (dNow d)) (dAssignments d)"
        using run by (simp add: mark_failed_post_def Let_def)
    qed (use run in \<open>simp_all add: mark_failed_post_def Let_def\<close>)
  qed
qed

end
