(* ===== verification/StartStop.thy ===== *)
theory StartStop
  imports Exclusive
begin

text \<open>
  Starting and stopping a test: what a successful start did, in any interleaving with other clients;
  what a start does to a test that is not CREATED; the exact effect of both operations on a quiet
  server; and the rollback of a start that fails.
\<close>

section \<open>Successful steps in any world\<close>

lemma db_seen_ok:
  assumes "env_ok reaches w"
  shows "reaches (wdb w) (db_seen w)"
proof -
  obtain e w1 where e: "next_event w = (e, w1)" by fastforce
  from next_event_env [OF e assms reaches_refl] e show ?thesis by (simp add: db_seen_def)
qed

lemma pool_stmt_InrE:
  assumes "pool_stmt q w = (Inr y, w')"
  obtains "q (db_seen w) = Inr (wdb w', y)"
  using assms
  by (auto simp: pool_stmt_def Let_def db_seen_def next_event_def
      split: prod.splits outcome.splits sum.splits list.splits)

lemma GetTestByID_InrE:
  assumes "TestRepo_GetTestByID tid w = (Inr t, w')"
  obtains "tID t = tid" "t \<in> set (dTests (db_seen w))" "wdb w' = db_seen w"
proof -
  from assms have "pool_stmt (sql_select_test tid) w = (Inr t, w')"
    by (auto simp: TestRepo_GetTestByID_def catchM_def failM_def split: prod.splits sum.splits if_splits)
  then have "tID t = tid \<and> t \<in> set (dTests (db_seen w)) \<and> wdb w' = db_seen w"
    by (elim pool_stmt_InrE)
       (auto simp: sql_select_test_def split: option.splits dest: find_row_Some)
  with that show thesis by simp
qed

lemma UpdateStatus_InrE:
  assumes "TestRepo_UpdateStatus tid st w = (Inr u, w')"
  obtains n where "sql_update_status tid st (db_seen w) = Inr (wdb w', n)" "n \<noteq> 0"
  using assms unfolding TestRepo_UpdateStatus_def
  by (elim run_elims pool_stmt_InrE) (auto simp: retM_def failM_def split: if_splits)

lemma TryTransition_InrE:
  assumes "TestRepo_TryTransitionStatus tid st st' w = (Inr ok, w')"
  obtains n where "sql_transition_status tid st st' (db_seen w) = Inr (wdb w', n)" "ok = (0 < n)"
  using assms unfolding TestRepo_TryTransitionStatus_def
  by (elim run_elims pool_stmt_InrE) (auto simp: retM_def)

lemma catch_roll_back_InrE:
  assumes "catchM m (roll_back tid) w = (Inr x, w')"
  obtains "m w = (Inr x, w')"
  using assms by (auto simp: catchM_def roll_back_def split: prod.splits sum.splits)

lemma lift_sum_InrE:
  assumes "(case x of Inl err \<Rightarrow> failM err | Inr n \<Rightarrow> retM n) w = (Inr y, w')"
  obtains "x = Inr y" "w' = w"
  using assms by (auto simp: failM_def retM_def split: sum.splits)

lemma AllocateWorkers_InrE:
  assumes "DefaultScheduler_AllocateWorkers tid n allocs w = (Inr ws, w')"
  obtains "reserve_post tid n allocs (db_seen w) (wdb w') ws"
  using assms reserve_tx.on_success [of tid n allocs]
  unfolding DefaultScheduler_AllocateWorkers_def WorkerRepo_ReserveWorkersForTest_def
  by (elim run_elims) blast

text \<open>A start that succeeds went through all of its steps, in this order.\<close>

lemma StartTest_InrE:
  assumes "TestService_StartTest s pat tid w = (Inr ws, w')"
  obtains test w1 w2 n w3 w4 allocs w5 where
    "TestRepo_GetTestByID tid w = (Inr test, w1)"
    "TestRepo_TryTransitionStatus tid StatusCreated StatusStarting w1 = (Inr True, w2)"
    "RequiredWorkers (tRPS test) (tsWorkerCapacityRPS s) = Inr n"
    "TestRepo_UpdateWorkerCount tid n w2 = (Inr (), w3)"
    "TestService_ensureWorkersAvailable s pat n w3 = (Inr (), w4)"
    "DistributeRPS (tRPS test) n = Inr allocs"
    "DefaultScheduler_AllocateWorkers (tID test) n allocs w4 = (Inr ws, w5)"
    "TestRepo_UpdateStatus (tID test) StatusRunning w5 = (Inr (), w')"
  using assms unfolding TestService_StartTest_def
  by (elim run_elims lift_sum_InrE catch_roll_back_InrE) (auto simp: failM_def)

lemma StartTest_story:
  assumes "TestService_StartTest (cpService (vulcan c)) pat tid w = (Inr ws, w')" "env_ok reaches w"
  shows "\<exists>test n allocs d0 d1 d d' d2 k0 k2. tID test = tid \<and> test \<in> set (dTests (db_seen w)) \<and>
    RequiredWorkers (tRPS test) c = Inr n \<and> DistributeRPS (tRPS test) n = Inr allocs \<and>
    reaches (wdb w) d0 \<and> reaches (db_seen w) d0 \<and>
    sql_transition_status tid StatusCreated StatusStarting d0 = Inr (d1, k0) \<and> 0 < k0 \<and>
    reaches d1 d \<and> reserve_post tid n allocs d d' ws \<and>
    reaches d' d2 \<and> sql_update_status tid StatusRunning d2 = Inr (wdb w', k2) \<and> k2 \<noteq> 0"
proof -
  have cap: "tsWorkerCapacityRPS (cpService (vulcan c)) = c" by (simp add: vulcan_def Let_def)
  from assms(1) obtain test w1 w2 n w3 w4 allocs w5 where
    get: "TestRepo_GetTestByID tid w = (Inr test, w1)" and
    claim: "TestRepo_TryTransitionStatus tid StatusCreated StatusStarting w1 = (Inr True, w2)" and
    req: "RequiredWorkers (tRPS test) c = Inr n" and
    count: "TestRepo_UpdateWorkerCount tid n w2 = (Inr (), w3)" and
    wait: "TestService_ensureWorkersAvailable (cpService (vulcan c)) pat n w3 = (Inr (), w4)" and
    dist: "DistributeRPS (tRPS test) n = Inr allocs" and
    alloc: "DefaultScheduler_AllocateWorkers (tID test) n allocs w4 = (Inr ws, w5)" and
    upd: "TestRepo_UpdateStatus (tID test) StatusRunning w5 = (Inr (), w')"
    by (rule StartTest_InrE) (rule that, simp_all add: cap)
  have ensure: "keeps reaches (TestService_ensureWorkersAvailable (cpService (vulcan c)) pat n)"
    by (rule histories.keeps_vulcan_ensure)
  have "keeps reaches (DefaultScheduler_AllocateWorkers (tID test) n allocs :: (ProcessProvisioner, Worker list) io)"
    unfolding DefaultScheduler_AllocateWorkers_def by (intro histories.keeps_repo)
  note k1 = keepsD [OF histories.keeps_TestRepo(3) assms(2) get]
  note k2 = keepsD [OF histories.keeps_TestRepo(6) conjunct2 [OF k1] claim]
  note k3 = keepsD [OF histories.keeps_TestRepo(5) conjunct2 [OF k2] count]
  note k4 = keepsD [OF ensure conjunct2 [OF k3] wait]
  note k5 = keepsD [OF \<open>keeps reaches (DefaultScheduler_AllocateWorkers (tID test) n allocs)\<close> conjunct2 [OF k4] alloc]
  from get have tid: "tID test = tid" and seen: "test \<in> set (dTests (db_seen w))" "wdb w1 = db_seen w"
    by (auto elim: GetTestByID_InrE)
  from claim obtain k0 where c: "sql_transition_status tid StatusCreated StatusStarting (db_seen w1) = Inr (wdb w2, k0)"
      "0 < k0"
    by (auto elim: TryTransition_InrE)
  from alloc have r: "reserve_post tid n allocs (db_seen w4) (wdb w5) ws"
    unfolding tid by (rule AllocateWorkers_InrE)
  from upd obtain m where u: "sql_update_status tid StatusRunning (db_seen w5) = Inr (wdb w', m)" "m \<noteq> 0"
    unfolding tid by (rule UpdateStatus_InrE)
  have r1: "reaches (wdb w) (db_seen w1)" using k1 by (auto intro: reaches_trans db_seen_ok)
  have r0: "reaches (db_seen w) (db_seen w1)" using k1 db_seen_ok [of w1] by (simp add: seen(2))
  have r2: "reaches (wdb w2) (db_seen w4)" using k3 k4 by (auto intro: reaches_trans db_seen_ok)
  have r3: "reaches (wdb w5) (db_seen w5)" using k5 by (auto intro: db_seen_ok)
  show ?thesis
    using tid seen(1) req dist r1 r0 c r2 r r3 u by blast
qed

section \<open>Quiet runs\<close>

lemma GetTestByID_quiet:
  "quiet w \<Longrightarrow> TestRepo_GetTestByID tid w =
   (case find_row tID tid (dTests (wdb w)) of None \<Rightarrow> (Inl ErrTestNotFound, w) | Some t \<Rightarrow> (Inr t, w))"
  by (simp add: TestRepo_GetTestByID_def io_defs quiet_simps sql_select_test_def split: option.split)

lemma UpdateStatus_quiet:
  assumes "quiet w" "tid \<in> tID ` set (dTests (wdb w))"
  shows "TestRepo_UpdateStatus tid st w = (Inr (), w\<lparr>wdb := (wdb w)\<lparr>dTests :=
    update_where (\<lambda>t. tID t = tid) (test_to st (dNow (wdb w))) (dTests (wdb w))\<rparr>\<rparr>)"
  using assms
  by (auto simp: TestRepo_UpdateStatus_def io_defs quiet_simps sql_update_status_def
      test_to_def [abs_def] count_where_zero)

definition test_count_to :: "int \<Rightarrow> time \<Rightarrow> Test \<Rightarrow> Test" where
  "test_count_to n now t = t\<lparr>tWorkerCount := n, tUpdatedAt := now\<rparr>"

lemma UpdateWorkerCount_quiet:
  assumes "quiet w" "tid \<in> tID ` set (dTests (wdb w))" "in_int4 n"
  shows "TestRepo_UpdateWorkerCount tid n w = (Inr (), w\<lparr>wdb := (wdb w)\<lparr>dTests :=
    update_where (\<lambda>t. tID t = tid) (test_count_to n (dNow (wdb w))) (dTests (wdb w))\<rparr>\<rparr>)"
  using assms
  by (auto simp: TestRepo_UpdateWorkerCount_def io_defs quiet_simps sql_update_worker_count_def
      test_count_to_def [abs_def] count_where_zero)

lemma TryTransition_quiet:
  "quiet w \<Longrightarrow> TestRepo_TryTransitionStatus tid st st' w =
   (Inr (\<exists>t\<in>set (dTests (wdb w)). tID t = tid \<and> tStatus t = st), w\<lparr>wdb := (wdb w)\<lparr>dTests :=
    update_where (\<lambda>t. tID t = tid \<and> tStatus t = st) (test_to st' (dNow (wdb w))) (dTests (wdb w))\<rparr>\<rparr>)"
  by (simp add: TestRepo_TryTransitionStatus_def io_defs quiet_simps sql_transition_status_def
      test_to_def [abs_def] count_where_pos)

lemma GetWorkers_quiet:
  "quiet w \<Longrightarrow> WorkerRepo_GetWorkers w = (Inr (sort_key (\<lambda>w. - wRegisteredAt w) (dWorkers (wdb w))), w)"
  by (simp add: WorkerRepo_GetWorkers_def io_defs quiet_simps sql_select_workers_def)

lemmas quiet_ops =
  GetTestByID_quiet UpdateStatus_quiet UpdateWorkerCount_quiet TryTransition_quiet GetWorkers_quiet

text \<open>The idle workers in the order of the reservation, the most recently seen first.\<close>

definition idle_by_heartbeat :: "db \<Rightarrow> Worker list" where
  "idle_by_heartbeat d =
     sort_key (\<lambda>w. - wLastHeartbeat w) (filter (\<lambda>w. wStatus w = WorkerStatusIdle) (dWorkers d))"

definition reserved_db :: "string \<Rightarrow> Worker list \<Rightarrow> int list \<Rightarrow> db \<Rightarrow> db" where
  "reserved_db tid sel allocs d =
     d\<lparr>dWorkers := update_where (\<lambda>w. wID w \<in> wID ` set sel)
          (worker_to WorkerStatusReserved (dNow d)) (dWorkers d),
        dAssignments := dAssignments d @ map (assignment_row tid (dNow d)) (zip sel allocs)\<rparr>"

lemma set_idle_by_heartbeat:
  "set (idle_by_heartbeat d) = {w \<in> set (dWorkers d). wStatus w = WorkerStatusIdle}"
  by (simp add: idle_by_heartbeat_def)

lemma distinct_idle_by_heartbeat:
  assumes "distinct (map wID (dWorkers d))"
  shows "distinct (map wID (take n (idle_by_heartbeat d)))"
proof -
  let ?idle = "filter (\<lambda>w. wStatus w = WorkerStatusIdle) (dWorkers d)"
  from assms have "distinct ?idle" "inj_on wID (set ?idle)"
    by (auto simp: distinct_map inj_on_def)
  then have "distinct (map wID (idle_by_heartbeat d))"
    by (simp add: distinct_map idle_by_heartbeat_def)
  then show ?thesis by (metis take_map distinct_take)
qed

lemma Reserve_quiet:
  assumes "quiet w" and d: "d = wdb w" and wids: "distinct (map wID (dWorkers d))"
    and sel: "sel = take (nat n) (idle_by_heartbeat d)"
    and enough: "0 < n" "n \<le> int (length (idle_by_heartbeat d))"
    and allocs: "length allocs = nat n" "\<forall>q\<in>set allocs. in_int4 q"
    and tid: "tid \<in> tID ` set (dTests d)" "tid \<notin> aTestID ` set (dAssignments d)"
  shows "WorkerRepo_ReserveWorkersForTest tid n allocs w =
    (Inr (map (\<lambda>w. w\<lparr>wStatus := WorkerStatusReserved\<rparr>) sel), w\<lparr>wdb := reserved_db tid sel allocs d\<rparr>)"
proof -
  let ?rows = "map (assignment_row tid (dNow d)) (zip sel allocs)"
  let ?d1 = "d\<lparr>dWorkers := update_where (\<lambda>w. wID w \<in> wID ` set sel)
          (worker_to WorkerStatusReserved (dNow d)) (dWorkers d)\<rparr>"
  have len: "length sel = nat n" using sel enough by simp
  have lock: "sql_lock_idle_workers n [] d = Inr (d, sel)"
    using enough(1) by (simp add: sql_lock_idle_workers_def sel idle_by_heartbeat_def)
  have reserve: "sql_reserve_workers (map wID sel) d = Inr (?d1, count_where (\<lambda>w. wID w \<in> wID ` set sel) (dWorkers d))"
    by (simp add: worker_sql_defs)
  have sub: "set sel \<subseteq> set (dWorkers d)"
    unfolding sel using set_idle_by_heartbeat [of d] by (auto dest: in_set_takeD)
  have keys: "map akey ?rows = map (\<lambda>w. (tid, wID w)) sel"
    using len allocs by (intro map_akey_rows) simp
  have dist: "distinct (map akey ?rows)"
    unfolding keys using distinct_idle_by_heartbeat [OF wids, of "nat n"] sel
    by (simp add: distinct_map inj_on_def)
  have fresh: "akey ` set ?rows \<inter> akey ` set (dAssignments ?d1) = {}"
    using tid(2) by (auto simp: akey_def assignment_row_def)
  have ok: "\<forall>row\<in>set ?rows. in_int4 (aRPS row) \<and> aTestID row \<in> tID ` set (dTests ?d1) \<and>
      aWorkerID row \<in> wID ` set (dWorkers ?d1)"
  proof
    fix row assume "row \<in> set ?rows"
    then obtain v q where v: "row = assignment_row tid (dNow d) (v, q)" "(v, q) \<in> set (zip sel allocs)"
      by auto
    then have "v \<in> set sel" "q \<in> set allocs" by (auto dest: set_zip_leftD set_zip_rightD)
    moreover have "wID ` set (dWorkers ?d1) = wID ` set (dWorkers d)" by (simp add: keys_update_where)
    ultimately show "in_int4 (aRPS row) \<and> aTestID row \<in> tID ` set (dTests ?d1) \<and>
      aWorkerID row \<in> wID ` set (dWorkers ?d1)"
      using sub allocs(2) tid(1) v(1) by (auto simp: assignment_row_def)
  qed
  have "?rows \<noteq> []" using len allocs enough by auto
  with insert_assignment_rows_ok [OF ok fresh dist]
  have ins: "sql_insert_assignments ?rows ?d1 = Inr (reserved_db tid sel allocs d, ())"
    by (simp add: sql_insert_assignments_def reserved_db_def)
  have dnow: "dNow ?d1 = dNow d" by simp
  from assms(1) d len enough allocs(1) lock reserve ins show ?thesis
    by (simp add: WorkerRepo_ReserveWorkersForTest_def in_tx_def next_event_quiet quiet_event_def
        reserve_body_def io_defs quiet_simps assignment_rows_reserved Let_def)
qed

text \<open>Two writes to the same rows.\<close>

lemma update_where_twice:
  assumes "\<And>x. x \<in> set xs \<Longrightarrow> P x \<Longrightarrow> Q (f x)" "\<And>x. x \<in> set xs \<Longrightarrow> \<not> P x \<Longrightarrow> \<not> Q x"
  shows "update_where Q g (update_where P f xs) = update_where P (g \<circ> f) xs"
  using assms by (induction xs) (auto simp: update_where_def)

lemma count_idle_eq: "count_idle (dWorkers d) = int (length (idle_by_heartbeat d))"
  by (simp add: count_idle_def count_where_def idle_by_heartbeat_def)

lemma ensure_enough:
  assumes "quiet w" "n \<le> int (length (idle_by_heartbeat (wdb w)))"
  shows "TestService_ensureWorkersAvailable s pat n w = (Inr (), w)"
proof -
  have "count_idle (sort_key (\<lambda>w. - wRegisteredAt w) (dWorkers (wdb w))) = count_idle (dWorkers (wdb w))"
    by (simp add: count_idle_def)
  with assms show ?thesis
    by (simp add: TestService_ensureWorkersAvailable_def tryM_def retM_def GetWorkers_quiet count_idle_eq)
qed

text \<open>The row of a started test.\<close>

definition started_test :: "int \<Rightarrow> time \<Rightarrow> Test \<Rightarrow> Test" where
  "started_test n now t = t\<lparr>tStatus := StatusRunning, tWorkerCount := n, tUpdatedAt := now\<rparr>"

definition started_db :: "string \<Rightarrow> Worker list \<Rightarrow> int list \<Rightarrow> db \<Rightarrow> db" where
  "started_db tid sel allocs d =
     (reserved_db tid sel allocs d)\<lparr>dTests :=
        update_where (\<lambda>t. tID t = tid) (started_test (int (length sel)) (dNow d)) (dTests d)\<rparr>"

text \<open>Between the claim and the reservation the row of the test is STARTING and gets its worker count.\<close>

definition claimed_db :: "string \<Rightarrow> db \<Rightarrow> db" where
  "claimed_db tid d = d\<lparr>dTests := update_where (\<lambda>t. tID t = tid) (test_to StatusStarting (dNow d)) (dTests d)\<rparr>"

definition counted_db :: "string \<Rightarrow> int \<Rightarrow> db \<Rightarrow> db" where
  "counted_db tid n d = d\<lparr>dTests := update_where (\<lambda>t. tID t = tid) (test_count_to n (dNow d)) (dTests d)\<rparr>"

lemma step_db_simps [simp]:
  "dWorkers (claimed_db tid d) = dWorkers d" "dWorkers (counted_db tid n d) = dWorkers d"
  "dAssignments (claimed_db tid d) = dAssignments d" "dAssignments (counted_db tid n d) = dAssignments d"
  "dNow (claimed_db tid d) = dNow d" "dNow (counted_db tid n d) = dNow d"
  "tID ` set (dTests (claimed_db tid d)) = tID ` set (dTests d)"
  "tID ` set (dTests (counted_db tid n d)) = tID ` set (dTests d)"
  by (simp_all add: claimed_db_def counted_db_def keys_update_where test_count_to_def)

lemma started_db_steps:
  assumes "int (length sel) = n"
  shows "(reserved_db tid sel allocs (counted_db tid n (claimed_db tid d)))\<lparr>dTests :=
      update_where (\<lambda>t. tID t = tid) (test_to StatusRunning (dNow d)) (dTests (counted_db tid n (claimed_db tid d)))\<rparr> =
    started_db tid sel allocs d"
proof -
  let ?T = "\<lambda>t. tID t = tid"
  have "update_where ?T (test_to StatusRunning (dNow d)) (dTests (counted_db tid n (claimed_db tid d))) =
      update_where ?T (started_test n (dNow d)) (dTests d)"
    unfolding claimed_db_def counted_db_def
    by (simp add: update_where_twice test_count_to_def)
       (rule update_where_cong; simp add: test_to_def test_count_to_def started_test_def)
  then show ?thesis
    by (simp add: started_db_def reserved_db_def assms claimed_db_def counted_db_def)
qed

text \<open>A test that can be started on a quiet server, with enough idle workers.\<close>

definition startable :: "db \<Rightarrow> string \<Rightarrow> Test \<Rightarrow> int \<Rightarrow> int list \<Rightarrow> bool" where
  "startable d tid t n allocs \<longleftrightarrow> integrity d \<and> t \<in> set (dTests d) \<and> tID t = tid \<and> tStatus t = StatusCreated \<and>
     length allocs = nat n \<and> (\<forall>q\<in>set allocs. in_int4 q) \<and> 0 < n \<and> in_int4 n \<and>
     n \<le> int (length (idle_by_heartbeat d)) \<and> tid \<notin> aTestID ` set (dAssignments d)"

lemma StartTest_steps:
  fixes w :: "'p world"
  assumes "quiet w" and d: "d = wdb w" and able: "startable d tid t n allocs"
    and sel: "sel = take (nat n) (idle_by_heartbeat d)"
  shows "TestRepo_GetTestByID tid w = (Inr t, w)"
    "TestRepo_TryTransitionStatus tid StatusCreated StatusStarting w = (Inr True, w\<lparr>wdb := claimed_db tid d\<rparr>)"
    "TestRepo_UpdateWorkerCount tid n (w\<lparr>wdb := claimed_db tid d\<rparr>) =
      (Inr (), w\<lparr>wdb := counted_db tid n (claimed_db tid d)\<rparr>)"
    "WorkerRepo_ReserveWorkersForTest tid n allocs (w\<lparr>wdb := counted_db tid n (claimed_db tid d)\<rparr>) =
      (Inr (map (\<lambda>w. w\<lparr>wStatus := WorkerStatusReserved\<rparr>) sel),
       w\<lparr>wdb := reserved_db tid sel allocs (counted_db tid n (claimed_db tid d))\<rparr>)"
    "int (length sel) = n" "tid \<in> tID ` set (dTests d)"
proof -
  from able have int: "integrity d" and t: "t \<in> set (dTests d)" "tID t = tid" "tStatus t = StatusCreated"
    and allocs: "length allocs = nat n" "\<forall>q\<in>set allocs. in_int4 q"
    and n: "0 < n" "in_int4 n" "n \<le> int (length (idle_by_heartbeat d))"
    and fresh: "tid \<notin> aTestID ` set (dAssignments d)"
    unfolding startable_def by blast+
  have dt: "distinct (map tID (dTests d))" and dw: "distinct (map wID (dWorkers d))"
    using int by (simp_all add: integrity_def)
  have find: "find_row tID tid (dTests d) = Some t"
    using find_row_distinct [OF dt t(1)] t(2) by simp
  have only: "tStatus t' = StatusCreated" if "t' \<in> set (dTests d)" "tID t' = tid" for t'
    using find_row_distinct [OF dt that(1)] find that(2) t(3) by simp
  have "update_where (\<lambda>t. tID t = tid \<and> tStatus t = StatusCreated) (test_to StatusStarting (dNow d)) (dTests d) =
      update_where (\<lambda>t. tID t = tid) (test_to StatusStarting (dNow d)) (dTests d)"
    by (rule update_where_cong) (use only t in auto)
  then show "TestRepo_TryTransitionStatus tid StatusCreated StatusStarting w = (Inr True, w\<lparr>wdb := claimed_db tid d\<rparr>)"
    using assms(1) d t by (auto simp: TryTransition_quiet claimed_db_def)
  show "TestRepo_GetTestByID tid w = (Inr t, w)" using assms(1) d find by (simp add: GetTestByID_quiet)
  show member: "tid \<in> tID ` set (dTests d)" using t by auto
  then show "TestRepo_UpdateWorkerCount tid n (w\<lparr>wdb := claimed_db tid d\<rparr>) =
      (Inr (), w\<lparr>wdb := counted_db tid n (claimed_db tid d)\<rparr>)"
    using assms(1) n by (subst UpdateWorkerCount_quiet) (simp_all add: counted_db_def [of tid n "claimed_db tid d"])
  have idle: "idle_by_heartbeat (counted_db tid n (claimed_db tid d)) = idle_by_heartbeat d"
    by (simp add: idle_by_heartbeat_def)
  show "WorkerRepo_ReserveWorkersForTest tid n allocs (w\<lparr>wdb := counted_db tid n (claimed_db tid d)\<rparr>) =
      (Inr (map (\<lambda>w. w\<lparr>wStatus := WorkerStatusReserved\<rparr>) sel),
       w\<lparr>wdb := reserved_db tid sel allocs (counted_db tid n (claimed_db tid d))\<rparr>)"
    using assms(1) dw sel idle n allocs member fresh
    by (subst Reserve_quiet [where d = "counted_db tid n (claimed_db tid d)" and sel = sel]) simp_all
  show "int (length sel) = n" using sel n by simp
qed

lemma StartTest_quiet:
  assumes "quiet w" and d: "d = wdb w" and int: "integrity d"
    and t: "t \<in> set (dTests d)" "tID t = tid" "tStatus t = StatusCreated"
    and req: "RequiredWorkers (tRPS t) (tsWorkerCapacityRPS s) = Inr n"
    and dist: "DistributeRPS (tRPS t) n = Inr allocs"
    and allocs: "length allocs = nat n" "\<forall>q\<in>set allocs. in_int4 q"
    and n: "0 < n" "in_int4 n" "n \<le> int (length (idle_by_heartbeat d))"
    and fresh: "tid \<notin> aTestID ` set (dAssignments d)"
    and sel: "sel = take (nat n) (idle_by_heartbeat d)"
  shows "TestService_StartTest s pat tid w =
    (Inr (map (\<lambda>w. w\<lparr>wStatus := WorkerStatusReserved\<rparr>) sel), w\<lparr>wdb := started_db tid sel allocs d\<rparr>)"
proof -
  have able: "startable d tid t n allocs"
    using int t allocs n fresh by (simp add: startable_def)
  note steps = StartTest_steps [OF assms(1) d able sel]
  let ?d2 = "counted_db tid n (claimed_db tid d)"
  let ?d3 = "reserved_db tid sel allocs ?d2"
  have ensure: "TestService_ensureWorkersAvailable s pat n (w\<lparr>wdb := ?d2\<rparr>) = (Inr (), w\<lparr>wdb := ?d2\<rparr>)"
    using assms(1) n by (intro ensure_enough) (simp_all add: idle_by_heartbeat_def)
  have "dTests ?d3 = dTests ?d2" "dNow ?d3 = dNow d" by (simp_all add: reserved_db_def)
  then have running: "TestRepo_UpdateStatus tid StatusRunning (w\<lparr>wdb := ?d3\<rparr>) = (Inr (), w\<lparr>wdb := started_db tid sel allocs d\<rparr>)"
    using assms(1) steps(6) by (subst UpdateStatus_quiet) (simp_all add: started_db_steps [OF steps(5)])
  show ?thesis
    using steps ensure running req dist t(2)
    by (simp add: TestService_StartTest_def DefaultScheduler_AllocateWorkers_def tryM_def catchM_def retM_def wrapM_def)
qed

section \<open>A start that fails\<close>

text \<open>\<open>calm m\<close>: on a quiet server the operation leaves the server quiet.\<close>

definition calm :: "('p, 'a) io \<Rightarrow> bool" where
  "calm m \<longleftrightarrow> (\<forall>w. quiet w \<longrightarrow> quiet (snd (m w)))"

lemma calmD: "calm m \<Longrightarrow> quiet w \<Longrightarrow> m w = (r, w') \<Longrightarrow> quiet w'"
  by (metis calm_def snd_conv)

lemma calm_frame: "frame m \<Longrightarrow> calm m"
  unfolding calm_def frame_def by (metis drop_Nil prod.collapse)

lemma calm_lift_prov: "calm (lift_prov f)"
  by (auto simp: lift_prov_def calm_def split: prod.split)

lemmas calm_basics =
  calm_frame [OF frame_retM] calm_frame [OF frame_failM] calm_frame [OF frame_pool_stmt] calm_lift_prov

lemma calm_tryM: "calm m \<Longrightarrow> (\<And>x. calm (k x)) \<Longrightarrow> calm (tryM m k)"
  unfolding calm_def tryM_def by (force split: prod.split sum.split)

lemma calm_catchM: "calm m \<Longrightarrow> (\<And>e. calm (h e)) \<Longrightarrow> calm (catchM m h)"
  unfolding calm_def catchM_def by (force split: prod.split sum.split)

lemma calm_wrapM: "calm m \<Longrightarrow> calm (wrapM msg m)"
  unfolding calm_def wrapM_def by (force split: prod.split sum.split)

lemma calm_if: "calm m \<Longrightarrow> calm m' \<Longrightarrow> calm (if b then m else m')"
  by simp

lemma calm_in_tx: "frame body \<Longrightarrow> calm (in_tx msg body)"
  by (intro calm_frame frame_in_tx)

lemmas calm_intros = calm_basics calm_tryM calm_catchM calm_wrapM calm_if

lemma calm_repo:
  "calm TestRepo_GetTests" "calm WorkerRepo_GetWorkers" "calm (TestRepo_UpdateWorkerCount tid n)"
  "calm (WorkerRepo_TerminateIdleWorkers ids)" "calm (WorkerRepo_ReserveWorkersForTest tid n allocs)"
  unfolding TestRepo_defs WorkerRepo_GetWorkers_def WorkerRepo_TerminateIdleWorkers_def
    WorkerRepo_ReserveWorkersForTest_def
  by (intro calm_intros calm_in_tx terminate_tx.body_frame reserve_tx.body_frame)+

lemma calm_Reconcile:
  "calm (Reconciler_Reconcile \<lparr>rProvisioner = process_provisioner, rWorkerCapacity = c\<rparr>)"
  unfolding Reconciler_Reconcile_def Reconciler_scaleUp_def Reconciler_scaleDown_def liftE_def Let_def
  by (auto simp: process_provisioner_def split: sum.split prod.split intro!: calm_intros calm_repo)

lemma calm_wait: "calm (wait_for_idle ticks err n)"
  by (induction ticks) (auto intro!: calm_intros calm_repo)

lemma calm_ensure: "calm (TestService_ensureWorkersAvailable (cpService (vulcan c)) pat n)"
  unfolding TestService_ensureWorkersAvailable_def Let_def
  by (auto simp: vulcan_def Let_def intro!: calm_intros calm_repo calm_wait calm_Reconcile)

text \<open>Reconciling writes no test and no assignment.\<close>

definition same_work :: "db \<Rightarrow> db \<Rightarrow> bool" where
  "same_work d d' \<longleftrightarrow> dTests d' = dTests d \<and> dAssignments d' = dAssignments d"

interpretation same_work: drain_relation same_work
  by unfold_locales (auto simp: same_work_def terminate_post_def)

lemma ensure_same_work:
  assumes "TestService_ensureWorkersAvailable (cpService (vulcan c)) pat n w = (r, w')" "quiet w"
  shows "same_work (wdb w) (wdb w') \<and> quiet w'"
proof -
  have rec: "keeps same_work (Reconciler_Reconcile \<lparr>rProvisioner = process_provisioner, rWorkerCapacity = c\<rparr>)"
    by (rule same_work.keeps_Reconcile) (simp_all add: same_work.keeps_process_provisioner)
  have "keeps same_work (TestService_ensureWorkersAvailable (cpService (vulcan c)) pat n)"
    by (rule same_work.keeps_ensure)
       (auto simp: vulcan_def Let_def same_work.keeps_process_provisioner rec)
  from keepsD [OF this env_ok_quiet [OF assms(2)] assms(1)] calmD [OF calm_ensure assms(2,1)]
  show ?thesis by simp
qed

lemma Reserve_fails_quiet:
  assumes "DefaultScheduler_AllocateWorkers tid n allocs w = (Inl err, w')" "quiet w"
  shows "same_work (wdb w) (wdb w') \<and> quiet w'"
proof -
  from assms(1) obtain e where run: "WorkerRepo_ReserveWorkersForTest tid n allocs w = (Inl e, w')"
    by (auto simp: DefaultScheduler_AllocateWorkers_def wrapM_def split: prod.splits sum.splits)
  have quiet': "quiet w'" by (rule calmD [OF calm_repo(5) assms(2) run])
  obtain r2 w2 where b: "reserve_body tid n allocs w = (r2, w2)" by fastforce
  have q2: "quiet w2"
    using calmD [OF calm_frame [OF reserve_tx.body_frame] assms(2) b] .
  from run b q2 assms(2) have "wdb w' = wdb w"
    by (auto simp: WorkerRepo_ReserveWorkersForTest_def in_tx_def Let_def next_event_quiet quiet_event_def
        split: sum.splits)
  with quiet' show ?thesis by (simp add: same_work_def)
qed

text \<open>No operation deletes a test.\<close>

definition same_tests :: "db \<Rightarrow> db \<Rightarrow> bool" where
  "same_tests d d' \<longleftrightarrow> tID ` set (dTests d) \<subseteq> tID ` set (dTests d')"

interpretation same_tests: release_relation same_tests
  by unfold_locales
     (auto simp: same_tests_def post_defs test_sql_defs sql_insert_test_def sql_insert_worker_def
       sql_heartbeat_def worker_sql_defs Let_def keys_update_where split: if_splits)

lemma test_status_to:
  "dTests d' = update_where (\<lambda>t. tID t = tid \<and> P t) (test_to st now) (dTests d) \<Longrightarrow>
   find_row tID tid (dTests d) = Some t \<Longrightarrow> P t \<Longrightarrow> test_status tid d' = Some st"
  by (auto simp: test_status_def find_row_update_where dest: find_row_key)

text \<open>Between the claim and the rollback the row of the test only gets its worker count.\<close>

lemma start_body_fails:
  fixes w :: "ProcessProvisioner world"
  assumes run: "tryM (case RequiredWorkers (tRPS test) c of Inl err \<Rightarrow> failM err | Inr n \<Rightarrow> retM n)
      (\<lambda>n. tryM (TestRepo_UpdateWorkerCount tid n)
      (\<lambda>_. tryM (TestService_ensureWorkersAvailable (cpService (vulcan c)) pat n)
      (\<lambda>_. tryM (case DistributeRPS (tRPS test) n of Inl err \<Rightarrow> failM err | Inr allocs \<Rightarrow> retM allocs)
      (\<lambda>allocs. DefaultScheduler_AllocateWorkers (tID test) n allocs)))) w = (Inl err, w')"
    and "quiet w"
  shows "quiet w' \<and> dAssignments (wdb w') = dAssignments (wdb w) \<and>
    test_status tid (wdb w') = test_status tid (wdb w)"
proof (cases "RequiredWorkers (tRPS test) c")
  case (Inl e)
  with run assms(2) show ?thesis by (simp add: tryM_def failM_def)
next
  case (Inr n)
  obtain r1 w1 where c: "TestRepo_UpdateWorkerCount tid n w = (r1, w1)" by fastforce
  have w1: "quiet w1 \<and> dAssignments (wdb w1) = dAssignments (wdb w) \<and>
      test_status tid (wdb w1) = test_status tid (wdb w)"
  proof -
    from c assms(2) have "wdb w1 = wdb w \<or> (\<exists>m. sql_update_worker_count tid n (wdb w) = Inr (wdb w1, m))"
      by (auto simp: TestRepo_UpdateWorkerCount_def io_defs quiet_simps split: sum.splits prod.splits if_splits)
    then show ?thesis
      using calmD [OF calm_repo(3) assms(2) c] test_status_worker_count [of tid n "wdb w" "wdb w1"]
      by (auto simp: sql_update_worker_count_def dest!: sym [of _ "wdb w1"] split: if_splits)
  qed
  show ?thesis
  proof (cases r1)
    case (Inl e)
    with run Inr c w1 show ?thesis by (simp add: tryM_def retM_def)
  next
    case r1: (Inr u)
    obtain r2 w2 where e: "TestService_ensureWorkersAvailable (cpService (vulcan c)) pat n w1 = (r2, w2)"
      by fastforce
    from ensure_same_work [OF e] w1 have w2: "same_work (wdb w1) (wdb w2)" "quiet w2" by simp_all
    have same: "quiet w' \<and> same_work (wdb w2) (wdb w')"
    proof (cases r2)
      case (Inl e')
      with run Inr c r1 e w2 show ?thesis by (simp add: tryM_def retM_def same_work_def)
    next
      case r2: (Inr u)
      show ?thesis
      proof (cases "DistributeRPS (tRPS test) n")
        case (Inl e')
        with run Inr c r1 e r2 w2 show ?thesis by (simp add: tryM_def retM_def failM_def same_work_def)
      next
        case (Inr allocs)
        with run \<open>RequiredWorkers (tRPS test) c = Inr n\<close> c r1 e r2
        have "DefaultScheduler_AllocateWorkers (tID test) n allocs w2 = (Inl err, w')"
          by (simp add: tryM_def retM_def)
        from Reserve_fails_quiet [OF this w2(2)] show ?thesis by simp
      qed
    qed
    with w1 w2(1) show ?thesis by (auto simp: same_work_def test_status_def)
  qed
qed

text \<open>Rolling back undoes the claim of the test.\<close>

lemma roll_back_quiet:
  assumes "roll_back tid e w = (r, w')" "quiet w" "test_status tid (wdb w) = Some StatusStarting"
  shows "test_status tid (wdb w') = Some StatusCreated \<and> dAssignments (wdb w') = dAssignments (wdb w)"
proof -
  from assms(3) obtain t where t: "find_row tID tid (dTests (wdb w)) = Some t" "tStatus t = StatusStarting"
    by (auto simp: test_status_def)
  from assms(1,2) have w': "wdb w' = (wdb w)\<lparr>dTests := update_where (\<lambda>t. tID t = tid \<and> tStatus t = StatusStarting)
      (test_to StatusCreated (dNow (wdb w))) (dTests (wdb w))\<rparr>"
    by (auto simp: roll_back_def TryTransition_quiet)
  have "test_status tid (wdb w') = Some StatusCreated"
    using t by (intro test_status_to [where P = "\<lambda>t. tStatus t = StatusStarting" and d = "wdb w"]) (simp_all add: w')
  with w' show ?thesis by simp
qed

lemma StartTest_fails_quiet:
  assumes run: "TestService_StartTest (cpService (vulcan c)) pat tid w = (Inl err, w')"
    and "quiet w" "integrity (wdb w)" "test_status tid (wdb w) = Some StatusCreated"
  shows "test_status tid (wdb w') = Some StatusCreated \<and> dAssignments (wdb w') = dAssignments (wdb w)"
proof -
  let ?d = "wdb w"
  let ?d1 = "?d\<lparr>dTests := update_where (\<lambda>t. tID t = tid \<and> tStatus t = StatusCreated)
      (test_to StatusStarting (dNow ?d)) (dTests ?d)\<rparr>"
  let ?w1 = "w\<lparr>wdb := ?d1\<rparr>"
  from assms(4) obtain test where test: "find_row tID tid (dTests ?d) = Some test" "tStatus test = StatusCreated"
    by (auto simp: test_status_def)
  note row = find_row_Some [OF test(1)]
  have get: "TestRepo_GetTestByID tid w = (Inr test, w)"
    using assms(2) test by (simp add: GetTestByID_quiet)
  have claim: "TestRepo_TryTransitionStatus tid StatusCreated StatusStarting w = (Inr True, ?w1)"
    using assms(2) row test(2) by (auto simp: TryTransition_quiet)
  have starting: "test_status tid ?d1 = Some StatusStarting"
    using test by (intro test_status_to [where P = "\<lambda>t. tStatus t = StatusCreated"]) simp_all
  let ?body = "tryM (case RequiredWorkers (tRPS test) c of Inl err \<Rightarrow> failM err | Inr n \<Rightarrow> retM n)
      (\<lambda>n. tryM (TestRepo_UpdateWorkerCount tid n)
      (\<lambda>_. tryM (TestService_ensureWorkersAvailable (cpService (vulcan c)) pat n)
      (\<lambda>_. tryM (case DistributeRPS (tRPS test) n of Inl err \<Rightarrow> failM err | Inr allocs \<Rightarrow> retM allocs)
      (\<lambda>allocs. DefaultScheduler_AllocateWorkers (tID test) n allocs))))"
  obtain r2 w2 where body: "?body ?w1 = (r2, w2)" by fastforce
  have cap: "tsWorkerCapacityRPS (cpService (vulcan c)) = c" by (simp add: vulcan_def Let_def)
  have start: "TestService_StartTest (cpService (vulcan c)) pat tid w =
      tryM (catchM ?body (roll_back tid))
        (\<lambda>ws. tryM (TestRepo_UpdateStatus (tID test) StatusRunning) (\<lambda>_. retM ws)) ?w1"
    unfolding TestService_StartTest_def cap by (simp add: tryM_def get claim)
  show ?thesis
  proof (cases r2)
    case (Inl e)
    with start_body_fails [of test c tid pat ?w1 e w2] body assms(2)
    have w2: "quiet w2" "dAssignments (wdb w2) = dAssignments ?d" "test_status tid (wdb w2) = Some StatusStarting"
      using starting by simp_all
    obtain r3 :: "go_error + Worker list" and w3 where undone: "roll_back tid e w2 = (r3, w3)" by fastforce
    then obtain err' where "r3 = Inl err'" by (auto simp: roll_back_def split: prod.splits)
    with run start body Inl undone have "wdb w' = wdb w3" by (simp add: tryM_def catchM_def)
    with roll_back_quiet [OF undone w2(1,3)] w2(2) show ?thesis by simp
  next
    case (Inr ws)
    have "calm ?body"
      unfolding DefaultScheduler_AllocateWorkers_def
      by (auto split: sum.split intro!: calm_intros calm_repo calm_ensure)
    from calmD [OF this _ body] assms(2) have q2: "quiet w2" by simp
    have "keeps same_tests ?body"
      unfolding DefaultScheduler_AllocateWorkers_def
      by (auto split: sum.split intro!: same_tests.keeps_repo same_tests.keeps_vulcan_ensure)
    from keepsD [OF this _ body] assms(2) have "tID ` set (dTests ?d1) \<subseteq> tID ` set (dTests (wdb w2))"
      by (simp add: same_tests_def)
    with row have "tid \<in> tID ` set (dTests (wdb w2))" by (auto simp: keys_update_where)
    with run start body Inr row q2 show ?thesis
      by (simp add: tryM_def catchM_def UpdateStatus_quiet retM_def)
  qed
qed

end
