(* ===== verification/Scenario.thy ===== *)
theory Scenario
  imports StartStop
begin

text \<open>
  A worked example, evaluated step by step on a quiet server: two workers register, test A needs both
  and starts, one of its workers finishes, test B starts on that worker, and A is stopped while B is
  still RESERVED there. Its states are the concrete inputs at which the properties are applied.
\<close>

section \<open>Rows\<close>

definition ex_worker :: "string \<Rightarrow> time \<Rightarrow> WorkerStatus \<Rightarrow> time \<Rightarrow> Worker" where
  "ex_worker i registered status updated =
     \<lparr>wID = i, wHostname = i, wVersion = ''1'', wStatus = status, wCPUCount = 4, wMemoryMB = 8192,
      wRegisteredAt = registered, wLastHeartbeat = registered, wUpdatedAt = updated\<rparr>"

definition ex_test :: "string \<Rightarrow> int \<Rightarrow> int \<Rightarrow> TestStatus \<Rightarrow> time \<Rightarrow> Test" where
  "ex_test i rps workers status updated =
     \<lparr>tID = i, tName = i, tStatus = status, tWorkerCount = workers, tTargetURL = ''u'', tMethod = ''GET'',
      tDurationSec = 60, tRPS = rps, tConcurrency = 10, tCreatedAt = 3, tUpdatedAt = updated\<rparr>"

definition ex_row :: "string \<Rightarrow> string \<Rightarrow> AssignmentStatus \<Rightarrow> time option \<Rightarrow> time option \<Rightarrow> TestWorker" where
  "ex_row tid wid status started completed =
     \<lparr>aTestID = tid, aWorkerID = wid, aStatus = status, aAssignedAt = 100, aStartedAt = started,
      aCompletedAt = completed, aRPS = 100\<rparr>"

definition ex_create :: "string \<Rightarrow> int \<Rightarrow> CreateTestRequest" where
  "ex_create name rps = \<lparr>crName = name, crWorkerCount = 0, crTargetURL = ''u'', crMethod = ''get'',
     crDurationSec = 60, crRPS = rps, crConcurrency = 10\<rparr>"

definition ex_register :: "string \<Rightarrow> RegisterWorkerRequest" where
  "ex_register host = \<lparr>rqHostname = host, rqVersion = ''1'', rqCPUCount = 4, rqMemoryMB = 8192\<rparr>"

definition ex_patience :: patience where
  "ex_patience = \<lparr>patTicks = 60, patErr = DeadlineExceeded\<rparr>"

definition ex_prov :: ProcessProvisioner where
  "ex_prov = \<lparr>ppBinaryPath = ''worker'', ppWorkingDir = ''/srv'', ppNatsURL = ''n'',
     ppControlPlaneURL = ''c'', ppEnviron = [], ppProcesses = (\<lambda>_. None), ppStarted = [],
     ppKilled = [], ppScript = []\<rparr>"

definition ex_world :: "db \<Rightarrow> ProcessProvisioner world" where
  "ex_world d = \<lparr>wdb = d, wscript = [], wprov = ex_prov\<rparr>"

lemmas ex_row_defs = ex_worker_def ex_test_def ex_row_def

section \<open>States\<close>

definition ex_empty :: db where
  "ex_empty = empty_db\<lparr>dNow := 100\<rparr>"

definition ex_fleet :: db where
  "ex_fleet = ex_empty\<lparr>dWorkers := [ex_worker ''v'' 1 WorkerStatusIdle 1, ex_worker ''w'' 2 WorkerStatusIdle 2]\<rparr>"

definition ex_created :: db where
  "ex_created = ex_fleet\<lparr>dTests := [ex_test ''A'' 200 2 StatusCreated 3]\<rparr>"

definition ex_started :: db where
  "ex_started = ex_created\<lparr>
     dTests := [ex_test ''A'' 200 2 StatusRunning 100],
     dWorkers := [ex_worker ''v'' 1 WorkerStatusReserved 100, ex_worker ''w'' 2 WorkerStatusReserved 100],
     dAssignments := [ex_row ''A'' ''w'' AssignmentStatusReserved None None,
                      ex_row ''A'' ''v'' AssignmentStatusReserved None None]\<rparr>"

definition ex_running :: db where
  "ex_running = ex_started\<lparr>
     dWorkers := [ex_worker ''v'' 1 WorkerStatusRunning 100, ex_worker ''w'' 2 WorkerStatusRunning 100],
     dAssignments := [ex_row ''A'' ''w'' AssignmentStatusRunning (Some 100) None,
                      ex_row ''A'' ''v'' AssignmentStatusRunning (Some 100) None]\<rparr>"

definition ex_half :: db where
  "ex_half = ex_running\<lparr>
     dTests := [ex_test ''A'' 200 2 StatusRunning 100, ex_test ''B'' 100 1 StatusCreated 3],
     dWorkers := [ex_worker ''v'' 1 WorkerStatusRunning 100, ex_worker ''w'' 2 WorkerStatusIdle 100],
     dAssignments := [ex_row ''A'' ''w'' AssignmentStatusCompleted (Some 100) (Some 100),
                      ex_row ''A'' ''v'' AssignmentStatusRunning (Some 100) None]\<rparr>"

definition ex_shared :: db where
  "ex_shared = ex_half\<lparr>
     dTests := [ex_test ''A'' 200 2 StatusRunning 100, ex_test ''B'' 100 1 StatusRunning 100],
     dWorkers := [ex_worker ''v'' 1 WorkerStatusRunning 100, ex_worker ''w'' 2 WorkerStatusReserved 100],
     dAssignments := [ex_row ''A'' ''w'' AssignmentStatusCompleted (Some 100) (Some 100),
                      ex_row ''A'' ''v'' AssignmentStatusRunning (Some 100) None,
                      ex_row ''B'' ''w'' AssignmentStatusReserved None None]\<rparr>"

definition ex_double :: db where
  "ex_double = ex_shared\<lparr>
     dTests := [ex_test ''A'' 200 2 StatusStopped 100, ex_test ''B'' 100 1 StatusRunning 100],
     dWorkers := [ex_worker ''v'' 1 WorkerStatusRunning 100, ex_worker ''w'' 2 WorkerStatusIdle 100],
     dAssignments := [ex_row ''A'' ''w'' AssignmentStatusCompleted (Some 100) (Some 100),
                      ex_row ''A'' ''v'' AssignmentStatusCompleted (Some 100) (Some 100),
                      ex_row ''B'' ''w'' AssignmentStatusReserved None None]\<rparr>"

lemmas ex_db_defs =
  ex_empty_def empty_db_def ex_fleet_def ex_created_def ex_started_def ex_running_def ex_half_def
  ex_shared_def ex_double_def

section \<open>Steps\<close>

lemmas ex_eval =
  io_defs quiet_simps forget_def Let_def in_tx_def next_event_quiet quiet_event_def
  update_where_def count_where_def find_row_def in_int4_def max_int4_def ex_row_defs ex_world_def

lemma ex_trim: "TrimSpace ''v'' = ''v''" "TrimSpace ''w'' = ''w''" "TrimSpace ''A'' = ''A''"
  "TrimSpace ''B'' = ''B''" "TrimSpace ''1'' = ''1''" "TrimSpace ''u'' = ''u''"
  "TrimSpace ''get'' = ''get''" "TrimSpace ''GET'' = ''GET''"
  by (rule TrimSpace_visible; simp add: visible_def)+

lemma ex_upper: "ToUpper ''get'' = ''GET''" "ToUpper ''GET'' = ''GET''"
  by (code_simp, code_simp)

lemmas ex_strings = ex_trim ex_upper

lemma ex_required: "RequiredWorkers 200 100 = Inr 2" "RequiredWorkers 100 100 = Inr 1"
  "DistributeRPS 200 2 = Inr [100, 100]" "DistributeRPS 100 1 = Inr [100]"
  by (code_simp, code_simp, code_simp, code_simp)

lemma ex_fields: "Required f ''v'' = None" "Required f ''w'' = None" "Required f ''A'' = None"
  "Required f ''B'' = None" "Required f ''1'' = None" "Required f ''u'' = None"
  by (simp_all add: Required_def ex_strings)

lemma vulcan_capacity: "tsWorkerCapacityRPS (cpService (vulcan c)) = c"
  by (simp add: vulcan_def Let_def)

lemmas ex_service = ex_strings ex_required ex_fields vulcan_capacity

lemmas ex_register_defs =
  ex_register_def WorkerService_RegisterWorker_def WorkerRepo_CreateWorker_def sql_insert_worker_def

lemmas ex_create_defs =
  ex_create_def TestService_CreateTest_def TestRepo_CreateTest_def sql_insert_test_def

lemma ex_register_step:
  "run_operations (vulcan 100) [RegisterWorkerOp ''v'' 1 (ex_register ''v''),
     RegisterWorkerOp ''w'' 2 (ex_register ''w'')] (ex_world ex_empty) = ex_world ex_fleet"
  by (simp add: ex_eval ex_service ex_register_defs ex_db_defs)

lemma ex_create_step:
  "run_operation (vulcan 100) (CreateTestOp ''A'' 3 (ex_create ''A'' 200)) (ex_world ex_fleet) =
   (Inr (), ex_world ex_created)"
  by (simp add: ex_eval ex_service ex_create_defs ex_db_defs)

definition ex_reserved :: "Worker list" where
  "ex_reserved = [ex_worker ''w'' 2 WorkerStatusReserved 2, ex_worker ''v'' 1 WorkerStatusReserved 1]"

lemma ex_start_step:
  "TestService_StartTest (cpService (vulcan 100)) ex_patience ''A'' (ex_world ex_created) =
   (Inr ex_reserved, ex_world ex_started)"
proof -
  have idle: "idle_by_heartbeat ex_created =
      [ex_worker ''w'' 2 WorkerStatusIdle 2, ex_worker ''v'' 1 WorkerStatusIdle 1]"
    by (simp add: idle_by_heartbeat_def ex_db_defs ex_row_defs)
  have "TestService_StartTest (cpService (vulcan 100)) ex_patience ''A'' (ex_world ex_created) =
    (Inr (map (\<lambda>w. w\<lparr>wStatus := WorkerStatusReserved\<rparr>) (idle_by_heartbeat ex_created)),
     (ex_world ex_created)\<lparr>wdb := started_db ''A'' (idle_by_heartbeat ex_created) [100, 100] ex_created\<rparr>)"
    by (rule StartTest_quiet [where t = "ex_test ''A'' 200 2 StatusCreated 3" and n = 2])
       (simp_all add: idle ex_world_def vulcan_capacity in_int4_def max_int4_def,
        simp_all add: ex_db_defs ex_row_defs ex_required integrity_def test_ok_def in_int4_def max_int4_def)
  then show ?thesis
    unfolding idle
    by (simp add: ex_reserved_def started_db_def reserved_db_def started_test_def worker_to_def assignment_row_def
        update_where_def ex_db_defs ex_row_defs ex_world_def)
qed

lemmas ex_assignment_defs =
  WorkerService_StartAssignment_def WorkerRepo_MarkAssignmentRunning_def mark_running_body_def
  WorkerService_CompleteAssignment_def WorkerRepo_MarkAssignmentCompleted_def mark_completed_body_def
  sql_assignment_running_def sql_assignment_completed_def set_assignment_def sql_worker_running_def
  sql_worker_idle_def set_worker_status_def sql_lock_test_def sql_has_incomplete_def

lemma ex_running_step:
  "run_operations (vulcan 100) [StartAssignmentOp ''A'' ''w'', StartAssignmentOp ''A'' ''v'']
     (ex_world ex_started) = ex_world ex_running"
  by (simp add: ex_eval ex_assignment_defs ex_db_defs)

lemma ex_half_step:
  "run_operations (vulcan 100) [CompleteAssignmentOp ''A'' ''w'', CreateTestOp ''B'' 3 (ex_create ''B'' 100)]
     (ex_world ex_running) = ex_world ex_half"
  by (simp add: ex_eval ex_service ex_create_defs ex_assignment_defs ex_db_defs)

lemma ex_shared_step:
  "TestService_StartTest (cpService (vulcan 100)) ex_patience ''B'' (ex_world ex_half) =
   (Inr [ex_worker ''w'' 2 WorkerStatusReserved 100], ex_world ex_shared)"
proof -
  have idle: "idle_by_heartbeat ex_half = [ex_worker ''w'' 2 WorkerStatusIdle 100]"
    by (simp add: idle_by_heartbeat_def ex_db_defs ex_row_defs)
  have "TestService_StartTest (cpService (vulcan 100)) ex_patience ''B'' (ex_world ex_half) =
    (Inr (map (\<lambda>w. w\<lparr>wStatus := WorkerStatusReserved\<rparr>) (idle_by_heartbeat ex_half)),
     (ex_world ex_half)\<lparr>wdb := started_db ''B'' (idle_by_heartbeat ex_half) [100] ex_half\<rparr>)"
    by (rule StartTest_quiet [where t = "ex_test ''B'' 100 1 StatusCreated 3" and n = 1])
       (simp_all add: idle ex_world_def vulcan_capacity in_int4_def max_int4_def,
        simp_all add: ex_db_defs ex_row_defs ex_required integrity_def test_ok_def assignment_ok_def
          akey_def in_int4_def max_int4_def)
  then show ?thesis
    unfolding idle
    by (simp add: started_db_def reserved_db_def started_test_def worker_to_def assignment_row_def
        update_where_def ex_db_defs ex_row_defs ex_world_def)
qed

lemma ex_double_step:
  "TestService_StopTest ''A'' (ex_world ex_shared) = (Inr (), ex_world ex_double)"
  by (simp add: ex_eval TestService_StopTest_def TestRepo_defs test_sql_defs
      WorkerRepo_ReleaseWorkersForTest_def release_body_def sql_select_assigned_def
      sql_release_workers_def sql_release_assignments_def set_worker_status_def set_assignment_def
      active_assignment_def ex_db_defs)

lemma ex_integrity: "integrity ex_created" "integrity ex_half" "integrity ex_shared" "integrity ex_double"
  by (simp_all add: integrity_def test_ok_def assignment_ok_def akey_def in_int4_def max_int4_def
      ex_db_defs ex_row_defs)

end
