(* ===== verification/Guarantees.thy ===== *)
theory Guarantees
  imports Scenario
begin

text \<open>
  The properties of the control plane's operations, applied to the states of the worked example.
\<close>

section \<open>Starting a test\<close>

lemma env_ok_quiet_reaches [simp]: "env_ok reaches (ex_world d)"
  by (simp add: ex_world_def)

text \<open>A reservation, written out: the rows of the chosen workers and the new assignments.\<close>

lemma reserve_post_rows:
  assumes "reserve_post tid n allocs d d' ws"
  obtains sel rows where
    "set sel \<subseteq> {v \<in> set (dWorkers d). wStatus v = WorkerStatusIdle}" "distinct (map wID sel)"
    "int (length sel) = n" "ws = map (\<lambda>v. v\<lparr>wStatus := WorkerStatusReserved\<rparr>) sel"
    "map aWorkerID rows = map wID sel" "map aRPS rows = allocs"
    "\<forall>a\<in>set rows. aTestID a = tid \<and> aStatus a = AssignmentStatusReserved \<and> aAssignedAt a = dNow d \<and>
       aStartedAt a = None \<and> aCompletedAt a = None"
    "d' = d\<lparr>dWorkers := map (\<lambda>v. if wID v \<in> wID ` set sel
         then v\<lparr>wStatus := WorkerStatusReserved, wUpdatedAt := dNow d\<rparr> else v) (dWorkers d),
       dAssignments := dAssignments d @ rows\<rparr>"
proof -
  from assms obtain sel where
    sel: "set sel \<subseteq> {w \<in> set (dWorkers d). wStatus w = WorkerStatusIdle}" "distinct (map wID sel)"
      "int (length sel) = n" "ws = map (\<lambda>w. w\<lparr>wStatus := WorkerStatusReserved\<rparr>) sel" and
    len: "length allocs = length sel" and
    d': "d' = d\<lparr>dWorkers := update_where (\<lambda>w. wID w \<in> wID ` set sel)
                  (worker_to WorkerStatusReserved (dNow d)) (dWorkers d),
                dAssignments := dAssignments d @ map (assignment_row tid (dNow d)) (zip sel allocs)\<rparr>"
    unfolding reserve_post_def Let_def by blast
  have "map aWorkerID (map (assignment_row tid (dNow d)) (zip sel allocs)) = map wID sel"
    "map aRPS (map (assignment_row tid (dNow d)) (zip sel allocs)) = allocs"
    using len by (induction allocs sel rule: list_induct2) (simp_all add: assignment_row_def)
  moreover have "\<forall>a\<in>set (map (assignment_row tid (dNow d)) (zip sel allocs)). aTestID a = tid \<and>
      aStatus a = AssignmentStatusReserved \<and> aAssignedAt a = dNow d \<and> aStartedAt a = None \<and> aCompletedAt a = None"
    by (auto simp: assignment_row_def)
  ultimately show thesis
    using d' unfolding update_where_def worker_to_def by (rule that [OF sel])
qed


lemma wdb_ex_world [simp]: "wdb (ex_world d) = d" "quiet (ex_world d)"
  by (simp_all add: ex_world_def)


lemma StartTest_able:
  assumes "integrity d" "t \<in> set (dTests d)" "tID t = tid" "tStatus t = StatusCreated"
    and "RequiredWorkers (tRPS t) c = Inr n" "c \<le> max_int4"
    and "n \<le> int (length (idle_by_heartbeat d))" "tid \<notin> aTestID ` set (dAssignments d)"
  shows "\<exists>allocs. startable d tid t n allocs \<and> DistributeRPS (tRPS t) n = Inr allocs \<and>
    sum_list allocs = tRPS t \<and> (\<forall>q\<in>set allocs. 1 \<le> q \<and> q \<le> c)"
proof -
  have rps: "in_int4 (tRPS t)" using assms(1,2) by (auto simp: integrity_def test_ok_def)
  with assms(6) have small: "tRPS t + c \<le> max_int"
    by (simp add: in_int4_def max_int4_def max_int_def)
  from DistributeRPS_required [OF assms(5) small] obtain allocs where
    allocs: "DistributeRPS (tRPS t) n = Inr allocs" "length allocs = nat n"
      "\<forall>q\<in>set allocs. 1 \<le> q \<and> q \<le> c" "sum_list allocs = tRPS t"
    by blast
  from RequiredWorkers_InrD [OF assms(5)] have pos: "0 < tRPS t" "0 < c" by simp_all
  with assms(5) small have n: "n = ceil_div (tRPS t) c"
    using RequiredWorkers_eq [of "tRPS t" c] by simp
  have "0 < n" "in_int4 n"
    using ceil_div_pos [OF pos] ceil_div_le [OF pos] rps by (auto simp: n in_int4_def max_int4_def)
  moreover have "\<forall>q\<in>set allocs. in_int4 q"
    using allocs(3) assms(6) by (auto simp: in_int4_def max_int4_def)
  ultimately show ?thesis using assms allocs by (auto simp: startable_def)
qed

lemma StartTest_exact:
  assumes "quiet w" "integrity (wdb w)" "t \<in> set (dTests (wdb w))" "tID t = tid" "tStatus t = StatusCreated"
    and "RequiredWorkers (tRPS t) (tsWorkerCapacityRPS s) = Inr n" "tsWorkerCapacityRPS s \<le> max_int4"
    and "n \<le> int (length (idle_by_heartbeat (wdb w)))" "tid \<notin> aTestID ` set (dAssignments (wdb w))"
  shows "\<exists>allocs. DistributeRPS (tRPS t) n = Inr allocs \<and> length allocs = nat n \<and> 0 < n \<and>
    sum_list allocs = tRPS t \<and> (\<forall>q\<in>set allocs. 1 \<le> q \<and> q \<le> tsWorkerCapacityRPS s) \<and>
    TestService_StartTest s pat tid w =
      (Inr (map (\<lambda>w. w\<lparr>wStatus := WorkerStatusReserved\<rparr>) (take (nat n) (idle_by_heartbeat (wdb w)))),
       w\<lparr>wdb := started_db tid (take (nat n) (idle_by_heartbeat (wdb w))) allocs (wdb w)\<rparr>)"
proof -
  from StartTest_able [OF assms(2-9)] obtain allocs where
    able: "startable (wdb w) tid t n allocs" and dist: "DistributeRPS (tRPS t) n = Inr allocs" and
    sums: "sum_list allocs = tRPS t" "\<forall>q\<in>set allocs. 1 \<le> q \<and> q \<le> tsWorkerCapacityRPS s" by blast
  from able have "length allocs = nat n" "\<forall>q\<in>set allocs. in_int4 q" "0 < n" "in_int4 n"
    by (simp_all add: startable_def)
  with StartTest_quiet [OF assms(1) refl assms(2-6) dist this assms(8,9) refl, of pat] dist sums
  show ?thesis by blast
qed

text \<open>C9: a start that fails on a quiet server leaves the test CREATED, so it can be started again, and
  leaves every assignment as it was.\<close>

theorem StartTest_rolls_back:
  assumes "TestService_StartTest (cpService (vulcan c)) pat tid w = (Inl err, w')"
    and "quiet w" "integrity (wdb w)" "test_status tid (wdb w) = Some StatusCreated"
  shows "test_status tid (wdb w') = Some StatusCreated \<and> dAssignments (wdb w') = dAssignments (wdb w)"
  using assms by (rule StartTest_fails_quiet)

text \<open>With no worker at all: two processes are started, none registers in time.\<close>

definition ex_alone :: db where
  "ex_alone = ex_created\<lparr>dWorkers := []\<rparr>"

lemmas ex_reconcile_defs =
  TestService_ensureWorkersAvailable_def Reconciler_Reconcile_def Reconciler_scaleUp_def liftE_def
  vulcan_def WorkerRepo_GetWorkers_def sql_select_workers_def DesiredCapacity_def PendingCapacity_def
  isActiveTest_def count_idle_def process_provisioner_def lift_prov_def ProcessProvisioner_Provision_def
  next_os_def quiet_os_def wrap64_def

lemma ex_alone_fails:
  "fst (TestService_StartTest (cpService (vulcan 100)) \<lparr>patTicks = 1, patErr = DeadlineExceeded\<rparr> ''A''
     (ex_world ex_alone)) = Inl DeadlineExceeded"
  by (simp add: ex_eval ex_required TestService_StartTest_def TestRepo_defs test_sql_defs ex_reconcile_defs
      roll_back_def ex_alone_def ex_db_defs ex_prov_def upto_rec1)

theorem StartTest_rolls_back_witness:
  "\<exists>w'. TestService_StartTest (cpService (vulcan 100)) \<lparr>patTicks = 1, patErr = DeadlineExceeded\<rparr> ''A''
     (ex_world ex_alone) = (Inl DeadlineExceeded, w') \<and> test_status ''A'' (wdb w') = Some StatusCreated"
proof -
  obtain w' where run: "TestService_StartTest (cpService (vulcan 100)) \<lparr>patTicks = 1, patErr = DeadlineExceeded\<rparr>
      ''A'' (ex_world ex_alone) = (Inl DeadlineExceeded, w')"
    using ex_alone_fails by (metis prod.collapse)
  have "integrity ex_alone" "test_status ''A'' ex_alone = Some StatusCreated"
    by (simp_all add: ex_alone_def integrity_def test_ok_def in_int4_def max_int4_def test_status_def
        find_row_def ex_db_defs ex_row_defs)
  with StartTest_rolls_back [OF run] run show ?thesis by simp
qed

text \<open>A start whose claim finds the test in any other status than CREATED, because an earlier or a
  concurrent start, or a stop, came first, is refused with ErrInvalidTestState and writes nothing.
  The events are those of its two round trips, with what other clients committed before each.\<close>

theorem StartTest_refused:
  assumes "wscript w = e1 # e2 # es" "ev_out e1 = Done" "ev_out e2 = Done"
    and "tid \<in> tID ` set (dTests (ev_env e1 (wdb w)))"
    and "\<forall>t\<in>set (dTests (ev_env e2 (ev_env e1 (wdb w)))). tID t = tid \<longrightarrow> tStatus t \<noteq> StatusCreated"
  shows "TestService_StartTest s pat tid w =
    (Inl ErrInvalidTestState, w\<lparr>wdb := ev_env e2 (ev_env e1 (wdb w)), wscript := es\<rparr>)"
proof -
  let ?d2 = "ev_env e2 (ev_env e1 (wdb w))"
  from assms(4) obtain t where t: "find_row tID tid (dTests (ev_env e1 (wdb w))) = Some t"
    by (metis find_row_None not_Some_eq)
  have none: "update_where (\<lambda>t. tID t = tid \<and> tStatus t = StatusCreated) f (dTests ?d2) = dTests ?d2" for f
    using assms(5) by (intro update_where_none) auto
  have zero: "count_where (\<lambda>t. tID t = tid \<and> tStatus t = StatusCreated) (dTests ?d2) = 0"
    using assms(5) by (auto simp: count_where_zero)
  show ?thesis
    using assms(1-3) t none zero
    by (simp add: TestService_StartTest_def TestRepo_GetTestByID_def TestRepo_TryTransitionStatus_def
        io_defs pool_stmt_def next_event_def sql_select_test_def sql_transition_status_def)
qed

definition ex_claimed :: db where
  "ex_claimed = ex_created\<lparr>dTests := [ex_test ''A'' 200 2 StatusStarting 100]\<rparr>"

theorem StartTest_refused_witness:
  "TestService_StartTest (cpService (vulcan 100)) ex_patience ''A''
     ((ex_world ex_created)\<lparr>wscript := [quiet_event, quiet_event\<lparr>ev_env := \<lambda>_. ex_claimed\<rparr>]\<rparr>) =
   (Inl ErrInvalidTestState, ex_world ex_claimed)"
  using StartTest_refused [of "(ex_world ex_created)\<lparr>wscript := [quiet_event, quiet_event\<lparr>ev_env := \<lambda>_. ex_claimed\<rparr>]\<rparr>"
      quiet_event "quiet_event\<lparr>ev_env := \<lambda>_. ex_claimed\<rparr>" "[]" "''A''" "cpService (vulcan 100)" ex_patience]
  by (simp add: quiet_event_def ex_claimed_def ex_world_def ex_db_defs ex_row_defs)

end
