(* ===== verification/Reservations.thy ===== *)
theory Reservations
  imports Guarantees
begin

text \<open>
  Properties of reservations and of the transactions that end them: who holds a worker, what one
  transaction may leave behind when a round trip fails, and the release that frees too much.
\<close>

section \<open>Exclusive reservation\<close>

text \<open>C7: while other clients release no test's workers, every operation but stopping a test keeps
  reservations exclusive: a worker has at most one RESERVED assignment, and a worker with one is
  RESERVED itself (or OFFLINE), so no other start and no scale-down can take it.\<close>

theorem operations_keep_exclusive:
  assumes "env_ok exclusive_step w" "integrity (wdb w)" "exclusive (wdb w)" "\<forall>tid. x \<noteq> StopTestOp tid"
  shows "exclusive (wdb (snd (run_operation (vulcan c) x w)))"
proof -
  have "exclusive_step (wdb w) (wdb (snd (run_operation (vulcan c) x w)))"
    using exclusion.keeps_operation_but_stop [OF assms(4), of c] assms(1) by (simp add: keeps_def)
  with assms(2,3) show ?thesis by (simp add: exclusive_step_def)
qed

lemma ex_exclusive: "exclusive ex_half" "exclusive ex_shared"
  by (simp_all add: exclusive_def holds_reservation_def akey_def ex_db_defs ex_row_defs)

theorem operations_keep_exclusive_witness:
  "exclusive (wdb (snd (run_operation (vulcan 100) (StartTestOp ex_patience ''B'') (ex_world ex_half))))"
  by (rule operations_keep_exclusive) (simp_all add: ex_exclusive ex_integrity)

text \<open>The stop of a test on a quiet server.\<close>

definition released_db :: "string \<Rightarrow> db \<Rightarrow> db" where
  "released_db tid d = d\<lparr>
     dWorkers := update_where
       (\<lambda>w. (tid, wID w) \<in> akey ` set (dAssignments d) \<and> wStatus w = WorkerStatusReserved)
       (worker_to WorkerStatusIdle (dNow d)) (dWorkers d),
     dAssignments := update_where (\<lambda>a. aTestID a = tid \<and> active_assignment a)
       (assignment_done AssignmentStatusCompleted (dNow d)) (dAssignments d)\<rparr>"

lemma Release_quiet:
  assumes "quiet w"
  shows "WorkerRepo_ReleaseWorkersForTest tid w = (Inr (), w\<lparr>wdb := released_db tid (wdb w)\<rparr>)"
proof -
  obtain r w' where run: "WorkerRepo_ReleaseWorkersForTest tid w = (r, w')" by fastforce
  have "\<exists>wr u w2. release_body tid w = (Inr (wr, u), w2) \<and> quiet w2 \<and> w2 = w\<lparr>wdb := wdb w2\<rparr>"
    using assms
    by (cases "filter (\<lambda>a. aTestID a = tid) (dAssignments (wdb w)) = []")
       (simp_all add: release_body_def io_defs quiet_simps sql_select_assigned_def sql_release_workers_def
        sql_release_assignments_def set_assignment_def set_worker_status_def)
  then obtain wr u w2 where b: "release_body tid w = (Inr (wr, u), w2)" "quiet w2" "w2 = w\<lparr>wdb := wdb w2\<rparr>"
    by blast
  from release_body_post [OF b(1)] have "wdb w2 = released_db tid (wdb w)"
    by (simp add: release_post_def released_db_def)
  with b assms show ?thesis
    by (simp add: WorkerRepo_ReleaseWorkersForTest_def in_tx_def next_event_quiet quiet_event_def)
qed

lemma StopTest_quiet:
  assumes "quiet w" "test_status tid (wdb w) = Some st"
  shows "TestService_StopTest tid w =
    (if st = StatusStopped \<or> st = StatusCompleted \<or> st = StatusFailed then (Inr (), w)
     else (Inr (), w\<lparr>wdb := (released_db tid (wdb w))\<lparr>dTests :=
       update_where (\<lambda>t. tID t = tid) (test_to StatusStopped (dNow (wdb w)))
         (update_where (\<lambda>t. tID t = tid \<and> tStatus t = st) (test_to StatusStopping (dNow (wdb w)))
           (dTests (wdb w)))\<rparr>\<rparr>))"
proof -
  from assms(2) obtain t where t: "find_row tID tid (dTests (wdb w)) = Some t" "tStatus t = st"
    by (auto simp: test_status_def)
  let ?ts = "update_where (\<lambda>t. tID t = tid \<and> tStatus t = st) (test_to StatusStopping (dNow (wdb w))) (dTests (wdb w))"
  let ?w1 = "w\<lparr>wdb := (wdb w)\<lparr>dTests := ?ts\<rparr>\<rparr>"
  have rel: "WorkerRepo_ReleaseWorkersForTest tid ?w1 = (Inr (), ?w1\<lparr>wdb := released_db tid (wdb ?w1)\<rparr>)"
    using assms(1) by (intro Release_quiet) simp
  have tests: "dTests (released_db tid d) = dTests d" "dNow (released_db tid d) = dNow d" for d
    by (simp_all add: released_db_def)
  have member: "tid \<in> tID ` set ?ts"
    using find_row_Some [OF t(1)] by (simp add: keys_update_where) blast
  have upd: "TestRepo_UpdateStatus tid StatusStopped (?w1\<lparr>wdb := released_db tid (wdb ?w1)\<rparr>) =
    (Inr (), w\<lparr>wdb := (released_db tid (wdb ?w1))\<lparr>dTests := update_where (\<lambda>t. tID t = tid) (test_to StatusStopped (dNow (wdb w))) ?ts\<rparr>\<rparr>)"
    using assms(1) member tests by (subst UpdateStatus_quiet) simp_all
  have eq: "(released_db tid (wdb ?w1))\<lparr>dTests := X\<rparr> = (released_db tid (wdb w))\<lparr>dTests := X\<rparr>" for X
    by (simp add: released_db_def)
  show ?thesis
    using assms(1) t rel upd eq
    by (simp add: TestService_StopTest_def tryM_def retM_def GetTestByID_quiet TryTransition_quiet)
qed

text \<open>C25: stopping a test on a quiet server. A test that is STOPPED, COMPLETED or FAILED stays as it is.
  Any other becomes STOPPED, none of its assignments stays RESERVED or RUNNING, no worker of it stays
  RESERVED, and a worker of the test that was not RESERVED, one that is RUNNING it for instance, keeps
  its status.\<close>

theorem StopTest_effect:
  assumes "quiet w" "test_status tid (wdb w) = Some st" "TestService_StopTest tid w = (r, w')"
  shows "r = Inr () \<and>
    (st \<in> {StatusStopped, StatusCompleted, StatusFailed} \<longrightarrow> wdb w' = wdb w) \<and>
    (st \<notin> {StatusStopped, StatusCompleted, StatusFailed} \<longrightarrow>
       test_status tid (wdb w') = Some StatusStopped \<and>
       (\<forall>a\<in>set (dAssignments (wdb w')). aTestID a = tid \<longrightarrow> \<not> active_assignment a) \<and>
       (\<forall>v\<in>set (dWorkers (wdb w')). (tid, wID v) \<in> akey ` set (dAssignments (wdb w)) \<longrightarrow>
          wStatus v \<noteq> WorkerStatusReserved) \<and>
       (\<forall>v\<in>set (dWorkers (wdb w)). wStatus v \<noteq> WorkerStatusReserved \<longrightarrow> v \<in> set (dWorkers (wdb w'))))"
proof (cases "st \<in> {StatusStopped, StatusCompleted, StatusFailed}")
  case True
  with StopTest_quiet [OF assms(1,2)] assms(3) show ?thesis by auto
next
  case False
  let ?d = "wdb w"
  let ?ts = "update_where (\<lambda>t. tID t = tid \<and> tStatus t = st) (test_to StatusStopping (dNow ?d)) (dTests ?d)"
  from StopTest_quiet [OF assms(1,2)] assms(3) False have r: "r = Inr ()" and
    w': "wdb w' = (released_db tid ?d)\<lparr>dTests := update_where (\<lambda>t. tID t = tid) (test_to StatusStopped (dNow ?d)) ?ts\<rparr>"
    by auto
  from assms(2) obtain t where t: "find_row tID tid (dTests ?d) = Some t" by (auto simp: test_status_def)
  note key = find_row_key [OF this]
  have "test_status tid (wdb w') = Some StatusStopped"
    using t key by (simp add: w' test_status_def find_row_update_where)
  moreover have "\<not> active_assignment a" if "a \<in> set (dAssignments (wdb w'))" "aTestID a = tid" for a
  proof -
    from that(1) have "a \<in> set (update_where (\<lambda>a. aTestID a = tid \<and> active_assignment a)
       (assignment_done AssignmentStatusCompleted (dNow ?d)) (dAssignments ?d))"
      by (simp add: w' released_db_def)
    then show ?thesis
      by (rule in_update_whereE) (use that(2) in \<open>auto simp: active_assignment_def\<close>)
  qed
  moreover have "wStatus v \<noteq> WorkerStatusReserved"
    if "v \<in> set (dWorkers (wdb w'))" "(tid, wID v) \<in> akey ` set (dAssignments ?d)" for v
  proof -
    from that(1) have "v \<in> set (update_where
       (\<lambda>w. (tid, wID w) \<in> akey ` set (dAssignments ?d) \<and> wStatus w = WorkerStatusReserved)
       (worker_to WorkerStatusIdle (dNow ?d)) (dWorkers ?d))"
      by (simp add: w' released_db_def)
    then show ?thesis by (rule in_update_whereE) (use that(2) in simp_all)
  qed
  moreover have "v \<in> set (dWorkers (wdb w'))" if "v \<in> set (dWorkers ?d)" "wStatus v \<noteq> WorkerStatusReserved" for v
    using that by (simp add: w' released_db_def in_update_where_miss)
  ultimately show ?thesis using r False by blast
qed

lemma ex_shared_status: "test_status ''A'' ex_shared = Some StatusRunning"
  by (simp add: test_status_def find_row_def ex_db_defs ex_test_def)

theorem StopTest_effect_witness:
  "test_status ''A'' ex_double = Some StatusStopped \<and>
   filter (\<lambda>a. aTestID a = ''A'' \<and> active_assignment a) (dAssignments ex_double) = []"
  using StopTest_effect [OF _ _ ex_double_step] ex_shared_status by (simp add: filter_empty_conv)

text \<open>C33: the release of a test's workers looks at the status of every worker that ever had an
  assignment of the test. When such a worker is by now RESERVED for another test, stopping the first
  test makes it IDLE while the other test still has its RESERVED assignment: the reservation is lost,
  and the worker can be reserved again or drained.\<close>

theorem StopTest_steals_reservation:
  assumes "quiet w" "test_status tid (wdb w) = Some StatusRunning"
    and "v \<in> set (dWorkers (wdb w))" "wStatus v = WorkerStatusReserved"
    and "a \<in> set (dAssignments (wdb w))" "aTestID a = tid" "aWorkerID a = wID v" "\<not> active_assignment a"
    and "b \<in> set (dAssignments (wdb w))" "aTestID b \<noteq> tid" "aWorkerID b = wID v"
      "aStatus b = AssignmentStatusReserved"
  shows "\<exists>w' v'. TestService_StopTest tid w = (Inr (), w') \<and> b \<in> set (dAssignments (wdb w')) \<and>
    v' \<in> set (dWorkers (wdb w')) \<and> wID v' = wID v \<and> wStatus v' = WorkerStatusIdle \<and>
    \<not> exclusive (wdb w')"
proof -
  let ?d = "wdb w"
  let ?v = "worker_to WorkerStatusIdle (dNow ?d) v"
  obtain w' where run: "TestService_StopTest tid w = (Inr (), w')"
    and d': "dWorkers (wdb w') = dWorkers (released_db tid ?d)"
      "dAssignments (wdb w') = dAssignments (released_db tid ?d)"
    using StopTest_quiet [OF assms(1,2)] by simp
  have "akey a = (tid, wID v)" using assms(6,7) by (simp add: akey_def)
  then have "(tid, wID v) \<in> akey ` set (dAssignments ?d)" using assms(5) by (metis imageI)
  with assms(3,4) have v: "?v \<in> set (dWorkers (wdb w'))"
    by (simp add: d' released_db_def in_update_where_hit)
  have b: "b \<in> set (dAssignments (wdb w'))"
    using assms(9,10) by (simp add: d' released_db_def in_update_where_miss)
  have "\<not> exclusive (wdb w')"
  proof
    assume "exclusive (wdb w')"
    from exclusiveD(2) [OF this b assms(12) v] assms(11) show False
      by (simp add: holds_reservation_def)
  qed
  with run b v show ?thesis by (intro exI [of _ w'] exI [of _ ?v]) simp
qed

theorem StopTest_steals_reservation_witness:
  "exclusive ex_shared \<and> reaches ex_half ex_shared \<and>
   (\<exists>w' v'. TestService_StopTest ''A'' (ex_world ex_shared) = (Inr (), w') \<and>
     v' \<in> set (dWorkers (wdb w')) \<and> wID v' = ''w'' \<and> wStatus v' = WorkerStatusIdle \<and>
     \<not> exclusive (wdb w'))"
proof -
  have "reaches ex_half ex_shared"
    using keepsD [OF histories.keeps_vulcan_StartTest env_ok_quiet_reaches ex_shared_step] by simp
  then show ?thesis
    using StopTest_steals_reservation [of "ex_world ex_shared" "''A''" "ex_worker ''w'' 2 WorkerStatusReserved 100"
        "ex_row ''A'' ''w'' AssignmentStatusCompleted (Some 100) (Some 100)"
        "ex_row ''B'' ''w'' AssignmentStatusReserved None None"] ex_shared_status ex_exclusive(2)
    by (simp add: ex_db_defs ex_row_defs active_assignment_def) blast
qed

end
