(* ===== verification/Assignments.thy ===== *)
theory Assignments
  imports Reservations
begin

text \<open>
  Properties of the work on an assignment (reserving, starting, finishing it), of heartbeats and of
  the health sweep.
\<close>

section \<open>Transactions\<close>

text \<open>C6: reserving workers is all or nothing, whatever other clients commit and whichever round trip
  fails, a lost commit included: either the call fails and the database is what it found, or the whole
  reservation is made: as many distinct workers as asked for, each IDLE before, have become RESERVED, each
  has one new RESERVED assignment of the test, with the given rates in order, and no other row of any
  table has changed. When the call succeeds the second holds and it returns exactly these workers.\<close>

theorem Reserve_all_or_nothing:
  "\<exists>r w'. WorkerRepo_ReserveWorkersForTest tid n allocs w = (r, w') \<and>
    ((\<exists>err. r = Inl err) \<and> wdb w' = db_seen w \<or>
     (\<exists>sel rows. (r = Inr (map (\<lambda>v. v\<lparr>wStatus := WorkerStatusReserved\<rparr>) sel) \<or> (\<exists>err. r = Inl err)) \<and>
        set sel \<subseteq> {v \<in> set (dWorkers (db_seen w)). wStatus v = WorkerStatusIdle} \<and>
        distinct (map wID sel) \<and> int (length sel) = n \<and>
        map aWorkerID rows = map wID sel \<and> map aRPS rows = allocs \<and>
        (\<forall>a\<in>set rows. aTestID a = tid \<and> aStatus a = AssignmentStatusReserved \<and>
           aAssignedAt a = dNow (db_seen w) \<and> aStartedAt a = None \<and> aCompletedAt a = None) \<and>
        wdb w' = (db_seen w)\<lparr>
          dWorkers := map (\<lambda>v. if wID v \<in> wID ` set sel
            then v\<lparr>wStatus := WorkerStatusReserved, wUpdatedAt := dNow (db_seen w)\<rparr> else v) (dWorkers (db_seen w)),
          dAssignments := dAssignments (db_seen w) @ rows\<rparr>))"
proof -
  obtain r w' where run: "WorkerRepo_ReserveWorkersForTest tid n allocs w = (r, w')" by fastforce
  from reserve_tx.all_or_nothing [OF this [unfolded WorkerRepo_ReserveWorkersForTest_def]]
  consider "(\<exists>err. r = Inl err) \<and> wdb w' = db_seen w"
    | ws where "reserve_post tid n allocs (db_seen w) (wdb w') ws" "r = Inr ws \<or> (\<exists>err. r = Inl err)"
    by blast
  then show ?thesis
  proof cases
    case 1
    with run show ?thesis by blast
  next
    case (2 ws)
    note result = run 2(2)
    from 2(1) show ?thesis
    proof (rule reserve_post_rows, goal_cases)
      case (1 sel rows)
      with result show ?case
        by - (rule exI [of _ r], rule exI [of _ w'], rule conjI, simp, rule disjI2, rule exI [of _ sel],
          rule exI [of _ rows], simp)
    qed
  qed
qed

theorem Reserve_all_or_nothing_witness:
  "\<exists>err w'. WorkerRepo_ReserveWorkersForTest ''A'' 3 [100, 100, 100] (ex_world ex_created) = (Inl err, w') \<and>
    wdb w' = ex_created"
proof -
  have ids: "wID ` set (dWorkers ex_created) = {''v'', ''w''}" by (simp add: ex_db_defs ex_worker_def)
  have few: False if "int (length sel) = 3" "distinct (map wID sel)"
    "set sel \<subseteq> {v \<in> set (dWorkers ex_created). wStatus v = WorkerStatusIdle}" for sel :: "Worker list"
  proof -
    have "set (map wID sel) \<subseteq> {''v'', ''w''}" using that(3) unfolding ids [symmetric] by auto
    then have "card (set (map wID sel)) \<le> card {''v'', ''w''}" by (intro card_mono) simp_all
    with that(1) distinct_card [OF that(2)] show False by simp
  qed
  have seen: "db_seen (ex_world ex_created) = ex_created" by (simp add: db_seen_quiet)
  from Reserve_all_or_nothing [of "''A''" 3 "[100, 100, 100]" "ex_world ex_created"]
  show ?thesis unfolding seen using few by blast
qed

text \<open>What a completion did to the status of each test.\<close>

lemma mark_completed_tests:
  assumes "mark_completed_post tid wid d d' u"
  shows "test_status i d' =
    (if i = tid \<and> test_status tid d = Some StatusRunning \<and>
        (\<forall>a\<in>set (dAssignments d'). aTestID a = tid \<longrightarrow> aStatus a = AssignmentStatusCompleted)
     then Some StatusCompleted else test_status i d)"
proof -
  let ?all = "\<forall>a\<in>set (dAssignments d'). aTestID a = tid \<longrightarrow> aStatus a = AssignmentStatusCompleted"
  have tests: "dTests d' = update_where (\<lambda>t. ?all \<and> tID t = tid \<and> tStatus t = StatusRunning)
      (test_to StatusCompleted (dNow d)) (dTests d)"
    using assms by (simp add: mark_completed_post_def Let_def)
  show ?thesis
  proof (cases "find_row tID i (dTests d)")
    case None
    then show ?thesis by (auto simp: test_status_def tests find_row_update_where)
  next
    case (Some t)
    with find_row_key [OF Some] show ?thesis
      by (auto simp: test_status_def tests find_row_update_where)
  qed
qed


definition ex_last :: db where
  "ex_last = ex_running\<lparr>
     dAssignments := [ex_row ''A'' ''w'' AssignmentStatusCompleted (Some 100) (Some 100),
                      ex_row ''A'' ''v'' AssignmentStatusRunning (Some 100) None]\<rparr>"

definition ex_finished :: db where
  "ex_finished = ex_running\<lparr>
     dTests := [ex_test ''A'' 200 2 StatusCompleted 100],
     dWorkers := [ex_worker ''v'' 1 WorkerStatusIdle 100, ex_worker ''w'' 2 WorkerStatusRunning 100],
     dAssignments := [ex_row ''A'' ''w'' AssignmentStatusCompleted (Some 100) (Some 100),
                      ex_row ''A'' ''v'' AssignmentStatusCompleted (Some 100) (Some 100)]\<rparr>"

lemma ex_finished_step:
  "WorkerRepo_MarkAssignmentCompleted ''A'' ''v'' (ex_world ex_last) = (Inr (), ex_world ex_finished)"
  by (simp add: ex_eval ex_assignment_defs sql_complete_test_def set_running_tests_def ex_db_defs
      ex_last_def ex_finished_def)


section \<open>Failures\<close>

text \<open>C35: a worker reports an assignment as failed. When the call succeeds the assignment is FAILED and
  a RUNNING test FAILED with it, but the row of the worker is not touched: a worker whose assignment
  failed before it started stays RESERVED, which no heartbeat can change.\<close>

theorem MarkAssignmentFailed_strands_worker:
  assumes "WorkerRepo_MarkAssignmentFailed tid wid w = (Inr u, w')"
  shows "dWorkers (wdb w') = dWorkers (db_seen w) \<and>
    (\<forall>a\<in>set (dAssignments (wdb w')). aTestID a = tid \<longrightarrow> aWorkerID a = wid \<longrightarrow> \<not> active_assignment a) \<and>
    (test_status tid (db_seen w) = Some StatusRunning \<longrightarrow> test_status tid (wdb w') = Some StatusFailed) \<and>
    (\<forall>st. heartbeat_status st WorkerStatusReserved = WorkerStatusReserved)"
proof -
  from assms have post: "mark_failed_post tid wid (db_seen w) (wdb w') u"
    unfolding WorkerRepo_MarkAssignmentFailed_def by (rule failed_tx.on_success)
  let ?P = "\<lambda>a. aTestID a = tid \<and> aWorkerID a = wid \<and> active_assignment a"
  from post have as: "dAssignments (wdb w') = update_where ?P
      (assignment_done AssignmentStatusFailed (dNow (db_seen w))) (dAssignments (db_seen w))"
    and tests: "dTests (wdb w') = update_where (\<lambda>t. tID t = tid \<and> tStatus t = StatusRunning)
      (test_to StatusFailed (dNow (db_seen w))) (dTests (db_seen w))"
    and ws: "dWorkers (wdb w') = dWorkers (db_seen w)"
    by (simp_all add: mark_failed_post_def Let_def)
  have "\<not> ?P a" if "a \<in> set (dAssignments (wdb w'))" for a
    using that unfolding as by (rule in_update_whereE) (auto simp: active_assignment_def)
  moreover have "test_status tid (wdb w') = Some StatusFailed"
    if "test_status tid (db_seen w) = Some StatusRunning"
  proof -
    from that obtain t where "find_row tID tid (dTests (db_seen w)) = Some t" "tStatus t = StatusRunning"
      by (auto simp: test_status_def)
    then show ?thesis
      by (intro test_status_to [OF tests]) simp_all
  qed
  ultimately show ?thesis using ws by (auto simp: heartbeat_status_def)
qed

lemma ex_failed_step:
  "\<exists>w'. WorkerRepo_MarkAssignmentFailed ''A'' ''w'' (ex_world ex_started) = (Inr (), w')"
  by (simp add: ex_eval WorkerRepo_MarkAssignmentFailed_def mark_failed_body_def sql_assignment_failed_def
      set_assignment_def sql_fail_test_def set_running_tests_def active_assignment_def ex_db_defs)

theorem MarkAssignmentFailed_strands_worker_witness:
  "\<exists>w'. WorkerRepo_MarkAssignmentFailed ''A'' ''w'' (ex_world ex_started) = (Inr (), w') \<and>
    ex_worker ''w'' 2 WorkerStatusReserved 100 \<in> set (dWorkers (wdb w')) \<and>
    test_status ''A'' (wdb w') = Some StatusFailed"
proof -
  from ex_failed_step obtain w' where
    run: "WorkerRepo_MarkAssignmentFailed ''A'' ''w'' (ex_world ex_started) = (Inr (), w')" by blast
  have "test_status ''A'' ex_started = Some StatusRunning"
    "ex_worker ''w'' 2 WorkerStatusReserved 100 \<in> set (dWorkers ex_started)"
    by (simp_all add: test_status_def find_row_def ex_db_defs ex_test_def)
  with MarkAssignmentFailed_strands_worker [OF run] run show ?thesis by simp
qed

section \<open>Heartbeats\<close>

text \<open>A heartbeat. A status that is not one of the four accepted strings is rejected before any
  statement; an unknown worker is ErrWorkerNotFound; otherwise exactly the worker's row changes: its
  timestamps, and its status only from IDLE or RUNNING.\<close>

theorem Heartbeat_effect:
  assumes "quiet w"
  shows "WorkerService_Heartbeat now wid reported w =
    (if reported \<notin> {''IDLE'', ''RESERVED'', ''RUNNING'', ''DRAINING''}
     then (Inl (ValidationFieldError ''status'' ''invalid worker status''), w)
     else if wid \<notin> wID ` set (dWorkers (wdb w)) then (Inl ErrWorkerNotFound, w)
     else (Inr (), w\<lparr>wdb := (wdb w)\<lparr>dWorkers := map (\<lambda>v.
        if wID v \<noteq> wid then v
        else if wStatus v = WorkerStatusIdle \<or> wStatus v = WorkerStatusRunning
        then v\<lparr>wStatus := (if reported = ''IDLE'' then WorkerStatusIdle
                          else if reported = ''RESERVED'' then WorkerStatusReserved
                          else if reported = ''RUNNING'' then WorkerStatusRunning
                          else WorkerStatusDraining), wLastHeartbeat := now, wUpdatedAt := now\<rparr>
        else v\<lparr>wLastHeartbeat := now, wUpdatedAt := now\<rparr>) (dWorkers (wdb w))\<rparr>\<rparr>))"
proof -
  have find: "List.find (\<lambda>s. worker_status_string s = reported) accepted_heartbeats =
    (if reported = ''IDLE'' then Some WorkerStatusIdle
     else if reported = ''RESERVED'' then Some WorkerStatusReserved
     else if reported = ''RUNNING'' then Some WorkerStatusRunning
     else if reported = ''DRAINING'' then Some WorkerStatusDraining else None)"
    by (auto simp: accepted_heartbeats_def)
  have upd: "WorkerRepo_UpdateHeartbeat wid st now w =
    (if wid \<notin> wID ` set (dWorkers (wdb w)) then (Inl ErrWorkerNotFound, w)
     else (Inr (), w\<lparr>wdb := (wdb w)\<lparr>dWorkers := map (\<lambda>v.
        if wID v \<noteq> wid then v
        else if wStatus v = WorkerStatusIdle \<or> wStatus v = WorkerStatusRunning
        then v\<lparr>wStatus := st, wLastHeartbeat := now, wUpdatedAt := now\<rparr>
        else v\<lparr>wLastHeartbeat := now, wUpdatedAt := now\<rparr>) (dWorkers (wdb w))\<rparr>\<rparr>))" for st
  proof (cases "wid \<in> wID ` set (dWorkers (wdb w))")
    case False
    then have "update_where (\<lambda>v. wID v = wid) f (dWorkers (wdb w)) = dWorkers (wdb w)" for f
      by (intro update_where_none) auto
    moreover from False have "count_where (\<lambda>v. wID v = wid) (dWorkers (wdb w)) = 0"
      by (auto simp: count_where_zero)
    ultimately show ?thesis
      using assms False by (simp add: WorkerRepo_UpdateHeartbeat_def io_defs quiet_simps sql_heartbeat_def)
  next
    case True
    then have "count_where (\<lambda>v. wID v = wid) (dWorkers (wdb w)) \<noteq> 0"
      by (auto simp: count_where_zero)
    moreover have "update_where (\<lambda>v. wID v = wid) (\<lambda>v. v\<lparr>wStatus := heartbeat_status st (wStatus v),
        wLastHeartbeat := now, wUpdatedAt := now\<rparr>) (dWorkers (wdb w)) = map (\<lambda>v.
        if wID v \<noteq> wid then v
        else if wStatus v = WorkerStatusIdle \<or> wStatus v = WorkerStatusRunning
        then v\<lparr>wStatus := st, wLastHeartbeat := now, wUpdatedAt := now\<rparr>
        else v\<lparr>wLastHeartbeat := now, wUpdatedAt := now\<rparr>) (dWorkers (wdb w))"
      by (auto simp: update_where_def heartbeat_status_def intro: WorkerStatus.exhaust)
    ultimately show ?thesis
      using assms True by (simp add: WorkerRepo_UpdateHeartbeat_def io_defs quiet_simps sql_heartbeat_def)
  qed
  show ?thesis
    by (simp add: WorkerService_Heartbeat_def find upd Invalid_def failM_def)
qed

theorem Heartbeat_effect_witness:
  "WorkerService_Heartbeat 200 ''w'' ''IDLE'' (ex_world ex_started) =
    (Inr (), ex_world (ex_started\<lparr>dWorkers := [ex_worker ''v'' 1 WorkerStatusReserved 100,
       (ex_worker ''w'' 2 WorkerStatusReserved 200)\<lparr>wLastHeartbeat := 200\<rparr>]\<rparr>))"
  using Heartbeat_effect [of "ex_world ex_started" 200 "''w''" "''IDLE''"]
  by (simp add: ex_db_defs ex_worker_def ex_world_def)

section \<open>The health sweep\<close>

lemma MarkOffline_quiet:
  assumes "quiet w"
  shows "WorkerRepo_MarkOfflineWorkers cutoff w =
    (Inr (count_where (\<lambda>v. wStatus v \<noteq> WorkerStatusOffline \<and> wLastHeartbeat v < cutoff) (dWorkers (wdb w))),
     w\<lparr>wdb := (wdb w)\<lparr>dWorkers := update_where
       (\<lambda>v. wStatus v \<noteq> WorkerStatusOffline \<and> wLastHeartbeat v < cutoff)
       (worker_to WorkerStatusOffline (dNow (wdb w))) (dWorkers (wdb w))\<rparr>\<rparr>)"
  using assms
  by (simp add: WorkerRepo_MarkOfflineWorkers_def io_defs quiet_simps sql_mark_offline_def
      set_worker_status_def worker_to_def [abs_def])

lemma FailOffline_quiet:
  assumes "quiet w"
  shows "\<exists>n w'. WorkerRepo_MarkAssignmentsFailedForOfflineWorkers w = (Inr n, w') \<and>
    fail_offline_post (wdb w) (wdb w') n \<and> quiet w'"
proof -
  have "\<exists>wr n w2. fail_offline_body w = (Inr (wr, n), w2) \<and> quiet w2"
    using assms
    by (simp add: fail_offline_body_def io_defs quiet_simps sql_fail_offline_assignments_def
        set_assignment_def sql_fail_tests_def set_running_tests_def Let_def)
  then obtain wr n w2 where b: "fail_offline_body w = (Inr (wr, n), w2)" "quiet w2" by blast
  with assms fail_offline_body_post [OF b(1)] show ?thesis
    by (simp add: WorkerRepo_MarkAssignmentsFailedForOfflineWorkers_def in_tx_def next_event_quiet
        quiet_event_def)
qed

lemma update_where_map:
  "(\<And>x. P x = Q x) \<Longrightarrow> (\<And>x. f x = g x) \<Longrightarrow> update_where P f xs = map (\<lambda>x. if Q x then g x else x) xs"
  by (simp add: update_where_def)



end
