(* ===== verification/Fleet.thy ===== *)
theory Fleet
  imports Guarantees
begin

text \<open>
  Properties of the fleet: what the process provisioner starts and kills, and what a reconciliation
  cycle does with it. The contract \<open>provisioner_contract\<close> is what the autoscaler relies on; the
  process provisioner meets it.
\<close>

section \<open>Draining on a quiet server\<close>

lemma Terminate_quiet:
  assumes "quiet w" "ids \<noteq> []"
  shows "WorkerRepo_TerminateIdleWorkers ids w =
    (let removed = map wID (filter (\<lambda>w. wID w \<in> set ids \<and> wStatus w = WorkerStatusIdle) (dWorkers (wdb w)))
     in (Inr removed, w\<lparr>wdb := (wdb w)\<lparr>dWorkers := update_where (\<lambda>w. wID w \<in> set removed)
          (worker_to WorkerStatusDraining (dNow (wdb w))) (dWorkers (wdb w))\<rparr>\<rparr>))"
proof -
  let ?removed = "map wID (filter (\<lambda>w. wID w \<in> set ids \<and> wStatus w = WorkerStatusIdle) (dWorkers (wdb w)))"
  have empty: "update_where (\<lambda>w. wID w \<in> set []) f ws = ws" for f :: "Worker \<Rightarrow> Worker" and ws
    by (simp add: update_where_none)
  show ?thesis
  proof (cases "?removed = []")
    case True
    with assms empty show ?thesis
      by (simp add: WorkerRepo_TerminateIdleWorkers_def in_tx_def next_event_quiet quiet_event_def
          terminate_body_def io_defs quiet_simps sql_select_removable_def Let_def)
  next
    case False
    with assms show ?thesis
      by (simp add: WorkerRepo_TerminateIdleWorkers_def in_tx_def next_event_quiet quiet_event_def
          terminate_body_def io_defs quiet_simps sql_select_removable_def sql_drain_workers_def
          set_worker_status_def worker_to_def [abs_def] Let_def)
  qed
qed

section \<open>The contract of a provisioner\<close>

locale provisioner_contract =
  fixes prov :: "'p provisioner"
    and started :: "'p \<Rightarrow> string list"
    and killed :: "'p \<Rightarrow> string list"
  assumes Provision_law: "Provision prov n w = (r, w') \<Longrightarrow>
      wdb w' = wdb w \<and> wscript w' = wscript w \<and> killed (wprov w') = killed (wprov w) \<and>
      (\<exists>hs. started (wprov w') = started (wprov w) @ hs \<and> int (length hs) \<le> max 0 n \<and>
         (r = Inr () \<longrightarrow> int (length hs) = max 0 n) \<and> distinct hs \<and>
         (\<forall>h\<in>set hs. isAutoscalerManagedWorker h))"
    and Terminate_law: "Terminate prov hosts w = (r, w') \<Longrightarrow>
      wdb w' = wdb w \<and> wscript w' = wscript w \<and> started (wprov w') = started (wprov w) \<and>
      (\<exists>ks. killed (wprov w') = killed (wprov w) @ ks \<and> set ks \<subseteq> set hosts)"
begin

text \<open>What a cycle reads on a quiet server.\<close>

lemma Reconcile_quiet:
  assumes "quiet w" "rProvisioner m = prov"
    and "DesiredCapacity (sort_key (\<lambda>t. - tCreatedAt t) (dTests (wdb w))) (rWorkerCapacity m) = Inr desired"
    and "PendingCapacity (sort_key (\<lambda>t. - tCreatedAt t) (dTests (wdb w))) (rWorkerCapacity m) = Inr pending"
    and "actual = count_where usable (dWorkers (wdb w))" "target = max desired pending"
    and "idle = filter (\<lambda>w. wStatus w = WorkerStatusIdle) (sort_key (\<lambda>w. - wRegisteredAt w) (dWorkers (wdb w)))"
  shows "Reconciler_Reconcile m w =
    (if actual < target then Reconciler_scaleUp m (target - actual) w
     else if actual > target then Reconciler_scaleDown m (actual - target) idle w
     else (Inr (), w))"
proof -
  have "(if pending > desired then pending else desired) = target" using assms(6) by auto
  with assms(1-5,7) show ?thesis
    by (simp add: Reconciler_Reconcile_def TestRepo_GetTests_def WorkerRepo_GetWorkers_def io_defs
        quiet_simps sql_select_tests_def sql_select_workers_def liftE_def count_fleet_eq Let_def)
qed

text \<open>Scaling up: the shortfall exactly, when the provisioner reports success.\<close>

lemma scaleUp_effect:
  assumes "Reconciler_scaleUp m n w = (r, w')" "rProvisioner m = prov" "0 < n"
  shows "wdb w' = wdb w \<and> wscript w' = wscript w \<and> killed (wprov w') = killed (wprov w) \<and>
      (\<exists>hs. started (wprov w') = started (wprov w) @ hs \<and> int (length hs) \<le> n \<and>
         (r = Inr () \<longrightarrow> int (length hs) = n) \<and> distinct hs \<and> (\<forall>h\<in>set hs. isAutoscalerManagedWorker h))"
proof -
  obtain r1 w1 where p: "Provision prov n w = (r1, w1)" by fastforce
  with assms have "w' = w1" "r = Inr () \<longleftrightarrow> r1 = Inr ()"
    by (auto simp: Reconciler_scaleUp_def wrapM_def split: sum.splits)
  with Provision_law [OF p] assms(3) show ?thesis by simp
qed

text \<open>Scaling down: the candidates are drained, and only their processes are killed.\<close>

lemma scaleDown_effect:
  assumes "quiet w" "integrity (wdb w)" "rProvisioner m = prov" "0 < excess"
    and idle: "set idle = {v \<in> set (dWorkers (wdb w)). wStatus v = WorkerStatusIdle}"
    and cand: "cand = scale_down_candidates excess idle"
    and run: "Reconciler_scaleDown m excess idle w = (r, w')"
  shows "wdb w' = (wdb w)\<lparr>dWorkers := update_where (\<lambda>v. wID v \<in> wID ` set cand)
      (worker_to WorkerStatusDraining (dNow (wdb w))) (dWorkers (wdb w))\<rparr> \<and>
    started (wprov w') = started (wprov w) \<and>
    (\<exists>ks. killed (wprov w') = killed (wprov w) @ ks \<and> set ks \<subseteq> wHostname ` set cand)"
proof (cases "filter (\<lambda>v. isAutoscalerManagedWorker (wHostname v)) idle = []")
  case True
  then have "cand = []" by (simp add: cand scale_down_candidates_def)
  with True run assms(4) show ?thesis
    by (simp add: Reconciler_scaleDown_def retM_def update_where_none)
next
  case False
  then have ne: "cand \<noteq> []" using assms(4) by (auto simp: cand scale_down_candidates_def Let_def)
  let ?ids = "map wID cand"
  let ?removed = "map wID (filter (\<lambda>v. wID v \<in> set ?ids \<and> wStatus v = WorkerStatusIdle) (dWorkers (wdb w)))"
  have sub: "set cand \<subseteq> {v \<in> set (dWorkers (wdb w)). wStatus v = WorkerStatusIdle}"
    using scale_down_candidates_subset [of excess idle] idle cand by auto
  have removed: "set ?removed = wID ` set cand" using sub by force
  let ?w1 = "w\<lparr>wdb := (wdb w)\<lparr>dWorkers := update_where (\<lambda>v. wID v \<in> set ?removed)
          (worker_to WorkerStatusDraining (dNow (wdb w))) (dWorkers (wdb w))\<rparr>\<rparr>"
  have drain: "WorkerRepo_TerminateIdleWorkers ?ids w = (Inr ?removed, ?w1)"
    using Terminate_quiet [of w ?ids] assms(1) ne by (simp add: Let_def)
  have "?removed \<noteq> []"
  proof
    assume "?removed = []"
    then have "wID ` set cand = {}" using removed by (metis set_empty2)
    with ne show False by simp
  qed
  moreover obtain hosts where hosts: "hosts = lookup_hostnames (hostname_by_id cand) ?removed" by simp
  ultimately have step: "Reconciler_scaleDown m excess idle w =
      (if hosts = [] then (Inr (), ?w1) else wrapM ''terminate workers'' (Terminate prov hosts) ?w1)"
    using False assms(3,4) drain
    by (simp add: Reconciler_scaleDown_def tryM_def wrapM_def retM_def cand Let_def)
  have hset: "set hosts \<subseteq> wHostname ` set cand"
    unfolding hosts set_lookup_hostnames by (auto dest: hostname_by_id_Some)
  have db: "wdb w' = wdb ?w1 \<and> started (wprov w') = started (wprov w) \<and>
    (\<exists>ks. killed (wprov w') = killed (wprov w) @ ks \<and> set ks \<subseteq> set hosts)"
  proof (cases "hosts = []")
    case True
    with step run show ?thesis by simp
  next
    case False
    obtain r1 w2 where t: "Terminate prov hosts ?w1 = (r1, w2)" by fastforce
    with step run False have "w' = w2" by (auto simp: wrapM_def split: sum.splits)
    with Terminate_law [OF t] show ?thesis by auto
  qed
  have "wdb ?w1 = (wdb w)\<lparr>dWorkers := update_where (\<lambda>v. wID v \<in> wID ` set cand)
      (worker_to WorkerStatusDraining (dNow (wdb w))) (dWorkers (wdb w))\<rparr>"
    using removed by (simp del: set_map)
  with db hset show ?thesis by (metis subset_trans)
qed

end

text \<open>The process provisioner meets the contract.\<close>

lemma managed_hostname: "isAutoscalerManagedWorker (auto_hostname n i)"
  using auto_hostname_prefix by (simp add: isAutoscalerManagedWorker_def auto_prefix_def)

lemma auto_hostnames_distinct:
  assumes "list_all2 (\<lambda>h i. \<exists>n. h = auto_hostname n i) hs is" "distinct is" "\<forall>i\<in>set is. 0 \<le> i"
  shows "distinct hs \<and> (\<forall>h\<in>set hs. \<exists>i\<in>set is. \<exists>n. h = auto_hostname n i)"
  using assms
proof (induction rule: list_all2_induct)
  case Nil
  then show ?case by simp
next
  case (Cons h hs i js)
  from Cons.hyps(1) obtain n where h: "h = auto_hostname n i" by blast
  have "h \<notin> set hs"
  proof
    assume "h \<in> set hs"
    with Cons.IH Cons.prems obtain j m where "j \<in> set js" "h = auto_hostname m j" by auto
    with h auto_hostname_inj [of i j n m] Cons.prems show False by auto
  qed
  with Cons h show ?case by auto
qed

lemma Provision_started:
  assumes "ProcessProvisioner_Provision n p = (r, p')"
  shows "\<exists>hs. map fst (ppStarted p') = map fst (ppStarted p) @ hs \<and> int (length hs) \<le> max 0 n \<and>
    (r = Inr () \<longrightarrow> int (length hs) = max 0 n) \<and> distinct hs \<and> (\<forall>h\<in>set hs. isAutoscalerManagedWorker h) \<and>
    ppKilled p' = ppKilled p"
proof (cases "n \<le> 0 \<or> ppBinaryPath p = []")
  case True
  with assms show ?thesis by (auto simp: ProcessProvisioner_Provision_def split: if_splits)
next
  case False
  then obtain binary where "provision_loop binary [0..n - 1] p = (r, p')"
    using assms by (auto simp: ProcessProvisioner_Provision_def Let_def split: if_splits)
  from provision_loop_started [OF this] obtain started js where
    st: "ppStarted p' = ppStarted p @ started" "prefix js [0..n - 1]" "length started = length js"
      "r = Inr () \<longrightarrow> js = [0..n - 1]" "ppKilled p' = ppKilled p"
      "list_all2 (\<lambda>(h, c) i. \<exists>n. h = auto_hostname n i) started js"
    by auto
  from st(2) obtain zs where zs: "[0..n - 1] = js @ zs" by (auto simp: prefix_def)
  have "distinct (js @ zs)" "set (js @ zs) \<subseteq> {0..n - 1}" unfolding zs [symmetric] by simp_all
  then have js: "distinct js" "\<forall>i\<in>set js. 0 \<le> i" "length js \<le> nat n"
    using prefix_length_le [OF st(2)] by auto
  have "list_all2 (\<lambda>h i. \<exists>n. h = auto_hostname n i) (map fst started) js"
    using st(6) by (auto simp: list.rel_map elim!: list_all2_mono)
  from auto_hostnames_distinct [OF this js(1,2)] st js False show ?thesis
    by (intro exI [of _ "map fst started"]) (auto simp: managed_hostname)
qed

interpretation local_provisioner: provisioner_contract
  process_provisioner "\<lambda>p. map fst (ppStarted p)" ppKilled
proof
  fix n w r w'
  assume "Provision process_provisioner n w = (r, w')"
  then have "ProcessProvisioner_Provision n (wprov w) = (r, wprov w')" "wdb w' = wdb w" "wscript w' = wscript w"
    by (auto simp: process_provisioner_def lift_prov_def split: prod.splits)
  with Provision_started [of n "wprov w" r "wprov w'"]
  show "wdb w' = wdb w \<and> wscript w' = wscript w \<and> ppKilled (wprov w') = ppKilled (wprov w) \<and>
      (\<exists>hs. map fst (ppStarted (wprov w')) = map fst (ppStarted (wprov w)) @ hs \<and> int (length hs) \<le> max 0 n \<and>
         (r = Inr () \<longrightarrow> int (length hs) = max 0 n) \<and> distinct hs \<and>
         (\<forall>h\<in>set hs. isAutoscalerManagedWorker h))"
    by blast
next
  fix hosts w r w'
  assume "Terminate process_provisioner hosts w = (r, w')"
  then have "ProcessProvisioner_Terminate hosts (wprov w) = (r, wprov w')" "wdb w' = wdb w" "wscript w' = wscript w"
    by (auto simp: process_provisioner_def lift_prov_def split: prod.splits)
  with Terminate_killed [of hosts "wprov w" r "wprov w'"]
  show "wdb w' = wdb w \<and> wscript w' = wscript w \<and>
      map fst (ppStarted (wprov w')) = map fst (ppStarted (wprov w)) \<and>
      (\<exists>ks. ppKilled (wprov w') = ppKilled (wprov w) @ ks \<and> set ks \<subseteq> set hosts)"
    by auto
qed

section \<open>Properties\<close>

text \<open>The process provisioner starts one process per requested worker and no more: when Provision
  succeeds it started exactly that many, and when it fails at most that many, with pairwise different
  hostnames that all carry the autoscaler's prefix; it kills nothing.\<close>

theorem Provision_exact:
  "\<exists>r p' hs. ProcessProvisioner_Provision n p = (r, p') \<and>
    map fst (ppStarted p') = map fst (ppStarted p) @ hs \<and> int (length hs) \<le> max 0 n \<and>
    (r = Inr () \<longrightarrow> int (length hs) = max 0 n) \<and> distinct hs \<and>
    (\<forall>h\<in>set hs. isAutoscalerManagedWorker h) \<and> ppKilled p' = ppKilled p"
proof -
  obtain r p' where run: "ProcessProvisioner_Provision n p = (r, p')" by fastforce
  from Provision_started [OF this] run show ?thesis by blast
qed

theorem Provision_exact_witness:
  "fst (ProcessProvisioner_Provision 2 ex_prov) = Inr () \<and>
   (\<exists>p' hs. ProcessProvisioner_Provision 2 ex_prov = (Inr (), p') \<and>
     map fst (ppStarted p') = hs \<and> length hs = 2 \<and> distinct hs)"
proof -
  have ok: "fst (ProcessProvisioner_Provision 2 ex_prov) = Inr ()"
    by (simp add: ProcessProvisioner_Provision_def ex_prov_def next_os_def quiet_os_def Let_def upto_rec1)
  moreover have "ppStarted ex_prov = []" by (simp add: ex_prov_def)
  ultimately show ?thesis using Provision_exact [of 2 ex_prov] by auto
qed

text \<open>The sums a cycle computes from the rows of the table, whatever their order.\<close>

lemma DesiredCapacity_eq:
  assumes "0 < cap" "cap \<le> max_int4" "\<forall>t\<in>set ts. 0 < tRPS t \<and> tRPS t \<le> max_int4"
    and "int (length ts) * max_int4 \<le> max_int"
  shows "DesiredCapacity ts cap = Inr (sum_list (map (\<lambda>t. ceil_div (tRPS t) cap)
      (filter (\<lambda>t. tStatus t = StatusStarting \<or> tStatus t = StatusRunning) ts)))"
    "PendingCapacity ts cap = Inr (sum_list (map (\<lambda>t. ceil_div (tRPS t) cap)
      (filter (\<lambda>t. tStatus t = StatusCreated) ts)))"
  unfolding DesiredCapacity_def PendingCapacity_def
  by (subst capacity_loop_eq; use assms in \<open>simp add: isActiveTest_def\<close>)+

text \<open>The two capacity sums. With a positive capacity and rates in the range of the column, the
  desired capacity is the sum over the STARTING and RUNNING tests, and the pending capacity the sum
  over the CREATED tests, of the rounded-up quotient of rate and capacity; no 64-bit sum wraps for any
  table of up to four billion tests.\<close>

theorem capacity_sums:
  assumes "0 < cap" "cap \<le> max_int4" "\<forall>t\<in>set ts. 0 < tRPS t \<and> tRPS t \<le> max_int4"
    and "length ts \<le> 4000000000"
  shows "DesiredCapacity ts cap = Inr (sum_list (map (\<lambda>t. ceil_div (tRPS t) cap)
      (filter (\<lambda>t. tStatus t = StatusStarting \<or> tStatus t = StatusRunning) ts))) \<and>
    PendingCapacity ts cap = Inr (sum_list (map (\<lambda>t. ceil_div (tRPS t) cap)
      (filter (\<lambda>t. tStatus t = StatusCreated) ts)))"
proof -
  have "int (length ts) * max_int4 \<le> max_int" using assms(4) by (simp add: max_int4_def max_int_def)
  with DesiredCapacity_eq [OF assms(1-3)] show ?thesis by simp
qed

theorem capacity_sums_witness:
  "DesiredCapacity [ex_test ''A'' 250 0 StatusRunning 1, ex_test ''B'' 90 0 StatusCreated 1] 100 = Inr 3 \<and>
   PendingCapacity [ex_test ''A'' 250 0 StatusRunning 1, ex_test ''B'' 90 0 StatusCreated 1] 100 = Inr 1"
  using capacity_sums [of 100 "[ex_test ''A'' 250 0 StatusRunning 1, ex_test ''B'' 90 0 StatusCreated 1]"]
  by (simp add: ex_test_def max_int4_def ceil_div_def)

section \<open>A cycle\<close>

text \<open>The demand of the tests in some statuses, in workers, and the size a cycle steers the fleet to.\<close>

definition demand :: "(TestStatus \<Rightarrow> bool) \<Rightarrow> int \<Rightarrow> db \<Rightarrow> int" where
  "demand P cap d = sum_list (map (\<lambda>t. ceil_div (tRPS t) cap) (filter (\<lambda>t. P (tStatus t)) (dTests d)))"

definition fleet_target :: "int \<Rightarrow> db \<Rightarrow> int" where
  "fleet_target cap d = max (demand (\<lambda>st. st = StatusStarting \<or> st = StatusRunning) cap d)
     (demand (\<lambda>st. st = StatusCreated) cap d)"

definition usable_workers :: "db \<Rightarrow> int" where
  "usable_workers d = count_where usable (dWorkers d)"

text \<open>The tables a cycle can count: rates and a capacity that no overflow can touch.\<close>

definition countable_tests :: "int \<Rightarrow> db \<Rightarrow> bool" where
  "countable_tests cap d \<longleftrightarrow> 0 < cap \<and> cap \<le> max_int4 \<and> length (dTests d) \<le> 4000000000 \<and>
     (\<forall>t\<in>set (dTests d). 0 < tRPS t \<and> tRPS t \<le> max_int4)"

lemma sum_sorted:
  "sum_list (map f (filter P (sort_key k xs))) = (sum_list (map f (filter P xs)) :: int)"
proof -
  have insort: "sum_list (map f (insort_key k x ys)) = f x + (sum_list (map f ys) :: int)" for x ys
    by (induction ys) simp_all
  have "sum_list (map f (sort_key k ys)) = sum_list (map f ys)" for ys
    by (induction ys) (simp_all add: insort)
  then show ?thesis by (simp add: filter_sort)
qed

lemma sums_of_table:
  assumes "countable_tests cap d"
  shows "DesiredCapacity (sort_key k (dTests d)) cap =
      Inr (demand (\<lambda>st. st = StatusStarting \<or> st = StatusRunning) cap d)"
    "PendingCapacity (sort_key k (dTests d)) cap = Inr (demand (\<lambda>st. st = StatusCreated) cap d)"
proof -
  have len: "int (length (sort_key k (dTests d))) * max_int4 \<le> max_int"
    using assms by (simp add: countable_tests_def max_int4_def max_int_def)
  have rates: "\<forall>t\<in>set (sort_key k (dTests d)). 0 < tRPS t \<and> tRPS t \<le> max_int4" "0 < cap" "cap \<le> max_int4"
    using assms by (simp_all add: countable_tests_def)
  note eq = DesiredCapacity_eq [OF rates(2,3,1) len]
  show "DesiredCapacity (sort_key k (dTests d)) cap =
      Inr (demand (\<lambda>st. st = StatusStarting \<or> st = StatusRunning) cap d)"
    unfolding eq(1) demand_def sum_sorted ..
  show "PendingCapacity (sort_key k (dTests d)) cap = Inr (demand (\<lambda>st. st = StatusCreated) cap d)"
    unfolding eq(2) demand_def sum_sorted ..
qed

context provisioner_contract
begin

lemma Reconcile_steers:
  assumes "quiet w" "rProvisioner m = prov" "countable_tests (rWorkerCapacity m) (wdb w)"
  shows "Reconciler_Reconcile m w =
    (let target = fleet_target (rWorkerCapacity m) (wdb w); actual = usable_workers (wdb w);
         idle = filter (\<lambda>w. wStatus w = WorkerStatusIdle) (sort_key (\<lambda>w. - wRegisteredAt w) (dWorkers (wdb w)))
     in if actual < target then Reconciler_scaleUp m (target - actual) w
        else if actual > target then Reconciler_scaleDown m (actual - target) idle w
        else (Inr (), w))"
  unfolding Let_def
  by (rule Reconcile_quiet [OF assms(1,2) sums_of_table [OF assms(3)]])
     (simp_all add: fleet_target_def usable_workers_def)

end

lemma filter_sorted_candidates:
  "set (filter P (sort_key k xs)) = {x \<in> set xs. P x}"
  by auto

text \<open>How many candidates there are.\<close>

lemma length_candidates:
  assumes "0 \<le> excess"
  shows "int (length (scale_down_candidates excess idle)) =
    min excess (int (length (filter (\<lambda>v. isAutoscalerManagedWorker (wHostname v)) idle)))"
  using assms by (simp add: scale_down_candidates_def Let_def)

lemma usable_after_drain:
  assumes "distinct (map wID ws)" "set cand \<subseteq> {v \<in> set ws. wStatus v = WorkerStatusIdle}" "distinct cand"
  shows "count_where usable (update_where (\<lambda>v. wID v \<in> wID ` set cand) (worker_to WorkerStatusDraining now) ws) =
    count_where usable ws - int (length cand)"
proof -
  have hit: "wID v \<in> wID ` set cand \<longleftrightarrow> v \<in> set cand" if "v \<in> set ws" for v
    using that assms(1,2) by (auto simp: distinct_map inj_on_def)
  have idle: "usable v" if "v \<in> set cand" for v
    using that assms(2) by (auto simp: usable_def)
  have "count_where usable (update_where (\<lambda>v. wID v \<in> wID ` set cand) (worker_to WorkerStatusDraining now) xs) =
      count_where (\<lambda>v. usable v \<and> v \<notin> set cand) xs" if "set xs \<subseteq> set ws" for xs
    using that hit by (induction xs) (auto simp: update_where_def count_where_def usable_def)
  then have after: "count_where usable (update_where (\<lambda>v. wID v \<in> wID ` set cand) (worker_to WorkerStatusDraining now) ws) =
      count_where (\<lambda>v. usable v \<and> v \<notin> set cand) ws" by blast
  have "distinct ws" using assms(1) by (simp add: distinct_map)
  then have "int (length (filter (\<lambda>v. v \<in> set cand) ws)) = int (card (set cand))"
    using assms(2) by (subst distinct_card [symmetric]) (auto intro!: arg_cong [where f = card])
  then have "count_where (\<lambda>v. v \<in> set cand) ws = int (length cand)"
    using assms(3) by (simp add: count_where_def distinct_card)
  moreover have "count_where usable xs = count_where (\<lambda>v. usable v \<and> v \<notin> set cand) xs + count_where (\<lambda>v. v \<in> set cand) xs" for xs
    using idle by (induction xs) (auto simp: count_where_def)
  ultimately show ?thesis using after by simp
qed

text \<open>A cycle that scales up.\<close>

lemma Reconcile_up:
  assumes "quiet w" "countable_tests cap (wdb w)" "usable_workers (wdb w) < fleet_target cap (wdb w)"
    and "Reconciler_Reconcile \<lparr>rProvisioner = process_provisioner, rWorkerCapacity = cap\<rparr> w = (r, w')"
  shows "wdb w' = wdb w \<and> ppKilled (wprov w') = ppKilled (wprov w) \<and>
    (\<exists>hs. map fst (ppStarted (wprov w')) = map fst (ppStarted (wprov w)) @ hs \<and>
       int (length hs) \<le> fleet_target cap (wdb w) - usable_workers (wdb w) \<and>
       (r = Inr () \<longrightarrow> int (length hs) = fleet_target cap (wdb w) - usable_workers (wdb w)) \<and>
       distinct hs \<and> (\<forall>h\<in>set hs. isAutoscalerManagedWorker h))"
proof -
  let ?m = "\<lparr>rProvisioner = process_provisioner, rWorkerCapacity = cap\<rparr>"
  from local_provisioner.Reconcile_steers [of w ?m] assms
  have "Reconciler_scaleUp ?m (fleet_target cap (wdb w) - usable_workers (wdb w)) w = (r, w')"
    by (simp add: Let_def)
  from local_provisioner.scaleUp_effect [OF this] assms(3) show ?thesis by simp
qed

text \<open>C17: a reconciliation cycle on a quiet server with fewer usable workers (IDLE, RESERVED or
  RUNNING) than the larger of the demand of the active tests and the demand of the CREATED tests. It
  asks for exactly the shortfall: so many processes are started when it succeeds, at most so many when
  it fails, under different hostnames with the autoscaler's prefix, and the tables do not change.\<close>

theorem Reconcile_scales_up:
  assumes "quiet w" "countable_tests cap (wdb w)" "usable_workers (wdb w) < fleet_target cap (wdb w)"
    and "Reconciler_Reconcile \<lparr>rProvisioner = process_provisioner, rWorkerCapacity = cap\<rparr> w = (r, w')"
  shows "wdb w' = wdb w \<and> ppKilled (wprov w') = ppKilled (wprov w) \<and>
    (\<exists>hs. map fst (ppStarted (wprov w')) = map fst (ppStarted (wprov w)) @ hs \<and>
       int (length hs) \<le> fleet_target cap (wdb w) - usable_workers (wdb w) \<and>
       (r = Inr () \<longrightarrow> int (length hs) = fleet_target cap (wdb w) - usable_workers (wdb w)) \<and>
       distinct hs \<and> (\<forall>h\<in>set hs. isAutoscalerManagedWorker h))"
  using assms by (rule Reconcile_up)

theorem Reconcile_scales_up_witness:
  "\<exists>r w' hs. Reconciler_Reconcile \<lparr>rProvisioner = process_provisioner, rWorkerCapacity = 100\<rparr> (ex_world ex_alone) = (r, w') \<and>
    wdb w' = ex_alone \<and> map fst (ppStarted (wprov w')) = hs \<and> length hs \<le> 2"
proof -
  obtain r w' where run:
    "Reconciler_Reconcile \<lparr>rProvisioner = process_provisioner, rWorkerCapacity = 100\<rparr> (ex_world ex_alone) = (r, w')"
    by fastforce
  have "countable_tests 100 ex_alone" "usable_workers ex_alone = 0" "fleet_target 100 ex_alone = 2"
    by (simp_all add: countable_tests_def usable_workers_def fleet_target_def demand_def ceil_div_def
        count_where_def max_int4_def ex_alone_def ex_db_defs ex_test_def)
  with Reconcile_scales_up [OF _ _ _ run] run show ?thesis
    by (auto simp: ex_world_def ex_prov_def)
qed

text \<open>Two cycles in a row while no started worker has registered yet, the periodic one and the one
  a starting test asks for, for instance: each starts the whole shortfall again, so twice as many
  processes are started as are missing.\<close>

theorem Reconcile_provisions_twice:
  assumes "quiet w" "countable_tests cap (wdb w)" "usable_workers (wdb w) < fleet_target cap (wdb w)"
    and "Reconciler_Reconcile \<lparr>rProvisioner = process_provisioner, rWorkerCapacity = cap\<rparr> w = (Inr (), w1)"
    and "Reconciler_Reconcile \<lparr>rProvisioner = process_provisioner, rWorkerCapacity = cap\<rparr> w1 = (Inr (), w2)"
  shows "int (length (ppStarted (wprov w2))) =
    int (length (ppStarted (wprov w))) + 2 * (fleet_target cap (wdb w) - usable_workers (wdb w))"
proof -
  have *: "int (length (ppStarted (wprov v'))) =
      int (length (ppStarted (wprov v))) + (fleet_target cap (wdb v) - usable_workers (wdb v)) \<and> wdb v' = wdb v"
    if run: "Reconciler_Reconcile \<lparr>rProvisioner = process_provisioner, rWorkerCapacity = cap\<rparr> v = (Inr (), v')"
      "quiet v" "wdb v = wdb w" for v v'
  proof -
    from Reconcile_up [OF that(2) _ _ that(1)] assms(2,3) that(3) obtain hs where
      hs: "map fst (ppStarted (wprov v')) = map fst (ppStarted (wprov v)) @ hs" "wdb v' = wdb v"
        "int (length hs) = fleet_target cap (wdb v) - usable_workers (wdb v)"
      by auto
    from arg_cong [OF hs(1), of length] hs(2,3) show ?thesis by simp
  qed
  have "calm (Reconciler_Reconcile \<lparr>rProvisioner = process_provisioner, rWorkerCapacity = cap\<rparr>)"
    by (rule calm_Reconcile)
  from calmD [OF this assms(1,4)] have "quiet w1" .
  with * [OF assms(4,1) refl] * [OF assms(5)] show ?thesis by simp
qed

lemma ex_alone_demand:
  "countable_tests 100 ex_alone" "usable_workers ex_alone = 0" "fleet_target 100 ex_alone = 2"
  by (simp_all add: countable_tests_def usable_workers_def fleet_target_def demand_def ceil_div_def
      count_where_def max_int4_def ex_alone_def ex_db_defs ex_test_def)

theorem Reconcile_provisions_twice_witness:
  "\<exists>w1 w2. Reconciler_Reconcile \<lparr>rProvisioner = process_provisioner, rWorkerCapacity = 100\<rparr> (ex_world ex_alone) = (Inr (), w1) \<and>
    Reconciler_Reconcile \<lparr>rProvisioner = process_provisioner, rWorkerCapacity = 100\<rparr> w1 = (Inr (), w2) \<and>
    length (ppStarted (wprov w2)) = 4"
proof -
  let ?R = "Reconciler_Reconcile \<lparr>rProvisioner = process_provisioner, rWorkerCapacity = 100\<rparr>"
  have "\<exists>p. ?R ((ex_world ex_alone)\<lparr>wprov := q\<rparr>) = (Inr (), (ex_world ex_alone)\<lparr>wprov := p\<rparr>) \<and>
      ppScript p = [] \<and> ppBinaryPath p \<noteq> []"
    if "ppScript q = []" "ppBinaryPath q \<noteq> []" for q
    using that
    by (simp add: ex_eval ex_required ex_reconcile_defs TestRepo_GetTests_def sql_select_tests_def
        ex_alone_def ex_db_defs upto_rec1)
  note step = this
  have "(ex_world ex_alone)\<lparr>wprov := ex_prov\<rparr> = ex_world ex_alone" by (simp add: ex_world_def)
  with step [of ex_prov] obtain p1 where p1: "?R (ex_world ex_alone) = (Inr (), (ex_world ex_alone)\<lparr>wprov := p1\<rparr>)"
      "ppScript p1 = []" "ppBinaryPath p1 \<noteq> []"
    by (auto simp: ex_prov_def)
  from step [OF p1(2,3)] p1(1) obtain w1 w2 where
    "?R (ex_world ex_alone) = (Inr (), w1)" "?R w1 = (Inr (), w2)"
    by blast
  with Reconcile_provisions_twice [of "ex_world ex_alone" 100 w1 w2] ex_alone_demand show ?thesis
    by (auto simp: ex_world_def ex_prov_def)
qed

text \<open>C16: a reconciliation cycle on a quiet server with more usable workers than that target drains
  only workers that are IDLE and carry the autoscaler's prefix, as many as are in excess or, when
  fewer qualify, all of those; the usable workers left are still at least the target; every other row
  is untouched; and only processes of drained workers are killed.\<close>

theorem Reconcile_scales_down:
  assumes "quiet w" "integrity (wdb w)" "countable_tests cap (wdb w)"
    and "fleet_target cap (wdb w) < usable_workers (wdb w)"
    and "Reconciler_Reconcile \<lparr>rProvisioner = process_provisioner, rWorkerCapacity = cap\<rparr> w = (r, w')"
  shows "\<exists>cand ks. distinct cand \<and>
    set cand \<subseteq> {v \<in> set (dWorkers (wdb w)). wStatus v = WorkerStatusIdle \<and> isAutoscalerManagedWorker (wHostname v)} \<and>
    int (length cand) = min (usable_workers (wdb w) - fleet_target cap (wdb w))
      (count_where (\<lambda>v. wStatus v = WorkerStatusIdle \<and> isAutoscalerManagedWorker (wHostname v)) (dWorkers (wdb w))) \<and>
    wdb w' = (wdb w)\<lparr>dWorkers := update_where (\<lambda>v. wID v \<in> wID ` set cand)
      (worker_to WorkerStatusDraining (dNow (wdb w))) (dWorkers (wdb w))\<rparr> \<and>
    fleet_target cap (wdb w') \<le> usable_workers (wdb w') \<and>
    ppKilled (wprov w') = ppKilled (wprov w) @ ks \<and> set ks \<subseteq> wHostname ` set cand \<and>
    map fst (ppStarted (wprov w')) = map fst (ppStarted (wprov w))"
proof -
  let ?m = "\<lparr>rProvisioner = process_provisioner, rWorkerCapacity = cap\<rparr>"
  let ?excess = "usable_workers (wdb w) - fleet_target cap (wdb w)"
  let ?idle = "filter (\<lambda>w. wStatus w = WorkerStatusIdle) (sort_key (\<lambda>w. - wRegisteredAt w) (dWorkers (wdb w)))"
  obtain cand where cand: "cand = scale_down_candidates ?excess ?idle" by simp
  from local_provisioner.Reconcile_steers [of w ?m] assms
  have run: "Reconciler_scaleDown ?m ?excess ?idle w = (r, w')" by (simp add: Let_def)
  from local_provisioner.scaleDown_effect [OF assms(1,2) _ _ filter_sorted_candidates cand run] assms(4)
  obtain ks where eff: "wdb w' = (wdb w)\<lparr>dWorkers := update_where (\<lambda>v. wID v \<in> wID ` set cand)
      (worker_to WorkerStatusDraining (dNow (wdb w))) (dWorkers (wdb w))\<rparr>"
    "ppKilled (wprov w') = ppKilled (wprov w) @ ks" "set ks \<subseteq> wHostname ` set cand"
    "map fst (ppStarted (wprov w')) = map fst (ppStarted (wprov w))"
    by auto
  have ws: "distinct (map wID (dWorkers (wdb w)))" using assms(2) by (simp add: integrity_def)
  then have "distinct (dWorkers (wdb w))" by (simp add: distinct_map)
  then have dist: "distinct cand" by (simp add: cand scale_down_candidates_def Let_def)
  have sub: "set cand \<subseteq> {v \<in> set (dWorkers (wdb w)). wStatus v = WorkerStatusIdle \<and> isAutoscalerManagedWorker (wHostname v)}"
    using scale_down_candidates_subset [of ?excess ?idle] cand by auto
  have len: "int (length cand) = min ?excess
      (count_where (\<lambda>v. wStatus v = WorkerStatusIdle \<and> isAutoscalerManagedWorker (wHostname v)) (dWorkers (wdb w)))"
    using length_candidates [of ?excess ?idle] assms(4)
      count_where_sort_key [of "\<lambda>v. wStatus v = WorkerStatusIdle \<and> isAutoscalerManagedWorker (wHostname v)"
        "\<lambda>w. - wRegisteredAt w" "dWorkers (wdb w)"]
    by (simp add: cand count_where_def conj_commute)
  have "usable_workers (wdb w') = usable_workers (wdb w) - int (length cand)"
    using usable_after_drain [OF ws _ dist, of "dNow (wdb w)"] sub by (auto simp: usable_workers_def eff(1))
  moreover have "fleet_target cap (wdb w') = fleet_target cap (wdb w)"
    by (simp add: eff(1) fleet_target_def demand_def)
  ultimately have "fleet_target cap (wdb w') \<le> usable_workers (wdb w')" using len by simp
  then show ?thesis using dist sub len eff by blast
qed

definition ex_excess :: db where
  "ex_excess = ex_fleet\<lparr>dWorkers := [ex_worker ''v'' 1 WorkerStatusIdle 1,
     (ex_worker ''w'' 2 WorkerStatusIdle 2)\<lparr>wHostname := ''vulcan-auto-worker-7-0''\<rparr>]\<rparr>"

theorem Reconcile_scales_down_witness:
  "\<exists>r w' (cand :: Worker list). Reconciler_Reconcile \<lparr>rProvisioner = process_provisioner, rWorkerCapacity = 100\<rparr> (ex_world ex_excess) = (r, w') \<and>
    length cand = 1 \<and> wHostname ` set cand = {''vulcan-auto-worker-7-0''} \<and>
    wdb w' = ex_excess\<lparr>dWorkers := update_where (\<lambda>v. wID v \<in> wID ` set cand)
      (worker_to WorkerStatusDraining 100) (dWorkers ex_excess)\<rparr>"
proof -
  obtain r w' where run:
    "Reconciler_Reconcile \<lparr>rProvisioner = process_provisioner, rWorkerCapacity = 100\<rparr> (ex_world ex_excess) = (r, w')"
    by fastforce
  have pre: "integrity ex_excess" "countable_tests 100 ex_excess" "fleet_target 100 ex_excess = 0"
    "usable_workers ex_excess = 2" "dNow ex_excess = 100"
    by (simp_all add: countable_tests_def usable_workers_def usable_def fleet_target_def demand_def integrity_def
        count_where_def in_int4_def max_int4_def ex_excess_def ex_db_defs ex_worker_def)
  have one: "{v \<in> set (dWorkers ex_excess). wStatus v = WorkerStatusIdle \<and> isAutoscalerManagedWorker (wHostname v)} =
      {(ex_worker ''w'' 2 WorkerStatusIdle 2)\<lparr>wHostname := ''vulcan-auto-worker-7-0''\<rparr>}"
    "count_where (\<lambda>v. wStatus v = WorkerStatusIdle \<and> isAutoscalerManagedWorker (wHostname v)) (dWorkers ex_excess) = 1"
    unfolding set_filter [symmetric]
    by (simp_all add: isAutoscalerManagedWorker_def count_where_def ex_excess_def ex_db_defs ex_worker_def)
  have less: "(0::int) < 2" by simp
  from Reconcile_scales_down [OF wdb_ex_world(2) _ _ _ run, unfolded wdb_ex_world pre(3-5) one, OF pre(1,2) less]
  obtain cand where
    cand: "int (length cand) = min (2 - 0) 1"
      "set cand \<subseteq> {(ex_worker ''w'' 2 WorkerStatusIdle 2)\<lparr>wHostname := ''vulcan-auto-worker-7-0''\<rparr>}"
      "wdb w' = ex_excess\<lparr>dWorkers := update_where (\<lambda>v. wID v \<in> wID ` set cand)
        (worker_to WorkerStatusDraining 100) (dWorkers ex_excess)\<rparr>"
    by blast
  from cand(1) have one: "length cand = 1" by simp
  from one obtain c where "cand = [c]" by (auto simp: length_Suc_conv)
  with cand(2) have names: "wHostname ` set cand = {''vulcan-auto-worker-7-0''}" by simp
  show ?thesis by (intro exI conjI) (rule run, rule one, rule names, rule cand(3))
qed

end
