(* ===== verification/Requests.thy ===== *)
theory Requests
  imports Guarantees
begin

text \<open>
  Properties of the requests to the two services: what is accepted and stored, and who may start a test.
\<close>

section \<open>Creating a test\<close>

definition valid_create :: "CreateTestRequest \<Rightarrow> bool" where
  "valid_create req \<longleftrightarrow> TrimSpace (crName req) \<noteq> [] \<and> TrimSpace (crTargetURL req) \<noteq> [] \<and>
     ToUpper (TrimSpace (crMethod req)) \<in> {''GET'', ''POST''} \<and>
     0 < crDurationSec req \<and> 0 < crRPS req \<and> 0 < crConcurrency req"

definition validation_error :: "go_error \<Rightarrow> bool" where
  "validation_error e \<longleftrightarrow> e = ErrValidation \<or> (\<exists>f m. e = ValidationFieldError f m)"

lemma trim_methods: "TrimSpace ''GET'' = ''GET''" "TrimSpace ''POST'' = ''POST''"
  by (rule TrimSpace_visible; simp add: visible_def)+

lemma upper_methods: "ToUpper ''GET'' = ''GET''" "ToUpper ''POST'' = ''POST''"
  by (code_simp, code_simp)

lemma CreateTest_invalid:
  assumes "\<not> valid_create req"
  shows "\<exists>e. TestService_CreateTest s i now req w = (Inl e, w) \<and> validation_error e"
  using assms
  by (auto simp: TestService_CreateTest_def valid_create_def validation_error_def Required_def
      TrimSpace_idem failM_def Let_def)

lemma CreateTest_valid:
  assumes "valid_create req"
  shows "TestService_CreateTest s i now req w =
    (case RequiredWorkers (crRPS req) (tsWorkerCapacityRPS s) of
       Inl err \<Rightarrow> (Inl err, w)
     | Inr n \<Rightarrow>
        (let test = \<lparr>tID = i, tName = TrimSpace (crName req), tStatus = StatusCreated, tWorkerCount = n,
               tTargetURL = TrimSpace (crTargetURL req), tMethod = ToUpper (TrimSpace (crMethod req)),
               tDurationSec = crDurationSec req, tRPS = crRPS req, tConcurrency = crConcurrency req,
               tCreatedAt = now, tUpdatedAt = now\<rparr>
         in tryM (TestRepo_CreateTest test) (\<lambda>_. retM test) w))"
proof -
  from assms have m: "ToUpper (TrimSpace (ToUpper (TrimSpace (crMethod req)))) = ToUpper (TrimSpace (crMethod req))"
    by (auto simp: valid_create_def trim_methods upper_methods)
  from assms show ?thesis
    by (auto simp: TestService_CreateTest_def valid_create_def Required_def TrimSpace_idem failM_def Let_def
        m trim_methods upper_methods split: sum.split)
qed

text \<open>C32: creating a test. A request with a blank name or target, a method other than GET and POST (in
  any case and surrounded by any white space), or a duration, rate or concurrency that is not positive
  is refused with a validation error before any statement runs. When the call succeeds, exactly one
  row has been added and nothing else has changed: a CREATED test under the new identifier with the
  trimmed name and target, the method in upper case, the duration, rate and concurrency of the request,
  the least sufficient worker count of its rate and both timestamps those of the call; the identifier
  was free and the numbers fit their columns.\<close>

theorem CreateTest_stores_valid:
  "(\<not> valid_create req \<longrightarrow>
      (\<exists>e. TestService_CreateTest s i now req w = (Inl e, w) \<and> validation_error e)) \<and>
   (\<forall>t w'. TestService_CreateTest s i now req w = (Inr t, w') \<longrightarrow>
      valid_create req \<and>
      (\<exists>n. RequiredWorkers (crRPS req) (tsWorkerCapacityRPS s) = Inr n \<and>
         t = \<lparr>tID = i, tName = TrimSpace (crName req), tStatus = StatusCreated, tWorkerCount = n,
              tTargetURL = TrimSpace (crTargetURL req), tMethod = ToUpper (TrimSpace (crMethod req)),
              tDurationSec = crDurationSec req, tRPS = crRPS req, tConcurrency = crConcurrency req,
              tCreatedAt = now, tUpdatedAt = now\<rparr>) \<and>
      wdb w' = (db_seen w)\<lparr>dTests := dTests (db_seen w) @ [t]\<rparr> \<and>
      i \<notin> tID ` set (dTests (db_seen w)) \<and> test_ok t)"
proof (intro conjI allI impI)
  show "\<exists>e. TestService_CreateTest s i now req w = (Inl e, w) \<and> validation_error e" if "\<not> valid_create req"
    using that by (rule CreateTest_invalid)
next
  fix t w'
  assume run: "TestService_CreateTest s i now req w = (Inr t, w')"
  show valid: "valid_create req"
  proof (rule ccontr)
    assume "\<not> valid_create req"
    from CreateTest_invalid [OF this, of s i now w] run show False by auto
  qed
  from run CreateTest_valid [OF valid, of s i now w] obtain n where
    n: "RequiredWorkers (crRPS req) (tsWorkerCapacityRPS s) = Inr n" and
    t: "t = \<lparr>tID = i, tName = TrimSpace (crName req), tStatus = StatusCreated, tWorkerCount = n,
               tTargetURL = TrimSpace (crTargetURL req), tMethod = ToUpper (TrimSpace (crMethod req)),
               tDurationSec = crDurationSec req, tRPS = crRPS req, tConcurrency = crConcurrency req,
               tCreatedAt = now, tUpdatedAt = now\<rparr>" and
    store: "TestRepo_CreateTest t w = (Inr (), w')"
    by (auto simp: tryM_def retM_def Let_def split: sum.splits prod.splits)
  from n t show "\<exists>n. RequiredWorkers (crRPS req) (tsWorkerCapacityRPS s) = Inr n \<and>
         t = \<lparr>tID = i, tName = TrimSpace (crName req), tStatus = StatusCreated, tWorkerCount = n,
              tTargetURL = TrimSpace (crTargetURL req), tMethod = ToUpper (TrimSpace (crMethod req)),
              tDurationSec = crDurationSec req, tRPS = crRPS req, tConcurrency = crConcurrency req,
              tCreatedAt = now, tUpdatedAt = now\<rparr>" by blast
  from store have "sql_insert_test t (db_seen w) = Inr (wdb w', ())"
    unfolding TestRepo_CreateTest_def by (elim run_elims pool_stmt_InrE) simp
  then show "wdb w' = (db_seen w)\<lparr>dTests := dTests (db_seen w) @ [t]\<rparr>" "test_ok t"
    "i \<notin> tID ` set (dTests (db_seen w))"
    by (auto simp: sql_insert_test_def test_ok_def t split: if_splits)
qed

theorem CreateTest_stores_valid_witness:
  "(\<exists>e. TestService_CreateTest (cpService (vulcan 100)) ''A'' 3 ((ex_create ''A'' 200)\<lparr>crRPS := 0\<rparr>) (ex_world ex_fleet) =
      (Inl e, ex_world ex_fleet)) \<and>
   (\<exists>t w'. TestService_CreateTest (cpService (vulcan 100)) ''A'' 3 (ex_create ''A'' 200) (ex_world ex_fleet) = (Inr t, w') \<and>
      tMethod t = ''GET'' \<and> tDurationSec t = 60 \<and> tWorkerCount t = 2 \<and> dTests (wdb w') = [t])"
proof -
  have bad: "\<not> valid_create ((ex_create ''A'' 200)\<lparr>crRPS := 0\<rparr>)" by (simp add: valid_create_def)
  obtain t w' where run: "TestService_CreateTest (cpService (vulcan 100)) ''A'' 3 (ex_create ''A'' 200) (ex_world ex_fleet) = (Inr t, w')"
    by (simp add: ex_eval ex_service ex_create_defs ex_db_defs)
  have "tMethod t = ''GET''" "tDurationSec t = 60" "tWorkerCount t = 2" "dTests (wdb w') = [t]"
    using CreateTest_stores_valid [of "ex_create ''A'' 200" "cpService (vulcan 100)" "''A''" 3 "ex_world ex_fleet"] run
    by (auto simp: vulcan_capacity ex_create_def ex_required ex_strings ex_fleet_def ex_empty_def empty_db_def)
  then show ?thesis using CreateTest_stores_valid [of "(ex_create ''A'' 200)\<lparr>crRPS := 0\<rparr>"] bad run by blast
qed

section \<open>Registering a worker\<close>

definition valid_register :: "RegisterWorkerRequest \<Rightarrow> bool" where
  "valid_register req \<longleftrightarrow> TrimSpace (rqHostname req) \<noteq> [] \<and> TrimSpace (rqVersion req) \<noteq> [] \<and>
     0 < rqCPUCount req \<and> 0 < rqMemoryMB req"

lemma RegisterWorker_refused:
  assumes "\<not> valid_register req"
  shows "\<exists>e. WorkerService_RegisterWorker i now req w = (Inl e, w) \<and> validation_error e"
  using assms
  by (auto simp: WorkerService_RegisterWorker_def valid_register_def validation_error_def Required_def
      Invalid_def TrimSpace_idem failM_def Let_def)

lemma RegisterWorker_stored:
  assumes "WorkerService_RegisterWorker i now req w = (Inr v, w')"
  shows "valid_register req"
    and "v = \<lparr>wID = i, wHostname = TrimSpace (rqHostname req), wVersion = TrimSpace (rqVersion req),
      wStatus = WorkerStatusIdle, wCPUCount = rqCPUCount req, wMemoryMB = rqMemoryMB req,
      wRegisteredAt = now, wLastHeartbeat = now, wUpdatedAt = now\<rparr>"
    and "wID v \<notin> wID ` set (dWorkers (db_seen w))"
    and "wdb w' = (db_seen w)\<lparr>dWorkers := dWorkers (db_seen w) @ [v]\<rparr>"
proof -
  from assms show valid: "valid_register req"
    by (auto simp: WorkerService_RegisterWorker_def valid_register_def Required_def TrimSpace_idem failM_def Let_def
        split: if_splits)
  from assms valid show
    v: "v = \<lparr>wID = i, wHostname = TrimSpace (rqHostname req), wVersion = TrimSpace (rqVersion req),
                  wStatus = WorkerStatusIdle, wCPUCount = rqCPUCount req,
                  wMemoryMB = rqMemoryMB req, wRegisteredAt = now, wLastHeartbeat = now,
                  wUpdatedAt = now\<rparr>"
    by (auto simp: WorkerService_RegisterWorker_def valid_register_def Required_def TrimSpace_idem Let_def
        tryM_def retM_def split: sum.splits prod.splits)
  from assms valid v have store: "WorkerRepo_CreateWorker v w = (Inr (), w')"
    by (auto simp: WorkerService_RegisterWorker_def valid_register_def Required_def TrimSpace_idem Let_def
        tryM_def retM_def split: sum.splits prod.splits)
  then have ins: "sql_insert_worker v (db_seen w) = Inr (wdb w', ())"
    unfolding WorkerRepo_CreateWorker_def by (elim run_elims pool_stmt_InrE) simp
  then show "wID v \<notin> wID ` set (dWorkers (db_seen w))"
    "wdb w' = (db_seen w)\<lparr>dWorkers := dWorkers (db_seen w) @ [v]\<rparr>"
    by (auto simp: sql_insert_worker_def split: if_splits)
qed

text \<open>C40: registering a worker, whatever other clients commit. A request with a blank host name or
  version, or without CPUs or memory, is refused with a validation error before any statement runs. When
  the call succeeds, exactly one row has been added and nothing else has changed: an IDLE worker under
  the new identifier, which was free, with the trimmed host name and version, the resources of the
  request and all three timestamps those of the call.\<close>

theorem RegisterWorker_stores_valid:
  "(\<not> valid_register req \<longrightarrow>
      (\<exists>e. WorkerService_RegisterWorker i now req w = (Inl e, w) \<and> validation_error e)) \<and>
   (\<forall>v w'. WorkerService_RegisterWorker i now req w = (Inr v, w') \<longrightarrow>
      valid_register req \<and>
      v = \<lparr>wID = i, wHostname = TrimSpace (rqHostname req), wVersion = TrimSpace (rqVersion req),
           wStatus = WorkerStatusIdle, wCPUCount = rqCPUCount req, wMemoryMB = rqMemoryMB req,
           wRegisteredAt = now, wLastHeartbeat = now, wUpdatedAt = now\<rparr> \<and>
      i \<notin> wID ` set (dWorkers (db_seen w)) \<and>
      wdb w' = (db_seen w)\<lparr>dWorkers := dWorkers (db_seen w) @ [v]\<rparr>)"
proof (intro conjI allI impI RegisterWorker_refused)
  fix v w'
  assume run: "WorkerService_RegisterWorker i now req w = (Inr v, w')"
  note stored = RegisterWorker_stored [OF run]
  show "i \<notin> wID ` set (dWorkers (db_seen w))" using stored(3) by (simp add: stored(2))
qed (simp_all add: RegisterWorker_stored)

theorem RegisterWorker_stores_valid_witness:
  "\<exists>v w'. WorkerService_RegisterWorker ''z'' 9 (ex_register ''w'') (ex_world ex_fleet) = (Inr v, w') \<and>
    wStatus v = WorkerStatusIdle \<and> dWorkers (wdb w') = dWorkers ex_fleet @ [v]"
proof -
  obtain v w' where run: "WorkerService_RegisterWorker ''z'' 9 (ex_register ''w'') (ex_world ex_fleet) = (Inr v, w')"
    by (simp add: ex_eval ex_service ex_register_defs ex_db_defs)
  have "wStatus v = WorkerStatusIdle" "dWorkers (wdb w') = dWorkers ex_fleet @ [v]"
    using RegisterWorker_stores_valid [of "ex_register ''w''" "''z''" 9 "ex_world ex_fleet"] run by simp_all
  with run show ?thesis by blast
qed

section \<open>Claims\<close>

text \<open>Any number of clients that try to claim a test one after the other: how many of them win.\<close>

primrec claims_won :: "nat \<Rightarrow> string \<Rightarrow> 'p world \<Rightarrow> nat" where
  "claims_won 0 tid w = 0"
| "claims_won (Suc n) tid w =
     (case TestRepo_TryTransitionStatus tid StatusCreated StatusStarting w of
        (r, w') \<Rightarrow> (if r = Inr True then 1 else 0) + claims_won n tid w')"

lemma claims_won_eq:
  "quiet w \<Longrightarrow> claims_won n tid w = test_store.claims tid StatusCreated StatusStarting n (wdb w)"
  by (induction n arbitrary: w)
     (auto simp: TestRepo_TryTransitionStatus_quiet test_store.claims.simps split: prod.split)

text \<open>Of any number of claims of a test, exactly one wins when the test is CREATED, and none
  otherwise, as long as nobody sets it back to CREATED.\<close>

theorem claimed_once:
  assumes "quiet w" "integrity (wdb w)" "0 < n"
  shows "claims_won n tid w = (if test_status tid (wdb w) = Some StatusCreated then 1 else 0)"
proof -
  have "distinct_tests (wdb w)" using assms(2) by (simp add: integrity_def distinct_tests_def)
  from test_store.claims_at_most_one [OF this, of StatusCreated StatusStarting tid n] assms(3)
  show ?thesis by (simp add: claims_won_eq [OF assms(1)])
qed

theorem claimed_once_witness: "claims_won 5 ''A'' (ex_world ex_created) = 1"
  using claimed_once [of "ex_world ex_created" 5 "''A''"] ex_integrity(1)
  by (simp add: test_status_def find_row_def ex_db_defs ex_test_def)

end
