(* ===== verification/Http.thy ===== *)
theory Http
  imports Prelude
begin

text \<open>
  What the HTTP clients of the program share: requests and responses as the code sees them, a server
  as a function from the requests received so far to its answer (so that an answer may depend on
  everything before it), and the escaping of query parameters (\<open>url.Values.Encode\<close>) with its inverse.
\<close>

section \<open>Messages\<close>

record http_request =
  hqMethod :: string
  hqURL :: string
  hqContentType :: "string option"
  hqBody :: string

record http_response =
  hrStatusCode :: int
  hrStatus :: string
  hrBody :: string

text \<open>A transport error, or a response; the last request of the list is the one answered.\<close>

type_synonym server = "http_request list \<Rightarrow> go_error + http_response"

definition http_do :: "server \<Rightarrow> http_request \<Rightarrow> http_request list \<Rightarrow> (go_error + http_response) \<times> http_request list" where
  "http_do srv req sent = (srv (sent @ [req]), sent @ [req])"

lemma http_do_sent [simp]: "snd (http_do srv req sent) = sent @ [req]"
  by (simp add: http_do_def)

text \<open>
  An operation of a client threads the requests sent; it returns early with the error of the first
  call that fails. \<open>url_ok\<close> is what the standard library says of a URL before a request is made of it.
\<close>

type_synonym ('s, 'a) stateful = "'s \<Rightarrow> (go_error + 'a) \<times> 's"
type_synonym 'a http_io = "(http_request list, 'a) stateful"
type_synonym 's transport = "http_request \<Rightarrow> ('s, http_response) stateful"

definition http_ret :: "'a \<Rightarrow> ('s, 'a) stateful" where
  "http_ret x s = (Inr x, s)"

definition http_fail :: "go_error \<Rightarrow> ('s, 'a) stateful" where
  "http_fail err s = (Inl err, s)"

definition http_try :: "('s, 'a) stateful \<Rightarrow> ('a \<Rightarrow> ('s, 'b) stateful) \<Rightarrow> ('s, 'b) stateful" where
  "http_try m k s = (case m s of (Inl err, s') \<Rightarrow> (Inl err, s') | (Inr x, s') \<Rightarrow> k x s')"

lemmas http_defs = http_ret_def http_fail_def http_try_def http_do_def

definition http_send :: "(string \<Rightarrow> go_error option) \<Rightarrow> 's transport \<Rightarrow> 's transport" where
  "http_send url_ok transport req =
     (case url_ok (hqURL req) of Some err \<Rightarrow> http_fail err | None \<Rightarrow> transport req)"

section \<open>Escaping query parameters\<close>

definition unreserved :: "char \<Rightarrow> bool" where
  "unreserved c \<longleftrightarrow>
     c \<in> set ''ABCDEFGHIJKLMNOPQRSTUVWXYZabcdefghijklmnopqrstuvwxyz0123456789-_.~''"

definition hex_digit :: "nat \<Rightarrow> char" where
  "hex_digit n = ''0123456789ABCDEF'' ! n"

definition unhex :: "char \<Rightarrow> nat" where
  "unhex c = (let n = of_char c in if n < 58 then n - 48 else n - 55)"

definition escape_char :: "char \<Rightarrow> string" where
  "escape_char c =
     (if unreserved c then [c] else if c = CHR '' '' then ''+''
      else [CHR ''%'', hex_digit (of_char c div 16), hex_digit (of_char c mod 16)])"

definition QueryEscape :: "string \<Rightarrow> string" where
  "QueryEscape s = concat (map escape_char s)"

fun QueryUnescape :: "string \<Rightarrow> string" where
  "QueryUnescape [] = []"
| "QueryUnescape (c # cs) =
     (if c = CHR ''%'' then
        (case cs of
           a # b # rest \<Rightarrow> char_of (16 * unhex a + unhex b) # QueryUnescape rest
         | _ \<Rightarrow> [])
      else (if c = CHR ''+'' then CHR '' '' else c) # QueryUnescape cs)"

lemma unhex_digit: "n < 16 \<Longrightarrow> unhex (hex_digit n) = n"
proof -
  have "\<forall>n<16. unhex (hex_digit n) = n" by code_simp
  then show "n < 16 \<Longrightarrow> unhex (hex_digit n) = n" by blast
qed

lemma unreserved_plain: "unreserved c \<Longrightarrow> c \<noteq> CHR ''%'' \<and> c \<noteq> CHR ''+''"
  by (auto simp: unreserved_def)

lemma unescape_char: "QueryUnescape (escape_char c @ cs) = c # QueryUnescape cs"
proof -
  have c: "of_char c < (256::nat)" by simp
  have "of_char c = (16 * (of_char c div 16) + of_char c mod 16 :: nat)" by simp
  then have "char_of (16 * (of_char c div 16) + of_char c mod 16 :: nat) = c" by (metis char_of_char)
  moreover have "of_char c div 16 < (16::nat)" "of_char c mod 16 < (16::nat)"
    using c by (simp_all add: less_mult_imp_div_less)
  ultimately show ?thesis
    using unreserved_plain [of c] by (auto simp: escape_char_def unhex_digit simp del: of_char_of)
qed

lemma QueryUnescape_QueryEscape: "QueryUnescape (QueryEscape s) = s"
  by (induction s) (simp_all add: QueryEscape_def unescape_char)

text \<open>An escaped parameter holds none of the characters that structure a query.\<close>

definition structural :: "char \<Rightarrow> bool" where
  "structural c \<longleftrightarrow> c \<in> set ''&=?#''"

lemma not_structural:
  "unreserved c \<Longrightarrow> \<not> structural c" "n < 16 \<Longrightarrow> \<not> structural (hex_digit n)"
  "\<not> structural (CHR ''%'')" "\<not> structural (CHR ''+'')"
proof -
  have "list_all (\<lambda>c. \<not> structural c)
      ''ABCDEFGHIJKLMNOPQRSTUVWXYZabcdefghijklmnopqrstuvwxyz0123456789-_.~''" by code_simp
  then show "unreserved c \<Longrightarrow> \<not> structural c" unfolding unreserved_def list_all_iff by blast
  have "\<forall>n<16. \<not> structural (hex_digit n)" by code_simp
  then show "n < 16 \<Longrightarrow> \<not> structural (hex_digit n)" by blast
qed (code_simp, code_simp)

lemma QueryEscape_plain: "c \<in> set (QueryEscape s) \<Longrightarrow> \<not> structural c"
proof -
  have "\<not> structural x" if "x \<in> set (escape_char c)" for x c
  proof -
    have "of_char c < (256::nat)" by simp
    then have "of_char c div 16 < (16::nat)" "of_char c mod 16 < (16::nat)"
      by (simp_all add: less_mult_imp_div_less)
    with that show ?thesis by (auto simp: escape_char_def not_structural split: if_splits)
  qed
  then show "c \<in> set (QueryEscape s) \<Longrightarrow> \<not> structural c" by (auto simp: QueryEscape_def)
qed

end
