(* ===== verification/ControlPlane.thy ===== *)
theory ControlPlane
  imports Http Models
begin

text \<open>
  \<open>internal/controlplane/client.go\<close>: the worker's client of the control plane. Every call is one
  request with one expected status; any other status is an error that carries the body. The network is
  a \<open>transport\<close> over an arbitrary state, the JSON encoder and decoder are arguments (\<open>codec\<close>).
  A worker status is a string type in Go: the worker reports whatever string it holds.
\<close>

section \<open>Messages\<close>

record RegisterWorkerPayload =
  rwHostname :: string
  rwVersion :: string
  rwCPUCount :: int
  rwMemoryMB :: int

record RegisterWorkerResponse =
  rrID :: string
  rrHostname :: string
  rrStatus :: string

record AssignmentResponse =
  arAssigned :: bool
  arTestID :: string
  arStatus :: string
  arTargetURL :: string
  arMethod :: string
  arDurationSec :: int
  arRPS :: int
  arConcurrency :: int

record TestStatusResponse =
  tsrID :: string
  tsrStatus :: string

record codec =
  encRegister :: "RegisterWorkerPayload \<Rightarrow> string"
  encHeartbeat :: "string \<Rightarrow> string"
  encTransition :: "string \<Rightarrow> string"
  decRegister :: "string \<Rightarrow> go_error + RegisterWorkerResponse"
  decAssignment :: "string \<Rightarrow> go_error + AssignmentResponse"
  decTest :: "string \<Rightarrow> go_error + TestStatusResponse"

section \<open>The client\<close>

text \<open>\<open>strings.TrimRight(s, "/")\<close>.\<close>

definition trim_slashes :: "string \<Rightarrow> string" where
  "trim_slashes s = rev (dropWhile (\<lambda>c. c = CHR ''/'') (rev s))"

record 's Client =
  ccBaseURL :: string
  ccURLOk :: "string \<Rightarrow> go_error option"
  ccTransport :: "'s transport"
  ccCodec :: codec

definition New :: "(string \<Rightarrow> go_error option) \<Rightarrow> 's transport \<Rightarrow> codec \<Rightarrow> string \<Rightarrow> 's Client" where
  "New url_ok transport c baseURL =
     \<lparr>ccBaseURL = trim_slashes baseURL, ccURLOk = url_ok, ccTransport = transport, ccCodec = c\<rparr>"

definition doRequest ::
    "'s Client \<Rightarrow> string \<Rightarrow> string \<Rightarrow> string option \<Rightarrow> (string \<Rightarrow> go_error + 'a) \<Rightarrow> int \<Rightarrow> ('s, 'a) stateful" where
  "doRequest c method path request response expectedStatus =
     http_try (http_send (ccURLOk c) (ccTransport c)
        \<lparr>hqMethod = method, hqURL = ccBaseURL c @ path, hqContentType = Some ''application/json'',
         hqBody = (case request of None \<Rightarrow> [] | Some payload \<Rightarrow> payload)\<rparr>)
     (\<lambda>resp.
        if hrStatusCode resp \<noteq> expectedStatus
        then http_fail (Errorf (method @ '' '' @ path @ '' failed ('' @ itoa (hrStatusCode resp) @ ''): '' @
                                hrBody resp))
        else case response (hrBody resp) of Inl err \<Rightarrow> http_fail err | Inr x \<Rightarrow> http_ret x)"

text \<open>A nil response: the body is not read.\<close>

definition no_response :: "string \<Rightarrow> go_error + unit" where
  "no_response body = Inr ()"

definition Client_RegisterWorker :: "'s Client \<Rightarrow> RegisterWorkerPayload \<Rightarrow> ('s, RegisterWorkerResponse) stateful" where
  "Client_RegisterWorker c req =
     doRequest c ''POST'' ''/api/v1/workers'' (Some (encRegister (ccCodec c) req)) (decRegister (ccCodec c)) 201"

definition Client_Heartbeat :: "'s Client \<Rightarrow> string \<Rightarrow> string \<Rightarrow> ('s, unit) stateful" where
  "Client_Heartbeat c workerID status =
     doRequest c ''POST'' (''/api/v1/workers/'' @ workerID @ ''/heartbeat'')
       (Some (encHeartbeat (ccCodec c) status)) no_response 204"

definition Client_GetAssignment :: "'s Client \<Rightarrow> string \<Rightarrow> ('s, AssignmentResponse) stateful" where
  "Client_GetAssignment c workerID =
     doRequest c ''GET'' (''/api/v1/workers/'' @ workerID @ ''/assignment'') None (decAssignment (ccCodec c)) 200"

definition Client_StartAssignment :: "'s Client \<Rightarrow> string \<Rightarrow> string \<Rightarrow> ('s, unit) stateful" where
  "Client_StartAssignment c workerID testID =
     doRequest c ''POST'' (''/api/v1/workers/'' @ workerID @ ''/assignment/start'')
       (Some (encTransition (ccCodec c) testID)) no_response 204"

definition Client_CompleteAssignment :: "'s Client \<Rightarrow> string \<Rightarrow> string \<Rightarrow> ('s, unit) stateful" where
  "Client_CompleteAssignment c workerID testID =
     doRequest c ''POST'' (''/api/v1/workers/'' @ workerID @ ''/assignment/complete'')
       (Some (encTransition (ccCodec c) testID)) no_response 204"

definition Client_FailAssignment :: "'s Client \<Rightarrow> string \<Rightarrow> string \<Rightarrow> ('s, unit) stateful" where
  "Client_FailAssignment c workerID testID =
     doRequest c ''POST'' (''/api/v1/workers/'' @ workerID @ ''/assignment/fail'')
       (Some (encTransition (ccCodec c) testID)) no_response 204"

definition Client_GetTest :: "'s Client \<Rightarrow> string \<Rightarrow> ('s, TestStatusResponse) stateful" where
  "Client_GetTest c testID =
     doRequest c ''GET'' (''/api/v1/tests/'' @ testID) None (decTest (ccCodec c)) 200"

lemmas client_defs = Client_RegisterWorker_def Client_Heartbeat_def Client_GetAssignment_def
  Client_StartAssignment_def Client_CompleteAssignment_def Client_FailAssignment_def Client_GetTest_def

end
