(* ===== verification/GoFloat.thy ===== *)
theory GoFloat
  imports Prelude Complex_Main
begin

text \<open>
  Go's \<open>float64\<close> for the finite values the telemetry computes with: a value is the rational it stands
  for, and every operation rounds the exact result to the nearest value of 53 significant bits, ties to
  even. The laws the components use are the interface \<open>rounding\<close>. Infinities and NaN do not occur:
  no divisor is zero and no magnitude comes near \<open>2 ^ 1024\<close>.
\<close>

type_synonym float64 = rat

section \<open>Rounding\<close>

definition round_even :: "rat \<Rightarrow> int" where
  "round_even x =
     (let n = \<lfloor>x\<rfloor>; d = x - of_int n in
      if d < 1 / 2 then n else if 1 / 2 < d then n + 1 else if even n then n else n + 1)"

text \<open>The number of binary digits; with it the exponent \<open>e\<close> with \<open>2 powi e \<le> x < 2 powi (e + 1)\<close>.\<close>

function bit_length :: "int \<Rightarrow> int" where
  "bit_length n = (if n \<le> 0 then 0 else 1 + bit_length (n div 2))"
  by pat_completeness auto
termination
  by (relation "measure nat") auto

declare bit_length.simps [simp del]

definition ilog2 :: "rat \<Rightarrow> int" where
  "ilog2 x =
     (let (n, d) = quotient_of x; k = bit_length n - bit_length d in
      if 2 powi k \<le> x then k else k - 1)"

definition ulp_exponent :: "rat \<Rightarrow> int" where
  "ulp_exponent x = max (ilog2 x - 52) (- 1074)"

definition f64 :: "rat \<Rightarrow> float64" where
  "f64 x =
     (if x = 0 then 0
      else let e = ulp_exponent \<bar>x\<bar> in of_int (round_even (x / 2 powi e)) * 2 powi e)"

text \<open>Conversion of an integer, multiplication, division and addition of floats.\<close>

definition float_of_int :: "int \<Rightarrow> float64" where
  "float_of_int n = f64 (of_int n)"

definition fmul :: "float64 \<Rightarrow> float64 \<Rightarrow> float64" where
  "fmul x y = f64 (x * y)"

definition fdiv :: "float64 \<Rightarrow> float64 \<Rightarrow> float64" where
  "fdiv x y = f64 (x / y)"

definition fadd :: "float64 \<Rightarrow> float64 \<Rightarrow> float64" where
  "fadd x y = f64 (x + y)"

section \<open>What rounding promises\<close>

locale rounding =
  fixes rnd :: "rat \<Rightarrow> rat"
  assumes rnd_mono: "x \<le> y \<Longrightarrow> rnd x \<le> rnd y"
    and rnd_int: "\<bar>n\<bar> \<le> 9007199254740992 \<Longrightarrow> rnd (of_int n) = of_int n"
begin

lemma rnd_zero: "rnd 0 = 0"
  using rnd_int [of 0] by simp

lemma rnd_nonneg: "0 \<le> x \<Longrightarrow> 0 \<le> rnd x"
  using rnd_mono [of 0 x] by (simp add: rnd_zero)

lemma rnd_le_int: "x \<le> of_int n \<Longrightarrow> \<bar>n\<bar> \<le> 9007199254740992 \<Longrightarrow> rnd x \<le> of_int n"
  using rnd_mono [of x "of_int n"] by (simp add: rnd_int)

lemma rnd_ge_int: "of_int n \<le> x \<Longrightarrow> \<bar>n\<bar> \<le> 9007199254740992 \<Longrightarrow> of_int n \<le> rnd x"
  using rnd_mono [of "of_int n" x] by (simp add: rnd_int)

end

section \<open>Rounding to an integer\<close>

lemma round_even_int [simp]: "round_even (of_int n) = n"
  by (simp add: round_even_def Let_def)

lemma round_even_near: "\<lfloor>x\<rfloor> \<le> round_even x" "round_even x \<le> \<lfloor>x\<rfloor> + 1"
  by (simp_all add: round_even_def Let_def)

lemma round_even_mono: assumes "x \<le> y" shows "round_even x \<le> round_even y"
proof (cases "\<lfloor>x\<rfloor> = \<lfloor>y\<rfloor>")
  case True
  with assms show ?thesis by (auto simp: round_even_def Let_def)
next
  case False
  with floor_mono [OF assms] have "\<lfloor>x\<rfloor> + 1 \<le> \<lfloor>y\<rfloor>" by simp
  with round_even_near(2) [of x] round_even_near(1) [of y] show ?thesis by linarith
qed

lemma round_even_minus: "round_even (- x) = - round_even x"
proof (cases "x = of_int \<lfloor>x\<rfloor>")
  case True
  then have "- x = of_int (- \<lfloor>x\<rfloor>)" by simp
  with True show ?thesis by (metis round_even_int)
next
  case False
  have "\<lfloor>- x\<rfloor> = - \<lfloor>x\<rfloor> - 1"
    using False by (intro floor_unique) (linarith | simp)+
  then show ?thesis by (auto simp: round_even_def Let_def) 
qed

section \<open>The binary exponent\<close>

lemma bit_length_nonneg: "0 \<le> bit_length n"
  by (induction n rule: bit_length.induct) (subst bit_length.simps, simp)

lemma bit_length_bounds:
  "0 < n \<Longrightarrow> (2::rat) powi (bit_length n - 1) \<le> of_int n \<and> of_int n < (2::rat) powi bit_length n"
proof (induction n rule: bit_length.induct)
  case (1 n)
  have step: "bit_length n = 1 + bit_length (n div 2)" using "1.prems" by (subst bit_length.simps) simp
  show ?case
  proof (cases "n = 1")
    case True
    then have "bit_length (n div 2) = 0" by (subst bit_length.simps) simp
    with step True show ?thesis by simp
  next
    case False
    define m where "m = n div 2"
    from False "1.prems" have "0 < m" by (simp add: m_def)
    with "1.IH" "1.prems" have IH: "(2::rat) powi (bit_length m - 1) \<le> of_int m" "of_int m < (2::rat) powi bit_length m"
      by (simp_all add: m_def)
    have "of_int m + 1 \<le> (2::rat) powi bit_length m"
    proof -
      from IH(1) \<open>0 < m\<close> have "0 \<le> bit_length m" using bit_length_nonneg [of m] by simp
      then have "(2::rat) powi bit_length m = of_int (2 ^ nat (bit_length m))" by (simp add: power_int_def)
      with IH(2) show ?thesis by (metis add1_zle_eq of_int_1 of_int_add of_int_le_iff of_int_less_iff)
    qed
    moreover have "rat_of_int n \<le> of_int (2 * (m + 1) - 1)" "rat_of_int (2 * m) \<le> of_int n"
      unfolding of_int_le_iff m_def by presburger+
    moreover have "(2::rat) powi (1 + bit_length m) = 2 * 2 powi bit_length m"
      "(2::rat) powi (1 + bit_length m - 1) = 2 * 2 powi (bit_length m - 1)"
      by (simp_all add: power_int_add power_int_diff)
    ultimately show ?thesis unfolding step m_def [symmetric] using IH by simp
  qed
qed

lemma ilog2_bounds:
  assumes "0 < x"
  shows "2 powi ilog2 x \<le> x" "x < 2 powi (ilog2 x + 1)"
proof -
  obtain n d where q: "quotient_of x = (n, d)" by fastforce
  have d: "0 < d" and x: "x = of_int n / of_int d"
    using quotient_of_denom_pos [OF q] quotient_of_div [OF q] by simp_all
  with assms have n: "0 < n" by (simp add: zero_less_divide_iff)
  define a b where "a = bit_length n" and "b = bit_length d"
  have n2: "(2::rat) powi (a - 1) \<le> of_int n" "of_int n < (2::rat) powi a"
    using bit_length_bounds [OF n] by (simp_all add: a_def)
  have d2: "(2::rat) powi (b - 1) \<le> of_int d" "of_int d < (2::rat) powi b"
    using bit_length_bounds [OF d] by (simp_all add: b_def)
  have d0: "0 < rat_of_int d" using d by simp
  have "(2::rat) powi (a - b - 1) * of_int d \<le> 2 powi (a - b - 1) * 2 powi b"
    using d2(2) by (intro mult_left_mono) (simp_all add: less_imp_le)
  also have "\<dots> = 2 powi (a - 1)" by (simp flip: power_int_add)
  finally have low: "2 powi (a - b - 1) \<le> x" using n2(1) d0 by (simp add: x pos_le_divide_eq)
  have "(2::rat) powi a = 2 powi (a - b + 1) * 2 powi (b - 1)" by (simp flip: power_int_add)
  also have "\<dots> \<le> 2 powi (a - b + 1) * of_int d" using d2(1) by (intro mult_left_mono) simp_all
  finally have high: "x < 2 powi (a - b + 1)" using n2(2) d0 by (simp add: x pos_divide_less_eq)
  have il: "ilog2 x = (if 2 powi (a - b) \<le> x then a - b else a - b - 1)"
    by (simp add: ilog2_def q a_def b_def Let_def)
  show "2 powi ilog2 x \<le> x" "x < 2 powi (ilog2 x + 1)" using low high by (simp_all add: il)
qed

lemma powi_two_less [simp]: "(2::rat) powi i < 2 powi j \<longleftrightarrow> i < j"
  using power_int_strict_increasing [of i j "2::rat"] power_int_increasing [of j i "2::rat"] by force

lemma powi_two_le [simp]: "(2::rat) powi i \<le> 2 powi j \<longleftrightarrow> i \<le> j"
  by (meson linorder_not_less powi_two_less)

lemma ilog2_mono: assumes "0 < x" "x \<le> y" shows "ilog2 x \<le> ilog2 y"
proof -
  have "2 powi ilog2 x \<le> x" "y < 2 powi (ilog2 y + 1)" using assms ilog2_bounds by auto
  with assms(2) have "(2::rat) powi ilog2 x < 2 powi (ilog2 y + 1)" by linarith
  then show ?thesis by simp
qed

lemma powi_two_nat: "0 \<le> k \<Longrightarrow> (2::rat) powi k = of_int (2 ^ nat k)"
  by (simp add: power_int_def)

section \<open>float64 satisfies the laws\<close>

definition snap :: "int \<Rightarrow> rat \<Rightarrow> rat" where
  "snap e x = of_int (round_even (x / 2 powi e)) * 2 powi e"

lemma f64_pos: "0 < x \<Longrightarrow> f64 x = snap (ulp_exponent x) x"
  by (simp add: f64_def snap_def Let_def)

lemma f64_neg: "x < 0 \<Longrightarrow> f64 x = - f64 (- x)"
  by (simp add: f64_def Let_def round_even_minus)

lemma snap_mono: "x \<le> y \<Longrightarrow> snap e x \<le> snap e y"
  unfolding snap_def
  by (intro mult_right_mono of_int_le_iff [THEN iffD2] round_even_mono divide_right_mono) simp_all

lemma snap_exact: "x = of_int n * 2 powi e \<Longrightarrow> snap e x = x"
  by (simp add: snap_def)

lemma snap_power: "e \<le> i \<Longrightarrow> snap e (2 powi i) = 2 powi i"
proof -
  assume "e \<le> i"
  then have "(2::rat) powi i = of_int (2 ^ nat (i - e)) * 2 powi e"
    by (subst powi_two_nat [symmetric]) (simp_all flip: power_int_add)
  then show ?thesis by (rule snap_exact)
qed

lemma snap_zero [simp]: "snap e 0 = 0"
  using round_even_int [of 0] by (simp add: snap_def)

lemma f64_nonneg: "0 \<le> x \<Longrightarrow> 0 \<le> f64 x"
  using snap_mono [of 0 x] by (cases "x = 0") (simp_all add: f64_pos, simp add: f64_def)

lemma f64_mono_pos:
  assumes "0 < x" "x \<le> y"
  shows "f64 x \<le> f64 y"
proof (cases "ulp_exponent x = ulp_exponent y")
  case True
  with assms show ?thesis by (simp add: f64_pos snap_mono)
next
  case False
  have le: "ilog2 x \<le> ilog2 y" using assms by (rule ilog2_mono)
  with False have e: "ulp_exponent x < ulp_exponent y" "ilog2 x + 1 \<le> ilog2 y"
    "ulp_exponent y \<le> ilog2 y" by (auto simp: ulp_exponent_def)
  from assms(1) have "x \<le> 2 powi (ilog2 x + 1)" by (simp add: ilog2_bounds less_imp_le)
  also have "\<dots> \<le> 2 powi ilog2 y" using e(2) by simp
  finally have "snap (ulp_exponent x) x \<le> snap (ulp_exponent x) (2 powi ilog2 y)" by (rule snap_mono)
  also have "\<dots> = snap (ulp_exponent y) (2 powi ilog2 y)" using e by (simp add: snap_power)
  also have "\<dots> \<le> snap (ulp_exponent y) y" using assms by (intro snap_mono ilog2_bounds) simp
  finally show ?thesis using assms by (simp add: f64_pos)
qed

lemma f64_mono: assumes "x \<le> y" shows "f64 x \<le> f64 y"
proof -
  consider "0 < x" | "x \<le> 0" "0 \<le> y" | "y < 0" by linarith
  then show ?thesis
  proof cases
    case 1
    then show ?thesis using assms by (rule f64_mono_pos)
  next
    case 2
    have "f64 x \<le> 0" using 2(1) f64_nonneg [of "- x"] by (cases "x = 0") (simp_all add: f64_neg, simp add: f64_def)
    with f64_nonneg [OF 2(2)] show ?thesis by linarith
  next
    case 3
    with assms f64_mono_pos [of "- y" "- x"] show ?thesis by (simp add: f64_neg)
  qed
qed

lemma ilog2_less: "0 < x \<Longrightarrow> x < 2 powi (k + 1) \<Longrightarrow> ilog2 x \<le> k"
proof -
  assume "0 < x" "x < 2 powi (k + 1)"
  then have "(2::rat) powi ilog2 x < 2 powi (k + 1)" using ilog2_bounds(1) [of x] by linarith
  then show ?thesis by simp
qed

lemma f64_int_pos:
  assumes "0 < n" "n \<le> 9007199254740992"
  shows "f64 (of_int n) = of_int n"
proof (cases "n = 9007199254740992")
  case True
  have p: "rat_of_int n = 2 powi 53" by (simp add: True)
  have "ilog2 (2 powi 53) \<le> 53" by (rule ilog2_less) simp_all
  then have "ulp_exponent (2 powi 53) \<le> 53" by (simp add: ulp_exponent_def)
  then show ?thesis unfolding p by (subst f64_pos) (simp_all only: snap_power zero_less_power_int zero_less_numeral)
next
  case False
  with assms have "rat_of_int n < of_int (2 ^ 53)" by (subst of_int_less_iff) simp
  then have "ilog2 (of_int n) \<le> 52" using assms by (intro ilog2_less) simp_all
  then have e: "ulp_exponent (of_int n) \<le> 0" by (simp add: ulp_exponent_def)
  let ?e = "ulp_exponent (of_int n)"
  have "rat_of_int n = of_int (n * 2 ^ nat (- ?e)) * 2 powi ?e"
    using e powi_two_nat [of "- ?e"] by (simp add: power_int_minus field_simps)
  then show ?thesis using assms by (subst f64_pos) (simp_all only: snap_exact of_int_0_less_iff)
qed

lemma f64_zero [simp]: "f64 0 = 0"
  by (simp add: f64_def)

lemma f64_int:
  assumes "\<bar>n\<bar> \<le> 9007199254740992"
  shows "f64 (of_int n) = of_int n"
proof -
  consider "n = 0" | "0 < n" | "n < 0" by linarith
  then show ?thesis
  proof cases
    case 1
    then show ?thesis by simp
  next
    case 2
    with assms show ?thesis by (intro f64_int_pos) simp_all
  next
    case 3
    then have "f64 (of_int n) = - f64 (of_int (- n))" by (subst f64_neg) simp_all
    also have "f64 (of_int (- n)) = of_int (- n)" using 3 assms by (intro f64_int_pos) simp_all
    finally show ?thesis by simp
  qed
qed

interpretation ieee: rounding f64
proof
  show "f64 x \<le> f64 y" if "x \<le> y" for x y using that by (rule f64_mono)
  show "f64 (of_int n) = of_int n" if "\<bar>n\<bar> \<le> 9007199254740992" for n
    by (rule f64_int) (use that in simp)
qed

lemma float_of_int_exact: "\<bar>n\<bar> \<le> 9007199254740992 \<Longrightarrow> float_of_int n = of_int n"
  by (simp add: float_of_int_def ieee.rnd_int)

end
