(* ===== verification/Metrics.thy ===== *)
theory Metrics
  imports Models GoFloat
begin

text \<open>
  Package \<open>internal/metrics\<close>: what a worker measures. The collector counts the requests of one
  assignment in 64-bit counters; a flush turns the counts since the last one into a bucket and starts
  again, and the publisher sends the bucket to a subject of its test. The reference is
  \<open>summary\<close>, which computes a bucket from the list of results.
\<close>

section \<open>Requests and buckets\<close>

record RequestResult =
  rrLatency :: int
  rrSuccess :: bool
  rrBytesSent :: int
  rrBytesReceived :: int

record MetricBucket =
  mbTestID :: string
  mbWorkerID :: string
  mbWindowStart :: time
  mbWindowEnd :: time
  mbRequests :: int
  mbSuccesses :: int
  mbFailures :: int
  mbBytesSent :: int
  mbBytesReceived :: int
  mbAvgLatencyMs :: float64
  mbMaxLatencyMs :: float64

section \<open>The collector\<close>

record Collector =
  coTestID :: string
  coWorkerID :: string
  coWindowStart :: time
  coRequests :: int
  coSuccesses :: int
  coFailures :: int
  coBytesSent :: int
  coBytesReceived :: int
  coTotalLatency :: int
  coMaxLatency :: int

definition NewCollector :: "string \<Rightarrow> string \<Rightarrow> time \<Rightarrow> Collector" where
  "NewCollector testID workerID now =
     \<lparr>coTestID = testID, coWorkerID = workerID, coWindowStart = now, coRequests = 0, coSuccesses = 0,
      coFailures = 0, coBytesSent = 0, coBytesReceived = 0, coTotalLatency = 0, coMaxLatency = 0\<rparr>"

definition Collector_Record :: "RequestResult \<Rightarrow> Collector \<Rightarrow> Collector" where
  "Collector_Record result c =
     (let c1 = c\<lparr>coRequests := wrap64 (coRequests c + 1)\<rparr>;
          c2 = (if rrSuccess result then c1\<lparr>coSuccesses := wrap64 (coSuccesses c1 + 1)\<rparr>
                else c1\<lparr>coFailures := wrap64 (coFailures c1 + 1)\<rparr>);
          c3 = c2\<lparr>coBytesSent := wrap64 (coBytesSent c2 + rrBytesSent result),
                  coBytesReceived := wrap64 (coBytesReceived c2 + rrBytesReceived result),
                  coTotalLatency := wrap64 (coTotalLatency c2 + rrLatency result)\<rparr>
      in if rrLatency result > coMaxLatency c3 then c3\<lparr>coMaxLatency := rrLatency result\<rparr> else c3)"

text \<open>\<open>Duration.Milliseconds\<close> drops the fraction.\<close>

definition Milliseconds :: "int \<Rightarrow> int" where
  "Milliseconds d = d sdiv 1000000"

definition Collector_Flush :: "time \<Rightarrow> Collector \<Rightarrow> MetricBucket \<times> Collector" where
  "Collector_Flush now c =
     (let avgLatency = (if coRequests c > 0
            then fdiv (float_of_int (Milliseconds (coTotalLatency c))) (float_of_int (coRequests c)) else 0)
      in (\<lparr>mbTestID = coTestID c, mbWorkerID = coWorkerID c, mbWindowStart = coWindowStart c,
           mbWindowEnd = now, mbRequests = coRequests c, mbSuccesses = coSuccesses c,
           mbFailures = coFailures c, mbBytesSent = coBytesSent c, mbBytesReceived = coBytesReceived c,
           mbAvgLatencyMs = avgLatency,
           mbMaxLatencyMs = float_of_int (Milliseconds (coMaxLatency c))\<rparr>,
          c\<lparr>coWindowStart := now, coRequests := 0, coSuccesses := 0, coFailures := 0, coBytesSent := 0,
            coBytesReceived := 0, coTotalLatency := 0, coMaxLatency := 0\<rparr>))"

section \<open>The simulator\<close>

text \<open>One tick draws four numbers, \<open>rand.Intn\<close> of 190, 100, 1000 and 4000.\<close>

definition simulated_request :: "int \<Rightarrow> int \<Rightarrow> int \<Rightarrow> int \<Rightarrow> RequestResult" where
  "simulated_request r1 r2 r3 r4 =
     \<lparr>rrLatency = wrap64 ((10 + r1) * 1000000), rrSuccess = r2 < 95, rrBytesSent = 500 + r3,
      rrBytesReceived = 1000 + r4\<rparr>"

definition Simulator_Run :: "(int \<times> int \<times> int \<times> int) list \<Rightarrow> Collector \<Rightarrow> Collector" where
  "Simulator_Run draws c =
     fold (\<lambda>(r1, r2, r3, r4). Collector_Record (simulated_request r1 r2 r3 r4)) draws c"

section \<open>The publisher\<close>

text \<open>The JSON encoder and the connection are arguments.\<close>

definition Publisher_Publish ::
    "(MetricBucket \<Rightarrow> go_error + string) \<Rightarrow> (string \<Rightarrow> string \<Rightarrow> go_error option) \<Rightarrow> MetricBucket \<Rightarrow>
     go_error option" where
  "Publisher_Publish marshal publish bucket =
     (case marshal bucket of
        Inl err \<Rightarrow> Some err
      | Inr data \<Rightarrow> publish (''metrics.test.'' @ mbTestID bucket) data)"

section \<open>The reference\<close>

text \<open>64-bit addition is addition modulo \<open>2 ^ 64\<close>: only the last wrap counts.\<close>

lemma add_mod_cancel: "(x + c) mod m = (y + c) mod m \<longleftrightarrow> x mod m = y mod (m::int)"
  unfolding mod_eq_dvd_iff by simp

lemma diff_cancel_int: "x - c = y - c \<longleftrightarrow> x = (y::int)"
  by simp

lemma wrap64_mod: "wrap64 x = wrap64 y \<longleftrightarrow> x mod 18446744073709551616 = y mod 18446744073709551616"
  unfolding wrap64_def diff_cancel_int add_mod_cancel by (rule refl)

lemma wrap64_wrap64 [simp]: "wrap64 (wrap64 x) = wrap64 x"
  by (simp add: wrap64_id)

lemma wrap64_add_left [simp]: "wrap64 (wrap64 x + y) = wrap64 (x + y)"
  unfolding wrap64_mod
  by (rule mod_add_cong [OF wrap64_mod [THEN iffD1, OF wrap64_wrap64] refl])

lemma wrap64_add_right [simp]: "wrap64 (x + wrap64 y) = wrap64 (x + y)"
  using wrap64_add_left [of y x] by (simp add: add.commute)

definition counted :: "('a \<Rightarrow> bool) \<Rightarrow> 'a list \<Rightarrow> int" where
  "counted P xs = int (length (filter P xs))"

definition totalled :: "('a \<Rightarrow> int) \<Rightarrow> 'a list \<Rightarrow> int" where
  "totalled f xs = sum_list (map f xs)"

definition longest :: "RequestResult list \<Rightarrow> int" where
  "longest rs = foldl max 0 (map rrLatency rs)"

definition recorded :: "string \<Rightarrow> string \<Rightarrow> time \<Rightarrow> RequestResult list \<Rightarrow> Collector" where
  "recorded t w start rs =
     \<lparr>coTestID = t, coWorkerID = w, coWindowStart = start, coRequests = wrap64 (int (length rs)),
      coSuccesses = wrap64 (counted rrSuccess rs), coFailures = wrap64 (counted (\<lambda>r. \<not> rrSuccess r) rs),
      coBytesSent = wrap64 (totalled rrBytesSent rs),
      coBytesReceived = wrap64 (totalled rrBytesReceived rs),
      coTotalLatency = wrap64 (totalled rrLatency rs), coMaxLatency = longest rs\<rparr>"

definition summary :: "string \<Rightarrow> string \<Rightarrow> time \<Rightarrow> time \<Rightarrow> RequestResult list \<Rightarrow> MetricBucket" where
  "summary t w start now rs =
     (let n = wrap64 (int (length rs)) in
     \<lparr>mbTestID = t, mbWorkerID = w, mbWindowStart = start, mbWindowEnd = now, mbRequests = n,
      mbSuccesses = wrap64 (counted rrSuccess rs), mbFailures = wrap64 (counted (\<lambda>r. \<not> rrSuccess r) rs),
      mbBytesSent = wrap64 (totalled rrBytesSent rs),
      mbBytesReceived = wrap64 (totalled rrBytesReceived rs),
      mbAvgLatencyMs = (if n > 0 then fdiv (float_of_int (Milliseconds (wrap64 (totalled rrLatency rs)))) (float_of_int n) else 0),
      mbMaxLatencyMs = float_of_int (Milliseconds (longest rs))\<rparr>)"

lemma recorded_Nil: "recorded t w start [] = NewCollector t w start"
  by (simp add: recorded_def NewCollector_def counted_def totalled_def longest_def wrap64_def)

lemma recorded_snoc: "Collector_Record r (recorded t w start rs) = recorded t w start (rs @ [r])"
  by (simp add: Collector_Record_def recorded_def counted_def totalled_def longest_def Let_def
      max_def add_ac)

lemma Flush_recorded: "Collector_Flush now (recorded t w start rs) = (summary t w start now rs, recorded t w now [])"
  by (simp add: Collector_Flush_def recorded_def summary_def Let_def counted_def totalled_def longest_def
      wrap64_def)

section \<open>Recording and flushing\<close>

text \<open>The mutex makes each of the two operations atomic: a run is a sequence of them.\<close>

datatype collector_op = RecordOp RequestResult | FlushOp time

fun run_collector :: "collector_op list \<Rightarrow> Collector \<Rightarrow> MetricBucket list \<times> Collector" where
  "run_collector [] c = ([], c)"
| "run_collector (RecordOp r # ops) c = run_collector ops (Collector_Record r c)"
| "run_collector (FlushOp now # ops) c =
     (case Collector_Flush now c of (b, c') \<Rightarrow> case run_collector ops c' of (bs, c'') \<Rightarrow> (b # bs, c''))"

text \<open>What should come out: the results between two flushes, summarised.\<close>

fun summaries :: "string \<Rightarrow> string \<Rightarrow> time \<Rightarrow> RequestResult list \<Rightarrow> collector_op list \<Rightarrow> MetricBucket list" where
  "summaries t w start rs [] = []"
| "summaries t w start rs (RecordOp r # ops) = summaries t w start (rs @ [r]) ops"
| "summaries t w start rs (FlushOp now # ops) = summary t w start now rs # summaries t w now [] ops"

fun results_of :: "collector_op list \<Rightarrow> RequestResult list" where
  "results_of [] = []"
| "results_of (RecordOp r # ops) = r # results_of ops"
| "results_of (FlushOp now # ops) = results_of ops"

lemma run_recorded: "fst (run_collector ops (recorded t w start rs)) = summaries t w start rs ops"
proof (induction ops arbitrary: start rs)
  case (Cons x ops)
  then show ?case by (cases x) (simp_all add: recorded_snoc Flush_recorded split_beta)
qed simp

text \<open>The buckets of a collector, for every sequence of results and flushes: each bucket is the
  summary of exactly the results recorded since the flush before, counters modulo \<open>2 ^ 64\<close>, and its
  window begins where the window before ended; no result is counted twice or left out.\<close>

theorem collector_summaries:
  "fst (run_collector ops (NewCollector t w start)) = summaries t w start [] ops"
  by (simp flip: recorded_Nil add: run_recorded)

section \<open>Sums of buckets\<close>

definition bucket_total :: "(MetricBucket \<Rightarrow> int) \<Rightarrow> MetricBucket list \<Rightarrow> int" where
  "bucket_total f bs = wrap64 (sum_list (map f bs))"

lemma bucket_total_Cons: "bucket_total f (b # bs) = wrap64 (f b + bucket_total f bs)"
  by (simp add: bucket_total_def)

text \<open>A counter that a summary takes as the wrapped sum of a measure of the results.\<close>

lemma summaries_total:
  assumes "\<And>now rs. f (summary t w start now rs) = wrap64 (sum_list (map g rs))"
    and "\<And>s now rs. f (summary t w s now rs) = wrap64 (sum_list (map g rs))"
  shows "bucket_total f (summaries t w start rs (ops @ [FlushOp now])) =
    wrap64 (sum_list (map g rs) + sum_list (map g (results_of ops)))"
proof (induction ops arbitrary: start rs)
  case Nil
  show ?case by (simp add: bucket_total_def assms)
next
  case (Cons x ops)
  show ?case
  proof (cases x)
    case (RecordOp r)
    with Cons [of start "rs @ [r]"] show ?thesis by (simp add: add_ac)
  next
    case (FlushOp now)
    with Cons [of now "[]"] show ?thesis by (simp add: bucket_total_Cons assms)
  qed
qed

lemma counted_sum: "counted P xs = sum_list (map (\<lambda>x. if P x then 1 else 0) xs)"
  by (induction xs) (simp_all add: counted_def)

lemma length_sum: "int (length xs) = sum_list (map (\<lambda>x. 1) xs)"
  by (induction xs) simp_all

lemma counted_complement: "counted P xs + counted (\<lambda>x. \<not> P x) xs = int (length xs)"
  by (induction xs) (simp_all add: counted_def)

text \<open>No request is lost between the collector and its buckets. Whatever the flushes in between,
  after a last one the buckets add up, modulo \<open>2 ^ 64\<close>, to the number of requests, of successes, of
  failures and of bytes of the results recorded; and in every bucket successes and failures add up to
  requests.\<close>

theorem collector_conserves:
  fixes t w start ops now
  defines "bs \<equiv> fst (run_collector (ops @ [FlushOp now]) (NewCollector t w start))"
  shows "bucket_total mbRequests bs = wrap64 (int (length (results_of ops))) \<and>
    bucket_total mbSuccesses bs = wrap64 (counted rrSuccess (results_of ops)) \<and>
    bucket_total mbFailures bs = wrap64 (counted (\<lambda>r. \<not> rrSuccess r) (results_of ops)) \<and>
    bucket_total mbBytesSent bs = wrap64 (totalled rrBytesSent (results_of ops)) \<and>
    bucket_total mbBytesReceived bs = wrap64 (totalled rrBytesReceived (results_of ops)) \<and>
    list_all (\<lambda>b. mbRequests b = wrap64 (mbSuccesses b + mbFailures b)) bs"
proof -
  have bs: "bs = summaries t w start [] (ops @ [FlushOp now])"
    unfolding bs_def by (simp flip: recorded_Nil add: run_recorded)
  have each: "list_all (\<lambda>b. mbRequests b = wrap64 (mbSuccesses b + mbFailures b)) (summaries t w s rs xs)"
    for s rs xs
  proof (induction xs arbitrary: s rs)
    case (Cons x xs)
    then show ?case by (cases x) (simp_all add: summary_def Let_def counted_complement)
  qed simp
  show ?thesis
    unfolding bs length_sum counted_sum totalled_def
    by (intro conjI each; subst summaries_total)
       (simp_all add: summary_def Let_def length_sum counted_sum totalled_def)
qed

section \<open>Latencies\<close>

lemma foldl_max_le: "a \<le> foldl max (a::int) xs" "x \<in> set xs \<Longrightarrow> x \<le> foldl max a xs"
proof -
  have le: "a \<le> foldl max a xs" for a :: int and xs
  proof (induction xs arbitrary: a)
    case (Cons y xs)
    show ?case using Cons [of "max a y"] by simp
  qed simp
  then show "a \<le> foldl max a xs" .
  show "x \<in> set xs \<Longrightarrow> x \<le> foldl max a xs"
  proof (induction xs arbitrary: a)
    case (Cons y xs)
    then show ?case using le [of "max a y"] by auto
  qed simp
qed

lemma foldl_max_in: "foldl max (a::int) xs = a \<or> foldl max a xs \<in> set xs"
  by (induction xs arbitrary: a) (auto simp: max_def split: if_splits)

lemma totalled_le: "(\<And>x. x \<in> set xs \<Longrightarrow> f x \<le> b) \<Longrightarrow> totalled f xs \<le> int (length xs) * b"
proof (induction xs)
  case (Cons x xs)
  then have "f x \<le> b" "totalled f xs \<le> int (length xs) * b" by simp_all
  then show ?case by (simp add: totalled_def algebra_simps)
qed (simp add: totalled_def)

lemma totalled_nonneg: "(\<And>x. x \<in> set xs \<Longrightarrow> 0 \<le> f x) \<Longrightarrow> 0 \<le> totalled f xs"
  by (induction xs) (auto simp: totalled_def)

lemma totalled_ge: "(\<And>y. y \<in> set xs \<Longrightarrow> 0 \<le> f y) \<Longrightarrow> x \<in> set xs \<Longrightarrow> f x \<le> totalled f xs"
  using totalled_nonneg [of _ f] by (induction xs) (auto simp: totalled_def add_increasing add_increasing2)

lemma Milliseconds_nonneg: "0 \<le> d \<Longrightarrow> Milliseconds d = d div 1000000"
  by (simp add: Milliseconds_def sdiv_nonneg)

lemma longest_bounds:
  assumes "\<And>r. r \<in> set rs \<Longrightarrow> 0 \<le> rrLatency r" "totalled rrLatency rs \<le> max_int"
  shows "0 \<le> longest rs" "longest rs \<le> max_int" "r \<in> set rs \<Longrightarrow> rrLatency r \<le> longest rs"
proof -
  show "0 \<le> longest rs" by (simp add: longest_def foldl_max_le)
  show "r \<in> set rs \<Longrightarrow> rrLatency r \<le> longest rs" by (simp add: longest_def foldl_max_le)
  have "longest rs = 0 \<or> longest rs \<in> rrLatency ` set rs"
    using foldl_max_in [of 0 "map rrLatency rs"] by (simp add: longest_def)
  moreover have "rrLatency r \<le> totalled rrLatency rs" if "r \<in> set rs" for r
    using that assms(1) by (intro totalled_ge) simp_all
  ultimately show "longest rs \<le> max_int" using assms(2) by (fastforce simp: max_int_def)
qed

lemma summary_latencies:
  assumes "rs \<noteq> []" "\<And>r. r \<in> set rs \<Longrightarrow> 0 \<le> rrLatency r" "totalled rrLatency rs \<le> max_int"
    and "length rs \<le> 9007199254740992"
  shows "mbMaxLatencyMs (summary t w start now rs) = of_int (longest rs div 1000000) \<and>
    0 \<le> mbAvgLatencyMs (summary t w start now rs) \<and>
    mbAvgLatencyMs (summary t w start now rs) \<le> mbMaxLatencyMs (summary t w start now rs) + 1"
proof -
  let ?n = "int (length rs)" and ?s = "totalled rrLatency rs" and ?m = "longest rs div 1000000"
  have n: "0 < ?n" using assms(1) by simp
  have wn: "wrap64 ?n = ?n" using assms(4) by (intro wrap64_nonneg) (simp_all add: max_int_def)
  have s: "0 \<le> ?s" using assms(2) by (rule totalled_nonneg)
  then have ws: "wrap64 ?s = ?s" using assms(3) by (intro wrap64_nonneg) simp_all
  note long = longest_bounds [OF assms(2,3)]
  have m: "0 \<le> ?m" "?m + 1 \<le> 9007199254740992" using long(1,2) by (simp_all add: max_int_def pos_imp_zdiv_nonneg_iff)
  have "?s div 1000000 \<le> max_int div 1000000" using assms(3) by (rule zdiv_mono1) simp
  then have sm: "0 \<le> ?s div 1000000" "?s div 1000000 \<le> 9007199254740992"
    using s by (simp_all add: pos_imp_zdiv_nonneg_iff max_int_def)
  have max: "mbMaxLatencyMs (summary t w start now rs) = of_int ?m"
    using long(1) m by (simp add: summary_def Let_def Milliseconds_nonneg float_of_int_exact)
  have avg: "mbAvgLatencyMs (summary t w start now rs) = f64 (of_int (?s div 1000000) / of_int ?n)"
    using n wn ws s sm assms(4)
    by (simp add: summary_def Let_def Milliseconds_nonneg float_of_int_exact fdiv_def)
  have "?s \<le> ?n * longest rs" using long(3) by (rule totalled_le)
  also have "\<dots> \<le> ?n * ((?m + 1) * 1000000)" using n by (intro mult_left_mono) presburger+
  finally have "?s div 1000000 \<le> (?n * (?m + 1)) * 1000000 div 1000000"
    by (intro zdiv_mono1) (simp_all only: mult.assoc zero_less_numeral)
  then have "?s div 1000000 \<le> ?n * (?m + 1)" by simp
  then have "rat_of_int (?s div 1000000) \<le> of_int (?n * (?m + 1))" by (rule of_int_le_iff [THEN iffD2])
  then have "rat_of_int (?s div 1000000) / of_int ?n \<le> of_int (?m + 1)"
    using n by (simp add: divide_le_eq mult.commute)
  then have "f64 (of_int (?s div 1000000) / of_int ?n) \<le> of_int (?m + 1)"
    using m by (intro ieee.rnd_le_int) simp_all
  moreover have "0 \<le> f64 (of_int (?s div 1000000) / of_int ?n)"
    using sm n by (intro ieee.rnd_nonneg) simp
  ultimately show ?thesis by (simp add: max avg)
qed

lemma fold_recorded: "fold Collector_Record rs (recorded t w start qs) = recorded t w start (qs @ rs)"
  by (induction rs arbitrary: qs) (simp_all add: recorded_snoc)

lemma flush_summary:
  "fst (Collector_Flush now (fold Collector_Record rs (NewCollector t w start))) = summary t w start now rs"
  by (simp flip: recorded_Nil add: fold_recorded Flush_recorded)

text \<open>The latencies of a bucket. The maximum is the longest latency in whole milliseconds; the
  average lies between zero and one millisecond above that maximum. It can lie above it, because the
  maximum is cut to milliseconds before it is reported and the average only afterwards.\<close>

theorem collector_latencies:
  fixes rs t w start now
  defines "b \<equiv> fst (Collector_Flush now (fold Collector_Record rs (NewCollector t w start)))"
  assumes "rs \<noteq> []" "\<And>r. r \<in> set rs \<Longrightarrow> 0 \<le> rrLatency r" "totalled rrLatency rs \<le> max_int"
    and "length rs \<le> 9007199254740992"
  shows "mbMaxLatencyMs b = of_int (longest rs div 1000000) \<and>
    0 \<le> mbAvgLatencyMs b \<and> mbAvgLatencyMs b \<le> mbMaxLatencyMs b + 1"
  unfolding b_def flush_summary using assms(2-5) by (rule summary_latencies)

definition ex_results :: "RequestResult list" where
  "ex_results = replicate 2 \<lparr>rrLatency = 1500000, rrSuccess = True, rrBytesSent = 0, rrBytesReceived = 10\<rparr>"

lemma ex_average: "mbAvgLatencyMs (summary t w start now ex_results) = 3 / 2"
proof -
  have "f64 (3 / 2) = 3 / 2" by code_simp
  then show ?thesis
    by (simp add: summary_def Let_def ex_results_def numeral_2_eq_2 totalled_def Milliseconds_nonneg
        wrap64_nonneg max_int_def float_of_int_exact fdiv_def)
qed

definition ex_bucket :: MetricBucket where
  "ex_bucket = fst (Collector_Flush 1 (fold Collector_Record ex_results (NewCollector ''A'' ''w'' 0)))"

theorem collector_latencies_witness:
  "mbMaxLatencyMs ex_bucket = 1 \<and> mbAvgLatencyMs ex_bucket = 3 / 2 \<and>
   mbAvgLatencyMs ex_bucket \<le> mbMaxLatencyMs ex_bucket + 1"
proof -
  have "mbAvgLatencyMs ex_bucket = 3 / 2" unfolding ex_bucket_def flush_summary by (rule ex_average)
  with collector_latencies [of ex_results 1 "''A''" "''w''" 0] show ?thesis
    by (simp add: ex_bucket_def ex_results_def numeral_2_eq_2 totalled_def max_int_def longest_def)
qed

end
