(* ===== verification/Aggregator.thy ===== *)
theory Aggregator
  imports Metrics "HOL-Library.AList"
begin

text \<open>
  Package \<open>internal/aggregator\<close>: the windows of the running tests, the store that finds them, and the
  two goroutines that share them. The subscription callback looks a window up (twice, under the read
  lock and again under the write lock) and merges a bucket into it; the report loop visits every
  window under the store's lock, takes a snapshot and resets it, or deletes it when it is empty.
  Windows are objects on a heap: the callback holds a reference across its two calls. A step of the
  machine is what happens under one lock.
\<close>

section \<open>Windows\<close>

text \<open>The zero \<open>time.Time\<close> is the first of January of the year one.\<close>

definition zero_time :: time where
  "zero_time = - 62135596800000000000"

record GlobalWindow =
  gwTestID :: string
  gwWindowStart :: time
  gwWindowEnd :: time
  gwRequests :: int
  gwSuccesses :: int
  gwFailures :: int
  gwBytesSent :: int
  gwBytesReceived :: int
  gwTotalLatency :: float64
  gwMaxLatency :: float64
  gwWorkers :: "string set"

definition NewGlobalWindow :: "string \<Rightarrow> GlobalWindow" where
  "NewGlobalWindow testID =
     \<lparr>gwTestID = testID, gwWindowStart = zero_time, gwWindowEnd = zero_time, gwRequests = 0,
      gwSuccesses = 0, gwFailures = 0, gwBytesSent = 0, gwBytesReceived = 0, gwTotalLatency = 0,
      gwMaxLatency = 0, gwWorkers = {}\<rparr>"

definition GlobalWindow_Merge :: "MetricBucket \<Rightarrow> GlobalWindow \<Rightarrow> GlobalWindow" where
  "GlobalWindow_Merge bucket g =
     g\<lparr>gwWindowStart := (if gwWindowStart g = zero_time then mbWindowStart bucket else gwWindowStart g),
       gwWindowEnd := mbWindowEnd bucket,
       gwRequests := wrap64 (gwRequests g + mbRequests bucket),
       gwSuccesses := wrap64 (gwSuccesses g + mbSuccesses bucket),
       gwFailures := wrap64 (gwFailures g + mbFailures bucket),
       gwBytesSent := wrap64 (gwBytesSent g + mbBytesSent bucket),
       gwBytesReceived := wrap64 (gwBytesReceived g + mbBytesReceived bucket),
       gwTotalLatency := fadd (gwTotalLatency g)
         (fmul (mbAvgLatencyMs bucket) (float_of_int (mbRequests bucket))),
       gwMaxLatency := (if mbMaxLatencyMs bucket > gwMaxLatency g then mbMaxLatencyMs bucket else gwMaxLatency g),
       gwWorkers := insert (mbWorkerID bucket) (gwWorkers g)\<rparr>"

section \<open>Snapshots\<close>

record Snapshot =
  snTestID :: string
  snWorkers :: int
  snRequests :: int
  snSuccesses :: int
  snFailures :: int
  snBytesSent :: int
  snBytesReceived :: int
  snAvgLatency :: float64
  snMaxLatency :: float64
  snSuccessRate :: float64
  snRPS :: int

definition take_snapshot :: "GlobalWindow \<Rightarrow> Snapshot" where
  "take_snapshot w =
     \<lparr>snTestID = gwTestID w, snWorkers = int (card (gwWorkers w)), snRequests = gwRequests w,
      snSuccesses = gwSuccesses w, snFailures = gwFailures w, snBytesSent = gwBytesSent w,
      snBytesReceived = gwBytesReceived w,
      snAvgLatency = (if gwRequests w > 0 then fdiv (gwTotalLatency w) (float_of_int (gwRequests w)) else 0),
      snMaxLatency = gwMaxLatency w,
      snSuccessRate = (if gwRequests w > 0
        then fmul (fdiv (float_of_int (gwSuccesses w)) (float_of_int (gwRequests w))) 100 else 0),
      snRPS = gwRequests w\<rparr>"

definition reset_window :: "GlobalWindow \<Rightarrow> GlobalWindow" where
  "reset_window w =
     w\<lparr>gwRequests := 0, gwSuccesses := 0, gwFailures := 0, gwBytesSent := 0, gwBytesReceived := 0,
       gwTotalLatency := 0, gwMaxLatency := 0, gwWindowStart := zero_time, gwWindowEnd := zero_time,
       gwWorkers := {}\<rparr>"

section \<open>The store and its two users\<close>

datatype subscriber =
    Waiting
  | Looking MetricBucket
  | Missed MetricBucket
  | Holding MetricBucket nat

datatype reporter =
    Resting
  | Sweeping "string list" "Snapshot list"

text \<open>\<open>agMerged\<close> records the buckets merged so far; the program does not keep it.\<close>

record aggregator =
  agTests :: "(string \<times> nat) list"
  agHeap :: "nat \<Rightarrow> GlobalWindow"
  agNext :: nat
  agSubscriber :: subscriber
  agReporter :: reporter
  agReports :: "Snapshot list"
  agMerged :: "MetricBucket list"

definition NewStore :: aggregator where
  "NewStore =
     \<lparr>agTests = [], agHeap = (\<lambda>_. NewGlobalWindow []), agNext = 0, agSubscriber = Waiting,
      agReporter = Resting, agReports = [], agMerged = []\<rparr>"

text \<open>The two critical sections of \<open>Store.Get\<close>.\<close>

definition store_find :: "string \<Rightarrow> aggregator \<Rightarrow> nat option" where
  "store_find testID s = map_of (agTests s) testID"

definition store_create :: "string \<Rightarrow> aggregator \<Rightarrow> nat \<times> aggregator" where
  "store_create testID s =
     (case map_of (agTests s) testID of
        Some r \<Rightarrow> (r, s)
      | None \<Rightarrow> (agNext s,
          s\<lparr>agHeap := (agHeap s)(agNext s := NewGlobalWindow testID), agNext := Suc (agNext s),
            agTests := AList.update testID (agNext s) (agTests s)\<rparr>))"

text \<open>One iteration of the loop of \<open>report\<close>.\<close>

definition report_window :: "string \<Rightarrow> string list \<Rightarrow> Snapshot list \<Rightarrow> aggregator \<Rightarrow> aggregator" where
  "report_window testID rest snapshots s =
     (case map_of (agTests s) testID of
        None \<Rightarrow> s\<lparr>agReporter := Sweeping rest snapshots\<rparr>
      | Some r \<Rightarrow>
          (let window = agHeap s r in
           if gwRequests window = 0
           then s\<lparr>agTests := AList.delete testID (agTests s), agReporter := Sweeping rest snapshots\<rparr>
           else s\<lparr>agHeap := (agHeap s)(r := reset_window window),
                  agReporter := Sweeping rest (snapshots @ [take_snapshot window])\<rparr>))"

datatype action = Receive MetricBucket | Find | Create | Merge | Lock "string list" | Sweep | Unlock

text \<open>
  The callback runs \<open>Receive\<close>, \<open>Find\<close>, \<open>Create\<close> when the first look-up missed, and \<open>Merge\<close>; the
  report runs \<open>Lock\<close> (with the order in which Go's map iteration happens to visit the tests), one
  \<open>Sweep\<close> per test and \<open>Unlock\<close>. While the report holds the store's lock, no look-up runs.
\<close>

fun agg_step :: "action \<Rightarrow> aggregator \<Rightarrow> aggregator option" where
  "agg_step (Receive b) s =
     (if agSubscriber s = Waiting then Some (s\<lparr>agSubscriber := Looking b\<rparr>) else None)"
| "agg_step Find s =
     (case (agSubscriber s, agReporter s) of
        (Looking b, Resting) \<Rightarrow>
          (case store_find (mbTestID b) s of
             Some r \<Rightarrow> Some (s\<lparr>agSubscriber := Holding b r\<rparr>)
           | None \<Rightarrow> Some (s\<lparr>agSubscriber := Missed b\<rparr>))
      | _ \<Rightarrow> None)"
| "agg_step Create s =
     (case (agSubscriber s, agReporter s) of
        (Missed b, Resting) \<Rightarrow>
          (case store_create (mbTestID b) s of (r, s') \<Rightarrow> Some (s'\<lparr>agSubscriber := Holding b r\<rparr>))
      | _ \<Rightarrow> None)"
| "agg_step Merge s =
     (case agSubscriber s of
        Holding b r \<Rightarrow> Some (s\<lparr>agHeap := (agHeap s)(r := GlobalWindow_Merge b (agHeap s r)),
          agSubscriber := Waiting, agMerged := agMerged s @ [b]\<rparr>)
      | _ \<Rightarrow> None)"
| "agg_step (Lock order) s =
     (if agReporter s = Resting \<and> distinct order \<and> set order = fst ` set (agTests s)
      then Some (s\<lparr>agReporter := Sweeping order []\<rparr>) else None)"
| "agg_step Sweep s =
     (case agReporter s of
        Sweeping (t # rest) snapshots \<Rightarrow> Some (report_window t rest snapshots s)
      | _ \<Rightarrow> None)"
| "agg_step Unlock s =
     (case agReporter s of
        Sweeping [] snapshots \<Rightarrow> Some (s\<lparr>agReporter := Resting, agReports := agReports s @ snapshots\<rparr>)
      | _ \<Rightarrow> None)"

fun agg_run :: "action list \<Rightarrow> aggregator \<Rightarrow> aggregator option" where
  "agg_run [] s = Some s"
| "agg_run (a # as) s = (case agg_step a s of None \<Rightarrow> None | Some s' \<Rightarrow> agg_run as s')"

lemma agg_run_append:
  "agg_run (as @ bs) s = (case agg_run as s of None \<Rightarrow> None | Some s' \<Rightarrow> agg_run bs s')"
  by (induction as arbitrary: s) (simp_all split: option.splits)

lemma agg_run_invariant:
  assumes "agg_run as s = Some s'" "P s" "\<And>a s s'. P s \<Longrightarrow> agg_step a s = Some s' \<Longrightarrow> P s'"
  shows "P s'"
  using assms(1,2) by (induction as arbitrary: s) (auto split: option.splits intro: assms(3))

section \<open>Well-formedness\<close>

definition agg_ok :: "aggregator \<Rightarrow> bool" where
  "agg_ok s \<longleftrightarrow>
     distinct (map fst (agTests s)) \<and>
     (\<forall>(t, r)\<in>set (agTests s). r < agNext s \<and> gwTestID (agHeap s r) = t) \<and>
     (\<forall>b r. agSubscriber s = Holding b r \<longrightarrow> r < agNext s \<and> gwTestID (agHeap s r) = mbTestID b) \<and>
     (\<forall>ts snaps. agReporter s = Sweeping ts snaps \<longrightarrow> distinct ts \<and> set ts \<subseteq> fst ` set (agTests s))"

lemma window_keeps_id [simp]:
  "gwTestID (GlobalWindow_Merge b w) = gwTestID w" "gwTestID (reset_window w) = gwTestID w"
  "gwTestID (NewGlobalWindow t) = t" "snTestID (take_snapshot w) = gwTestID w"
  by (simp_all add: GlobalWindow_Merge_def reset_window_def NewGlobalWindow_def take_snapshot_def)

lemma agg_okI:
  assumes "distinct (map fst (agTests s))"
    and "\<And>t r. (t, r) \<in> set (agTests s) \<Longrightarrow> r < agNext s \<and> gwTestID (agHeap s r) = t"
    and "\<And>b r. agSubscriber s = Holding b r \<Longrightarrow> r < agNext s \<and> gwTestID (agHeap s r) = mbTestID b"
    and "\<And>ts snaps. agReporter s = Sweeping ts snaps \<Longrightarrow> distinct ts \<and> set ts \<subseteq> fst ` set (agTests s)"
  shows "agg_ok s"
  using assms unfolding agg_ok_def by blast

lemma agg_okD:
  assumes "agg_ok s"
  shows "distinct (map fst (agTests s))"
    and "(t, r) \<in> set (agTests s) \<Longrightarrow> r < agNext s \<and> gwTestID (agHeap s r) = t"
    and "agSubscriber s = Holding b r \<Longrightarrow> r < agNext s \<and> gwTestID (agHeap s r) = mbTestID b"
    and "agReporter s = Sweeping ts snaps \<Longrightarrow> distinct ts \<and> set ts \<subseteq> fst ` set (agTests s)"
  using assms unfolding agg_ok_def by blast+

lemma agg_ok_find: "agg_ok s \<Longrightarrow> map_of (agTests s) t = Some r \<Longrightarrow> r < agNext s \<and> gwTestID (agHeap s r) = t"
  by (rule agg_okD(2)) (simp_all add: map_of_SomeD)

lemma update_fresh: "map_of ps k = None \<Longrightarrow> AList.update k v ps = ps @ [(k, v)]"
  by (induction ps) (auto split: if_splits)

lemma set_delete: "set (AList.delete k ps) = {(a, b) \<in> set ps. a \<noteq> k}"
  by (auto simp: AList.delete_eq)

lemma agg_ok_create:
  assumes "agg_ok s" "map_of (agTests s) t = None"
    and sub: "\<And>b r. sub = Holding b r \<Longrightarrow> r = agNext s \<and> mbTestID b = t"
  shows "agg_ok (s\<lparr>agHeap := (agHeap s)(agNext s := NewGlobalWindow t), agNext := Suc (agNext s),
    agTests := agTests s @ [(t, agNext s)], agSubscriber := sub\<rparr>)"
proof (rule agg_okI, goal_cases)
  case 1
  from assms(1,2) show ?case by (auto simp: map_of_eq_None_iff dest: agg_okD(1))
next
  case (2 u r)
  then show ?case using agg_okD(2) [OF assms(1), of u r] by auto
next
  case (3 b r)
  with sub show ?case by simp
next
  case (4 ts snaps)
  with agg_okD(4) [OF assms(1)] show ?case by fastforce
qed

lemma agg_ok_merge:
  assumes "agg_ok s"
  shows "agg_ok (s\<lparr>agHeap := (agHeap s)(r := GlobalWindow_Merge b (agHeap s r)),
    agSubscriber := Waiting, agMerged := ms\<rparr>)"
  using agg_okD [OF assms] by (intro agg_okI) auto

lemma agg_ok_reset:
  assumes "agg_ok s" "agReporter s = Sweeping (t # rest) snaps"
  shows "agg_ok (s\<lparr>agHeap := (agHeap s)(r := reset_window (agHeap s r)), agReporter := Sweeping rest snaps'\<rparr>)"
  using agg_okD [OF assms(1)] agg_okD(4) [OF assms] by (intro agg_okI) auto

lemma agg_ok_delete:
  assumes "agg_ok s" "agReporter s = Sweeping (t # rest) snaps"
  shows "agg_ok (s\<lparr>agTests := AList.delete t (agTests s), agReporter := Sweeping rest snaps'\<rparr>)"
proof (rule agg_okI, goal_cases)
  case 1
  then show ?case using agg_okD(1) [OF assms(1)] by (simp add: distinct_delete)
next
  case (2 u r)
  then have "(u, r) \<in> set (agTests s)" by (simp add: set_delete)
  with agg_okD(2) [OF assms(1)] show ?case by simp
next
  case (3 b r)
  with agg_okD(3) [OF assms(1)] show ?case by simp
next
  case (4 ts snaps')
  with agg_okD(4) [OF assms] show ?case by (force simp: set_delete)
qed

lemma map_of_key: "t \<in> fst ` set ps \<Longrightarrow> \<exists>r. map_of ps t = Some r"
  by (metis map_of_eq_None_iff not_Some_eq)

text \<open>The state after one iteration of the report, by cases.\<close>

lemma report_window_cases:
  assumes "agg_ok s" "agReporter s = Sweeping (t # rest) snaps"
  obtains (empty) r where "map_of (agTests s) t = Some r" "gwRequests (agHeap s r) = 0"
      "report_window t rest snaps s =
        s\<lparr>agTests := AList.delete t (agTests s), agReporter := Sweeping rest snaps\<rparr>"
  | (full) r where "map_of (agTests s) t = Some r" "gwRequests (agHeap s r) \<noteq> 0"
      "report_window t rest snaps s = s\<lparr>agHeap := (agHeap s)(r := reset_window (agHeap s r)),
        agReporter := Sweeping rest (snaps @ [take_snapshot (agHeap s r)])\<rparr>"
proof -
  from agg_okD(4) [OF assms] obtain r where r: "map_of (agTests s) t = Some r" using map_of_key by force
  show ?thesis
  proof (cases "gwRequests (agHeap s r) = 0")
    case True
    with r show ?thesis by (intro empty) (simp_all add: report_window_def Let_def)
  next
    case False
    with r show ?thesis by (intro full) (simp_all add: report_window_def Let_def)
  qed
qed

text \<open>Every step, by cases, from a well-formed state.\<close>

lemma agg_step_cases [consumes 2, case_names receive find miss found create merge lock empty full unlock]:
  assumes "agg_ok s" "agg_step a s = Some s'"
  obtains b where "agSubscriber s = Waiting" "s' = s\<lparr>agSubscriber := Looking b\<rparr>"
  | b r where "agSubscriber s = Looking b" "map_of (agTests s) (mbTestID b) = Some r"
      "s' = s\<lparr>agSubscriber := Holding b r\<rparr>" "agReporter s = Resting"
  | b where "agSubscriber s = Looking b" "map_of (agTests s) (mbTestID b) = None"
      "s' = s\<lparr>agSubscriber := Missed b\<rparr>" "agReporter s = Resting"
  | b r where "agSubscriber s = Missed b" "map_of (agTests s) (mbTestID b) = Some r"
      "s' = s\<lparr>agSubscriber := Holding b r\<rparr>" "agReporter s = Resting"
  | b where "agSubscriber s = Missed b" "map_of (agTests s) (mbTestID b) = None" "agReporter s = Resting"
      "s' = s\<lparr>agHeap := (agHeap s)(agNext s := NewGlobalWindow (mbTestID b)), agNext := Suc (agNext s),
         agTests := agTests s @ [(mbTestID b, agNext s)], agSubscriber := Holding b (agNext s)\<rparr>"
  | b r where "agSubscriber s = Holding b r"
      "s' = s\<lparr>agHeap := (agHeap s)(r := GlobalWindow_Merge b (agHeap s r)), agSubscriber := Waiting,
         agMerged := agMerged s @ [b]\<rparr>"
  | order where "a = Lock order" "agReporter s = Resting" "distinct order" "set order = fst ` set (agTests s)"
      "s' = s\<lparr>agReporter := Sweeping order []\<rparr>"
  | t rest snaps r where "agReporter s = Sweeping (t # rest) snaps" "map_of (agTests s) t = Some r"
      "gwRequests (agHeap s r) = 0"
      "s' = s\<lparr>agTests := AList.delete t (agTests s), agReporter := Sweeping rest snaps\<rparr>"
  | t rest snaps r where "agReporter s = Sweeping (t # rest) snaps" "map_of (agTests s) t = Some r"
      "gwRequests (agHeap s r) \<noteq> 0"
      "s' = s\<lparr>agHeap := (agHeap s)(r := reset_window (agHeap s r)),
         agReporter := Sweeping rest (snaps @ [take_snapshot (agHeap s r)])\<rparr>"
  | snaps where "agReporter s = Sweeping [] snaps"
      "s' = s\<lparr>agReporter := Resting, agReports := agReports s @ snaps\<rparr>"
proof (cases a)
  case (Receive b)
  with assms(2) that(1) show ?thesis by (auto split: if_splits)
next
  case Find
  with assms(2) that(2,3) show ?thesis
    by (auto simp: store_find_def split: subscriber.splits reporter.splits option.splits)
next
  case Create
  with assms(2) obtain b where b: "agSubscriber s = Missed b" "agReporter s = Resting"
    by (auto split: subscriber.splits reporter.splits)
  show ?thesis
  proof (cases "map_of (agTests s) (mbTestID b)")
    case None
    with Create b assms(2) show ?thesis by (intro that(5)) (auto simp: store_create_def update_fresh)
  next
    case (Some r)
    with Create b assms(2) show ?thesis by (intro that(4)) (auto simp: store_create_def)
  qed
next
  case Merge
  with assms(2) that(6) show ?thesis by (auto split: subscriber.splits)
next
  case (Lock order)
  with assms(2) that(7) show ?thesis by (auto split: if_splits)
next
  case Sweep
  with assms(2) obtain t rest snaps where rep: "agReporter s = Sweeping (t # rest) snaps"
    and s': "s' = report_window t rest snaps s" by (auto split: reporter.splits list.splits)
  from assms(1) rep show ?thesis
  proof (cases rule: report_window_cases)
    case (empty r)
    with rep s' show ?thesis by (intro that(8)) simp_all
  next
    case (full r)
    with rep s' show ?thesis by (intro that(9)) simp_all
  qed
next
  case Unlock
  with assms(2) that(10) show ?thesis by (auto split: reporter.splits list.splits)
qed

lemma agg_ok_step:
  assumes "agg_ok s" "agg_step a s = Some s'"
  shows "agg_ok s'"
  using assms
proof (cases rule: agg_step_cases)
  case (receive b)
  with agg_okD [OF assms(1)] show ?thesis by (intro agg_okI) auto
next
  case (find b r)
  with agg_okD [OF assms(1)] agg_ok_find [OF assms(1)] show ?thesis by (intro agg_okI) auto
next
  case (miss b)
  with agg_okD [OF assms(1)] show ?thesis by (intro agg_okI) auto
next
  case (found b r)
  with agg_okD [OF assms(1)] agg_ok_find [OF assms(1)] show ?thesis by (intro agg_okI) auto
next
  case (create b)
  show ?thesis unfolding create(4) using assms(1) create(2) by (rule agg_ok_create) simp
next
  case (merge b r)
  show ?thesis unfolding merge(2) using assms(1) by (rule agg_ok_merge)
next
  case (lock order)
  with agg_okD [OF assms(1)] show ?thesis by (intro agg_okI) auto
next
  case (empty t rest snaps r)
  show ?thesis unfolding empty(4) using assms(1) empty(1) by (rule agg_ok_delete)
next
  case (full t rest snaps r)
  show ?thesis unfolding full(4) using assms(1) full(1) by (rule agg_ok_reset)
next
  case (unlock snaps)
  with agg_okD [OF assms(1)] show ?thesis by (intro agg_okI) auto
qed

lemma agg_ok_NewStore: "agg_ok NewStore"
  by (simp add: agg_ok_def NewStore_def)

lemma agg_ok_run: "agg_run as NewStore = Some s \<Longrightarrow> agg_ok s"
  by (erule agg_run_invariant [where P = agg_ok]) (auto intro: agg_ok_NewStore agg_ok_step)

end
