(* ===== verification/Telemetry.thy ===== *)
theory Telemetry
  imports Aggregator
begin

text \<open>
  What the aggregator does to the counters: nothing that was merged disappears from the sum over
  reports and windows, a window that left the store never comes back, and as long as no report starts
  between the look-up and the merge of the callback every window with something in it stays in the
  store. A counter is anything a merge adds, a snapshot copies and a reset clears.
\<close>

section \<open>Counters\<close>

locale counter =
  fixes cb :: "MetricBucket \<Rightarrow> int" and cw :: "GlobalWindow \<Rightarrow> int" and cs :: "Snapshot \<Rightarrow> int"
  assumes cw_merge: "cw (GlobalWindow_Merge b w) = wrap64 (cw w + cb b)"
    and cw_reset: "cw (reset_window w) = 0"
    and cw_new: "cw (NewGlobalWindow t) = 0"
    and cs_snapshot: "cs (take_snapshot w) = cw w"

text \<open>The three places a count can be in: reports (delivered or being collected) and windows.\<close>

definition collected :: "reporter \<Rightarrow> Snapshot list" where
  "collected rep = (case rep of Resting \<Rightarrow> [] | Sweeping ts snaps \<Rightarrow> snaps)"

definition in_reports :: "(Snapshot \<Rightarrow> int) \<Rightarrow> string \<Rightarrow> aggregator \<Rightarrow> int" where
  "in_reports cs t s =
     sum_list (map cs (filter (\<lambda>n. snTestID n = t) (agReports s @ collected (agReporter s))))"

definition window_sum :: "(GlobalWindow \<Rightarrow> int) \<Rightarrow> string \<Rightarrow> nat \<Rightarrow> (nat \<Rightarrow> GlobalWindow) \<Rightarrow> int" where
  "window_sum cw t n h = (\<Sum>i<n. if gwTestID (h i) = t then cw (h i) else 0)"

definition in_windows :: "(GlobalWindow \<Rightarrow> int) \<Rightarrow> string \<Rightarrow> aggregator \<Rightarrow> int" where
  "in_windows cw t s = window_sum cw t (agNext s) (agHeap s)"

definition in_merged :: "(MetricBucket \<Rightarrow> int) \<Rightarrow> string \<Rightarrow> aggregator \<Rightarrow> int" where
  "in_merged cb t s = sum_list (map cb (filter (\<lambda>b. mbTestID b = t) (agMerged s)))"

text \<open>The sum over the windows after a write to one of them, and after an allocation.\<close>

lemma window_sum_write:
  assumes "r < n" "gwTestID w = gwTestID (h r)"
  shows "window_sum cw t n (h(r := w)) =
    window_sum cw t n h + (if gwTestID (h r) = t then cw w - cw (h r) else 0)"
proof -
  let ?f = "\<lambda>h i. if gwTestID (h i) = t then cw (h i) else (0::int)"
  have rest: "sum (?f (h(r := w))) ({..<n} - {r}) = sum (?f h) ({..<n} - {r})"
    by (rule sum.cong) auto
  have "sum (?f (h(r := w))) {..<n} = ?f (h(r := w)) r + sum (?f (h(r := w))) ({..<n} - {r})"
    using assms(1) by (intro sum.remove) auto
  moreover have "sum (?f h) {..<n} = ?f h r + sum (?f h) ({..<n} - {r})"
    using assms(1) by (intro sum.remove) auto
  ultimately show ?thesis unfolding rest window_sum_def using assms(2) by (simp split: if_splits)
qed

lemma window_sum_fresh:
  "window_sum cw t (Suc n) (h(n := w)) = window_sum cw t n h + (if gwTestID w = t then cw w else 0)"
proof -
  have "(\<Sum>i<n. if gwTestID ((h(n := w)) i) = t then cw ((h(n := w)) i) else 0) =
    (\<Sum>i<n. if gwTestID (h i) = t then cw (h i) else (0::int))"
    by (rule sum.cong) auto
  then show ?thesis by (simp add: window_sum_def)
qed

lemma wrap64_cong: "wrap64 x = wrap64 y \<Longrightarrow> wrap64 (x + z) = wrap64 (y + z)"
  by (metis wrap64_add_left)

context counter
begin

definition balanced :: "string \<Rightarrow> aggregator \<Rightarrow> bool" where
  "balanced t s \<longleftrightarrow> wrap64 (in_merged cb t s) = wrap64 (in_reports cs t s + in_windows cw t s)"

lemma balanced_step:
  assumes "agg_ok s" "agg_step a s = Some s'" "balanced t s"
  shows "balanced t s'"
  using assms(1,2)
proof (cases rule: agg_step_cases)
  case (create b)
  have "in_windows cw t s' = in_windows cw t s"
    unfolding create(4) in_windows_def
    by (simp add: window_sum_fresh cw_new del: fun_upd_apply)
  with assms(3) show ?thesis by (simp add: balanced_def create(4) in_merged_def in_reports_def)
next
  case (merge b r)
  note r = agg_okD(3) [OF assms(1) merge(1)]
  have w: "in_windows cw t s' = in_windows cw t s +
      (if mbTestID b = t then wrap64 (cw (agHeap s r) + cb b) - cw (agHeap s r) else 0)"
    using r by (simp add: merge(2) in_windows_def window_sum_write cw_merge del: fun_upd_apply)
  have m: "in_merged cb t s' = in_merged cb t s + (if mbTestID b = t then cb b else 0)"
    by (simp add: merge(2) in_merged_def)
  have n: "in_reports cs t s' = in_reports cs t s" by (simp add: merge(2) in_reports_def)
  have "wrap64 (u + (z + (wrap64 (x + y) - x))) = wrap64 (u + (z + y))" for u x y z
    using wrap64_add_right [of "u + z - x" "x + y"] by (simp add: algebra_simps)
  with assms(3) wrap64_cong [of "in_merged cb t s" "in_reports cs t s + in_windows cw t s" "cb b"]
  show ?thesis by (simp add: balanced_def w m n add.assoc)
next
  case (full t' rest snaps r)
  then have r: "r < agNext s" "gwTestID (agHeap s r) = t'" using agg_ok_find [OF assms(1)] by blast+
  have w: "in_windows cw t s' = in_windows cw t s + (if t' = t then - cw (agHeap s r) else 0)"
    using r by (simp add: full(4) in_windows_def window_sum_write cw_reset del: fun_upd_apply)
  have n: "in_reports cs t s' = in_reports cs t s + (if t' = t then cw (agHeap s r) else 0)"
    using r full(1) by (simp add: full(4) in_reports_def collected_def cs_snapshot)
  have m: "in_merged cb t s' = in_merged cb t s" by (simp add: full(4) in_merged_def)
  show ?thesis using assms(3) by (simp add: balanced_def w m n)
qed (use assms(3) in \<open>simp_all add: balanced_def in_merged_def in_reports_def in_windows_def collected_def\<close>)

lemma balanced_run:
  assumes "agg_run as NewStore = Some s"
  shows "balanced t s"
proof -
  have "agg_ok s \<and> balanced t s"
    using assms
  proof (rule agg_run_invariant)
    have "balanced t NewStore"
      by (simp add: balanced_def in_merged_def in_reports_def in_windows_def window_sum_def collected_def NewStore_def)
    with agg_ok_NewStore show "agg_ok NewStore \<and> balanced t NewStore" ..
  qed (blast intro: agg_ok_step balanced_step)
  then show ?thesis by simp
qed

end

lemmas window_defs = GlobalWindow_Merge_def reset_window_def NewGlobalWindow_def take_snapshot_def

interpretation requests: counter mbRequests gwRequests snRequests
  by unfold_locales (simp_all add: window_defs)

interpretation successes: counter mbSuccesses gwSuccesses snSuccesses
  by unfold_locales (simp_all add: window_defs)

interpretation failures: counter mbFailures gwFailures snFailures
  by unfold_locales (simp_all add: window_defs)

interpretation sent: counter mbBytesSent gwBytesSent snBytesSent
  by unfold_locales (simp_all add: window_defs)

interpretation received: counter mbBytesReceived gwBytesReceived snBytesReceived
  by unfold_locales (simp_all add: window_defs)

section \<open>Conservation\<close>

text \<open>C18: the aggregator conserves its counters. In every reachable state of every interleaving of the
  subscription callback and the report loop, for every test, the requests, successes, failures and
  bytes of the buckets merged so far are, modulo \<open>2 ^ 64\<close>, those in the reports plus those in the
  windows that are or were in the store: nothing is counted twice and nothing evaporates.\<close>

theorem aggregator_conserves:
  assumes "agg_run as NewStore = Some s"
  shows "wrap64 (in_merged mbRequests t s) = wrap64 (in_reports snRequests t s + in_windows gwRequests t s) \<and>
    wrap64 (in_merged mbSuccesses t s) = wrap64 (in_reports snSuccesses t s + in_windows gwSuccesses t s) \<and>
    wrap64 (in_merged mbFailures t s) = wrap64 (in_reports snFailures t s + in_windows gwFailures t s) \<and>
    wrap64 (in_merged mbBytesSent t s) = wrap64 (in_reports snBytesSent t s + in_windows gwBytesSent t s) \<and>
    wrap64 (in_merged mbBytesReceived t s) =
      wrap64 (in_reports snBytesReceived t s + in_windows gwBytesReceived t s)"
  using requests.balanced_run [OF assms, unfolded requests.balanced_def]
    successes.balanced_run [OF assms, unfolded successes.balanced_def]
    failures.balanced_run [OF assms, unfolded failures.balanced_def]
    sent.balanced_run [OF assms, unfolded sent.balanced_def]
    received.balanced_run [OF assms, unfolded received.balanced_def]
  by (intro conjI)

section \<open>Windows that left the store\<close>

definition detached :: "nat \<Rightarrow> aggregator \<Rightarrow> bool" where
  "detached r s \<longleftrightarrow> r < agNext s \<and> r \<notin> snd ` set (agTests s) \<and> (\<forall>b. agSubscriber s \<noteq> Holding b r)"

text \<open>Nothing reaches a detached window any more: it keeps its contents and is never reported.\<close>

lemma detached_step:
  assumes "agg_ok s" "agg_step a s = Some s'" "detached r s"
  shows "detached r s' \<and> agHeap s' r = agHeap s r"
  using assms(1,2)
proof (cases rule: agg_step_cases)
  case (find b q)
  then have "q \<in> snd ` set (agTests s)" by (force dest: map_of_SomeD)
  with assms(3) find show ?thesis by (auto simp: detached_def)
next
  case (found b q)
  then have "q \<in> snd ` set (agTests s)" by (force dest: map_of_SomeD)
  with assms(3) found show ?thesis by (auto simp: detached_def)
next
  case (full t rest snaps q)
  then have "q \<in> snd ` set (agTests s)" by (force dest: map_of_SomeD)
  with assms(3) full show ?thesis by (auto simp: detached_def)
next
  case (empty t rest snaps q)
  with assms(3) show ?thesis by (auto simp: detached_def set_delete)
qed (use assms(3) in \<open>auto simp: detached_def\<close>)

lemma detached_run:
  assumes "agg_run as s = Some s'" "agg_ok s" "detached r s"
  shows "detached r s' \<and> agHeap s' r = agHeap s r"
  using assms
proof (induction as arbitrary: s)
  case (Cons a as)
  then obtain s1 where s1: "agg_step a s = Some s1" "agg_run as s1 = Some s'" by (auto split: option.splits)
  have d: "detached r s1 \<and> agHeap s1 r = agHeap s r"
    using Cons.prems(2) s1(1) Cons.prems(3) by (rule detached_step)
  with Cons.IH [OF s1(2) agg_ok_step [OF Cons.prems(2) s1(1)]] show ?case by metis
qed simp

definition ex_bucket_of :: "int \<Rightarrow> MetricBucket" where
  "ex_bucket_of n =
     \<lparr>mbTestID = ''A'', mbWorkerID = ''w'', mbWindowStart = 1, mbWindowEnd = 2, mbRequests = n,
      mbSuccesses = n, mbFailures = 0, mbBytesSent = 0, mbBytesReceived = 0, mbAvgLatencyMs = 1,
      mbMaxLatencyMs = 1\<rparr>"

text \<open>The second report runs between the look-up and the merge of the second bucket.\<close>

definition ex_race :: "action list" where
  "ex_race = [Receive (ex_bucket_of 5), Find, Create, Merge, Lock [''A''], Sweep, Unlock,
     Receive (ex_bucket_of 7), Find, Lock [''A''], Sweep, Unlock, Merge]"

lemma ex_race_run:
  obtains s where "agg_run ex_race NewStore = Some s" "agTests s = []" "agNext s = 1"
    "agSubscriber s = Waiting" "gwRequests (agHeap s 0) = 7" "gwTestID (agHeap s 0) = ''A''"
    "map snRequests (agReports s) = [5]" "map mbRequests (agMerged s) = [5, 7]"
  by (simp add: ex_race_def NewStore_def store_find_def store_create_def report_window_def Let_def
      window_defs ex_bucket_of_def wrap64_def)

theorem aggregator_conserves_witness:
  "\<exists>s. agg_run ex_race NewStore = Some s \<and>
    wrap64 (in_merged mbRequests ''A'' s) = wrap64 (in_reports snRequests ''A'' s + in_windows gwRequests ''A'' s)"
  using ex_race_run aggregator_conserves by metis

section \<open>Nothing is lost without that race\<close>

text \<open>An orderly run: no report starts while the callback holds a window.\<close>

definition orderly :: "action \<Rightarrow> aggregator \<Rightarrow> bool" where
  "orderly a s =
     (case a of Lock order \<Rightarrow> (case agSubscriber s of Holding b r \<Rightarrow> False | _ \<Rightarrow> True) | _ \<Rightarrow> True)"

fun orderly_run :: "action list \<Rightarrow> aggregator \<Rightarrow> aggregator option" where
  "orderly_run [] s = Some s"
| "orderly_run (a # as) s =
     (if orderly a s then case agg_step a s of None \<Rightarrow> None | Some s' \<Rightarrow> orderly_run as s' else None)"

lemma orderly_run_run: "orderly_run as s = Some s' \<Longrightarrow> agg_run as s = Some s'"
  by (induction as arbitrary: s) (auto split: if_splits option.splits)

definition nothing_astray :: "aggregator \<Rightarrow> bool" where
  "nothing_astray s \<longleftrightarrow>
     (\<forall>r<agNext s. r \<notin> snd ` set (agTests s) \<longrightarrow> gwRequests (agHeap s r) = 0) \<and>
     (\<forall>b r. agSubscriber s = Holding b r \<longrightarrow> r \<in> snd ` set (agTests s) \<and> agReporter s = Resting)"

lemma in_refs: "map_of ps t = Some r \<Longrightarrow> r \<in> snd ` set ps"
  by (force dest: map_of_SomeD)

lemma nothing_astray_step:
  assumes "agg_ok s" "agg_step a s = Some s'" "orderly a s" "nothing_astray s"
  shows "nothing_astray s'"
  using assms(1,2)
proof (cases rule: agg_step_cases)
  case (find b r)
  with assms(4) show ?thesis by (simp add: nothing_astray_def in_refs)
next
  case (found b r)
  with assms(4) show ?thesis by (simp add: nothing_astray_def in_refs)
next
  case (create b)
  with assms(4) show ?thesis by (auto simp: nothing_astray_def less_Suc_eq)
next
  case (merge b r)
  with assms(4) show ?thesis by (auto simp: nothing_astray_def)
next
  case (lock order)
  with assms(3,4) show ?thesis by (auto simp: nothing_astray_def orderly_def)
next
  case (empty t rest snaps r)
  have "gwRequests (agHeap s q) = 0" if "q < agNext s" "q \<notin> snd ` set (AList.delete t (agTests s))" for q
  proof (cases "q \<in> snd ` set (agTests s)")
    case True
    then obtain u where "(u, q) \<in> set (agTests s)" by auto
    with that(2) have "(t, q) \<in> set (agTests s)" by (force simp: set_delete)
    with agg_okD(1) [OF assms(1)] empty(2) have "q = r" by (simp add: map_of_is_SomeI)
    with empty(3) show ?thesis by simp
  next
    case False
    with assms(4) that(1) show ?thesis by (simp add: nothing_astray_def)
  qed
  with assms(4) empty(1) show ?thesis by (simp add: nothing_astray_def empty(4))
next
  case (full t rest snaps r)
  with assms(4) show ?thesis by (auto simp: nothing_astray_def reset_window_def)
next
  case (unlock snaps)
  with assms(4) show ?thesis by (auto simp: nothing_astray_def)
qed (use assms(4) in \<open>auto simp: nothing_astray_def\<close>)

lemma nothing_astray_run:
  assumes "orderly_run as s = Some s'" "agg_ok s" "nothing_astray s"
  shows "agg_ok s' \<and> nothing_astray s'"
  using assms
proof (induction as arbitrary: s)
  case (Cons a as)
  then obtain s1 where s1: "orderly a s" "agg_step a s = Some s1" "orderly_run as s1 = Some s'"
    by (auto split: option.splits if_splits)
  from Cons.IH [OF s1(3) agg_ok_step [OF Cons.prems(2) s1(2)]
      nothing_astray_step [OF Cons.prems(2) s1(2,1) Cons.prems(3)]]
  show ?case .
qed simp

text \<open>What the store still holds of a test.\<close>

definition pending :: "string \<Rightarrow> aggregator \<Rightarrow> int" where
  "pending t s = (case store_find t s of None \<Rightarrow> 0 | Some r \<Rightarrow> gwRequests (agHeap s r))"

lemma in_windows_pending:
  assumes "agg_ok s" "nothing_astray s"
  shows "in_windows gwRequests t s = pending t s"
proof -
  let ?f = "\<lambda>r. if gwTestID (agHeap s r) = t then gwRequests (agHeap s r) else 0"
  have away: "?f r = 0" if "r < agNext s" "map_of (agTests s) t \<noteq> Some r" for r
  proof (cases "gwTestID (agHeap s r) = t \<and> r \<in> snd ` set (agTests s)")
    case True
    then obtain u where u: "(u, r) \<in> set (agTests s)" by auto
    with agg_okD(2) [OF assms(1)] True have "u = t" by blast
    with u agg_okD(1) [OF assms(1)] have "map_of (agTests s) t = Some r" by simp
    with that(2) show ?thesis by simp
  next
    case False
    with assms(2) that(1) show ?thesis by (auto simp: nothing_astray_def)
  qed
  show ?thesis
  proof (cases "map_of (agTests s) t")
    case None
    then have "sum ?f {..<agNext s} = 0" using away by (intro sum.neutral) simp
    with None show ?thesis by (simp add: in_windows_def window_sum_def pending_def store_find_def)
  next
    case (Some r)
    with agg_ok_find [OF assms(1)] have r: "r < agNext s" "gwTestID (agHeap s r) = t" by blast+
    have "sum ?f {..<agNext s} = ?f r + sum ?f ({..<agNext s} - {r})"
      using r(1) by (intro sum.remove) auto
    also have "sum ?f ({..<agNext s} - {r}) = 0" using away Some by (intro sum.neutral) simp
    finally show ?thesis using Some r by (simp add: in_windows_def window_sum_def pending_def store_find_def)
  qed
qed

lemma orderly_pending:
  assumes "orderly_run as NewStore = Some s"
  shows "in_windows gwRequests t s = pending t s"
proof -
  have "nothing_astray NewStore" by (simp add: nothing_astray_def NewStore_def)
  from nothing_astray_run [OF assms agg_ok_NewStore this] show ?thesis by (intro in_windows_pending) simp_all
qed

lemma orderly_requests:
  assumes "orderly_run as NewStore = Some s"
  shows "wrap64 (in_merged mbRequests t s) = wrap64 (in_reports snRequests t s + pending t s)"
  using requests.balanced_run [OF orderly_run_run [OF assms], of t]
  by (simp add: requests.balanced_def orderly_pending [OF assms])

text \<open>C19: without that race the aggregator loses no request. As long as no report starts while the
  callback holds a window, the requests merged for a test are, modulo \<open>2 ^ 64\<close>, the requests reported
  for it plus those in the window the store has for it.\<close>

theorem aggregator_loses_nothing:
  assumes "orderly_run as NewStore = Some s"
  shows "wrap64 (in_merged mbRequests t s) = wrap64 (in_reports snRequests t s + pending t s)"
  using assms by (rule orderly_requests)

definition ex_orderly :: "action list" where
  "ex_orderly = [Receive (ex_bucket_of 5), Find, Create, Merge, Lock [''A''], Sweep, Unlock,
     Receive (ex_bucket_of 7), Lock [''A''], Sweep, Unlock, Find, Create, Merge]"

theorem aggregator_loses_nothing_witness:
  "\<exists>s. orderly_run ex_orderly NewStore = Some s \<and>
    wrap64 (in_merged mbRequests ''A'' s) = wrap64 (in_reports snRequests ''A'' s + pending ''A'' s)"
proof -
  have "\<exists>s. orderly_run ex_orderly NewStore = Some s"
    by (simp add: ex_orderly_def NewStore_def store_find_def store_create_def report_window_def Let_def
      window_defs ex_bucket_of_def wrap64_def orderly_def)
  with aggregator_loses_nothing show ?thesis by blast
qed

end
