(* ===== verification/Victoria.thy ===== *)
theory Victoria
  imports Telemetry Http
begin

text \<open>
  \<open>internal/aggregator/victoria.go\<close>, \<open>internal/victoria/writer.go\<close> and the second half of
  \<open>Aggregator.report\<close>: the samples of a snapshot as text in the exposition format, the request that
  imports them, and the delivery of all snapshots of a report. The reference is a reader of that
  format.
\<close>

section \<open>Formatting\<close>

text \<open>The verb \<open>%.2f\<close>.\<close>

definition two_digits :: "nat \<Rightarrow> string" where
  "two_digits n = [digit_char (n div 10), digit_char (n mod 10)]"

definition fixed2 :: "float64 \<Rightarrow> string" where
  "fixed2 x =
     (let n = nat (round_even (\<bar>x\<bar> * 100))
      in (if x < 0 then ''-'' else []) @ nat_digits (n div 100) @ ''.'' @ two_digits (n mod 100))"

definition quote :: char where
  "quote = CHR 0x22"

definition newline :: char where
  "newline = CHR 0x0A"

text \<open>One line of the template: a metric, the test, a value and the time.\<close>

definition sample_line :: "string \<Rightarrow> string \<Rightarrow> string \<Rightarrow> int \<Rightarrow> string" where
  "sample_line metric testID val ts =
     metric @ ''{test_id='' @ [quote] @ testID @ [quote] @ ''} '' @ val @ '' '' @ itoa ts @ [newline]"

definition buildVictoriaPayload ::
    "int \<Rightarrow> string \<Rightarrow> int \<Rightarrow> int \<Rightarrow> int \<Rightarrow> int \<Rightarrow> float64 \<Rightarrow> float64 \<Rightarrow> int \<Rightarrow> int \<Rightarrow> string" where
  "buildVictoriaPayload ts testID requests successes failures workers avgLatency maxLatency bytesSent
       bytesReceived =
     concat
       [sample_line ''vulcan_requests_total'' testID (itoa requests) ts,
        sample_line ''vulcan_success_total'' testID (itoa successes) ts,
        sample_line ''vulcan_failure_total'' testID (itoa failures) ts,
        sample_line ''vulcan_workers'' testID (itoa workers) ts,
        sample_line ''vulcan_avg_latency_ms'' testID (fixed2 avgLatency) ts,
        sample_line ''vulcan_max_latency_ms'' testID (fixed2 maxLatency) ts,
        sample_line ''vulcan_bytes_sent_total'' testID (itoa bytesSent) ts,
        sample_line ''vulcan_bytes_received_total'' testID (itoa bytesReceived) ts]"

definition snapshot_payload :: "int \<Rightarrow> Snapshot \<Rightarrow> string" where
  "snapshot_payload ts s =
     buildVictoriaPayload ts (snTestID s) (snRequests s) (snSuccesses s) (snFailures s) (snWorkers s)
       (snAvgLatency s) (snMaxLatency s) (snBytesSent s) (snBytesReceived s)"

section \<open>Writing\<close>

record Writer =
  vwURL :: string

definition Writer_Write ::
    "(string \<Rightarrow> go_error option) \<Rightarrow> server \<Rightarrow> Writer \<Rightarrow> string \<Rightarrow> unit http_io" where
  "Writer_Write url_ok srv w body =
     http_try (http_send url_ok (http_do srv) \<lparr>hqMethod = ''POST'', hqURL = vwURL w @ ''/api/v1/import/prometheus'',
                 hqContentType = Some ''text/plain'', hqBody = body\<rparr>)
       (\<lambda>resp. if hrStatusCode resp \<ge> 300
          then http_fail (Errorf (''victoria returned '' @ hrStatus resp)) else http_ret ())"

text \<open>The loop over the snapshots, with the clock read for each; a failed write is only logged.\<close>

fun deliver_snapshots ::
    "(string \<Rightarrow> go_error option) \<Rightarrow> server \<Rightarrow> Writer \<Rightarrow> (int \<times> Snapshot) list \<Rightarrow> http_request list \<Rightarrow>
     http_request list" where
  "deliver_snapshots url_ok srv w [] sent = sent"
| "deliver_snapshots url_ok srv w ((ts, s) # snaps) sent =
     deliver_snapshots url_ok srv w snaps (snd (Writer_Write url_ok srv w (snapshot_payload ts s) sent))"

text \<open>The clock as the reports read it: its value for the first snapshot, for the second, and so on.\<close>

definition stamped :: "(nat \<Rightarrow> int) \<Rightarrow> Snapshot list \<Rightarrow> (int \<times> Snapshot) list" where
  "stamped clock snaps = zip (map clock [0..<length snaps]) snaps"

lemma map_snd_stamped [simp]: "map snd (stamped clock snaps) = snaps"
  by (simp add: stamped_def)

lemma stamped_Nil [simp]: "stamped clock [] = []"
  by (simp add: stamped_def)

lemma length_stamped [simp]: "length (stamped clock snaps) = length snaps"
  by (simp add: stamped_def)

lemma stamped_map: "stamped clock (map f xs) = map (\<lambda>(ts, x). (ts, f x)) (zip (map clock [0..<length xs]) xs)"
  by (simp add: stamped_def zip_map2)

text \<open>Every snapshot of a report is offered to the metrics store exactly once, in order, as one POST
  of its payload, whatever the store answers to it or to the others: a refused or failed write is
  neither repeated nor does it keep a later one back.\<close>

theorem deliver_each_once:
  assumes "url_ok (vwURL w @ ''/api/v1/import/prometheus'') = None"
  shows "deliver_snapshots url_ok srv w snaps sent = sent @ map (\<lambda>(ts, s).
    \<lparr>hqMethod = ''POST'', hqURL = vwURL w @ ''/api/v1/import/prometheus'',
     hqContentType = Some ''text/plain'', hqBody = snapshot_payload ts s\<rparr>) snaps"
proof (induction snaps arbitrary: sent)
  case (Cons x snaps)
  obtain ts s where x: "x = (ts, s)" by fastforce
  have "snd (Writer_Write url_ok srv w (snapshot_payload ts s) sent) = sent @
    [\<lparr>hqMethod = ''POST'', hqURL = vwURL w @ ''/api/v1/import/prometheus'',
      hqContentType = Some ''text/plain'', hqBody = snapshot_payload ts s\<rparr>]"
    using assms by (simp add: Writer_Write_def http_send_def http_defs split: sum.splits)
  with Cons show ?case by (simp add: x)
qed simp

definition ex_snapshot :: Snapshot where
  "ex_snapshot = \<lparr>snTestID = ''A'', snWorkers = 1, snRequests = 5, snSuccesses = 4, snFailures = 1,
     snBytesSent = 0, snBytesReceived = 10, snAvgLatency = 3 / 2, snMaxLatency = 2,
     snSuccessRate = 80, snRPS = 5\<rparr>"

theorem deliver_each_once_witness:
  "map hqURL (deliver_snapshots (\<lambda>_. None) (\<lambda>_. Inl (PgError ''refused'')) \<lparr>vwURL = ''http://v''\<rparr>
     [(1, ex_snapshot), (2, ex_snapshot)] []) =
   [''http://v/api/v1/import/prometheus'', ''http://v/api/v1/import/prometheus'']"
  by (subst deliver_each_once) simp_all

section \<open>Reading the format\<close>

fun split_first :: "char \<Rightarrow> string \<Rightarrow> (string \<times> string) option" where
  "split_first d [] = None"
| "split_first d (c # cs) =
     (if c = d then Some ([], cs) else map_option (\<lambda>(a, b). (c # a, b)) (split_first d cs))"

text \<open>Lines end with a newline; a sample is a series, a blank, a value, a blank and a time.\<close>

fun text_lines :: "string \<Rightarrow> string list" where
  "text_lines [] = []"
| "text_lines (c # cs) =
     (if c = newline then [] # text_lines cs
      else (case text_lines cs of [] \<Rightarrow> [[c]] | l # ls \<Rightarrow> (c # l) # ls))"

record sample =
  smMetric :: string
  smTest :: string
  smValue :: string
  smTime :: string

definition read_sample :: "string \<Rightarrow> sample option" where
  "read_sample l =
     (case split_first (CHR ''{'') l of None \<Rightarrow> None | Some (metric, r1) \<Rightarrow>
      case split_first quote r1 of None \<Rightarrow> None | Some (key, r2) \<Rightarrow>
      if key \<noteq> ''test_id='' then None else
      case split_first quote r2 of None \<Rightarrow> None | Some (tid, r3) \<Rightarrow>
      case split_first (CHR '' '') r3 of None \<Rightarrow> None | Some (brace, r4) \<Rightarrow>
      if brace \<noteq> ''}'' then None else
      case split_first (CHR '' '') r4 of None \<Rightarrow> None | Some (val, ts) \<Rightarrow>
      Some \<lparr>smMetric = metric, smTest = tid, smValue = val, smTime = ts\<rparr>)"

definition read_samples :: "string \<Rightarrow> sample option list" where
  "read_samples s = map read_sample (text_lines s)"

lemma split_first_append: "d \<notin> set a \<Longrightarrow> split_first d (a @ d # b) = Some (a, b)"
  by (induction a) auto

lemma text_lines_append: "newline \<notin> set l \<Longrightarrow> text_lines (l @ newline # s) = l # text_lines s"
  by (induction l) auto

lemma text_lines_concat:
  "list_all (\<lambda>l. newline \<notin> set l) ls \<Longrightarrow> text_lines (concat (map (\<lambda>l. l @ [newline]) ls)) = ls"
  by (induction ls) (simp_all add: text_lines_append)

text \<open>The characters of numbers.\<close>

definition number_char :: "char \<Rightarrow> bool" where
  "number_char c \<longleftrightarrow> c \<in> set (''0123456789'' @ ''-.'')"

lemma digits_number: "c \<in> set (nat_digits n) \<Longrightarrow> number_char c"
  using nat_digits_set [of n] unfolding number_char_def set_append by blast

lemma number_char_mem: "number_char (CHR ''-'')" "number_char (CHR ''.'')"
  by (code_simp, code_simp)

lemma itoa_number: assumes "c \<in> set (itoa i)" shows "number_char c"
proof -
  from assms consider "c = CHR ''-''" | n where "c \<in> set (nat_digits n)"
    by (auto simp only: itoa_def set_append list.set insert_iff empty_iff Un_iff split: if_splits)
  then show ?thesis using number_char_mem digits_number by cases blast+
qed

lemma digit_char_number: "d < 10 \<Longrightarrow> number_char (digit_char d)"
  using digit_char_digit [of d] unfolding number_char_def set_append by blast

lemma two_digits_number:
  assumes "c \<in> set (two_digits (n mod 100))" shows "number_char c"
proof -
  have "n mod 100 div 10 < 10" by (simp add: less_mult_imp_div_less)
  then have "number_char (digit_char (n mod 100 div 10))" "number_char (digit_char (n mod 100 mod 10))"
    by (simp_all only: digit_char_number mod_less_divisor zero_less_numeral)
  with assms show ?thesis by (auto simp only: two_digits_def list.set insert_iff empty_iff)
qed

lemma fixed2_number: assumes "c \<in> set (fixed2 x)" shows "number_char c"
proof -
  from assms consider "c = CHR ''-''" | "c = CHR ''.''" | n where "c \<in> set (nat_digits n)"
    | n where "c \<in> set (two_digits (n mod 100))"
    by (auto simp only: fixed2_def Let_def set_append list.set insert_iff empty_iff Un_iff split: if_splits)
  then show ?thesis using number_char_mem digits_number two_digits_number by cases blast+
qed

lemma number_char_not: "\<not> number_char (CHR '' '')" "\<not> number_char newline"
  by (code_simp, code_simp)

definition plain_id :: "string \<Rightarrow> bool" where
  "plain_id t \<longleftrightarrow> quote \<notin> set t \<and> newline \<notin> set t \<and> CHR 0x5C \<notin> set t"

lemma read_sample_line:
  assumes "CHR ''{'' \<notin> set m" "quote \<notin> set t" "CHR '' '' \<notin> set v"
  shows "read_sample (m @ ''{test_id='' @ [quote] @ t @ [quote] @ ''} '' @ v @ '' '' @ itoa ts) =
    Some \<lparr>smMetric = m, smTest = t, smValue = v, smTime = itoa ts\<rparr>"
proof -
  have s1: "split_first (CHR ''{'') (m @ CHR ''{'' # r) = Some (m, r)" for r
    using assms(1) by (rule split_first_append)
  have "quote \<notin> set ''test_id=''" by code_simp
  then have s2: "split_first quote (''test_id='' @ quote # r) = Some (''test_id='', r)" for r
    by (rule split_first_append)
  have s3: "split_first quote (t @ quote # r) = Some (t, r)" for r
    using assms(2) by (rule split_first_append)
  have s4: "split_first (CHR '' '') (v @ CHR '' '' # r) = Some (v, r)" for r
    using assms(3) by (rule split_first_append)
  show ?thesis using s1 s2 s3 s4 by (simp add: read_sample_def)
qed

lemma text_lines_samples:
  assumes "list_all (\<lambda>(m, v). CHR ''{'' \<notin> set m \<and> newline \<notin> set m \<and> (\<forall>c\<in>set v. number_char c)) mvs"
    and "plain_id t"
  shows "read_samples (concat (map (\<lambda>(m, v). sample_line m t v ts) mvs)) =
    map (\<lambda>(m, v). Some \<lparr>smMetric = m, smTest = t, smValue = v, smTime = itoa ts\<rparr>) mvs"
  using assms(1)
proof (induction mvs)
  case (Cons x mvs)
  obtain m v where x: "x = (m, v)" by fastforce
  with Cons.prems have m: "CHR ''{'' \<notin> set m" "newline \<notin> set m" and v: "\<forall>c\<in>set v. number_char c"
    by simp_all
  let ?l = "m @ ''{test_id='' @ [quote] @ t @ [quote] @ ''} '' @ v @ '' '' @ itoa ts"
  have "newline \<notin> set ''{test_id=''" "newline \<notin> set ''} ''" "newline \<noteq> quote" "newline \<noteq> CHR '' ''" by code_simp+
  then have "newline \<notin> set ?l"
    using m v assms(2) number_char_not(2) itoa_number [of newline ts] by (auto simp: plain_id_def)
  from text_lines_append [OF this]
  have "text_lines (sample_line m t v ts @ r) = ?l # text_lines r" for r by (simp add: sample_line_def)
  moreover have "read_sample ?l = Some \<lparr>smMetric = m, smTest = t, smValue = v, smTime = itoa ts\<rparr>"
    using m v assms(2) number_char_not(1) by (intro read_sample_line) (auto simp: plain_id_def)
  ultimately show ?case using Cons by (simp add: x read_samples_def del: append.simps)
qed (simp add: read_samples_def)

definition metric_names :: "string list" where
  "metric_names =
     [''vulcan_requests_total'', ''vulcan_success_total'', ''vulcan_failure_total'', ''vulcan_workers'',
      ''vulcan_avg_latency_ms'', ''vulcan_max_latency_ms'', ''vulcan_bytes_sent_total'',
      ''vulcan_bytes_received_total'']"

definition snapshot_values :: "Snapshot \<Rightarrow> string list" where
  "snapshot_values s =
     [itoa (snRequests s), itoa (snSuccesses s), itoa (snFailures s), itoa (snWorkers s),
      fixed2 (snAvgLatency s), fixed2 (snMaxLatency s), itoa (snBytesSent s), itoa (snBytesReceived s)]"

lemma payload_lines:
  "snapshot_payload ts s =
    concat (map (\<lambda>(m, v). sample_line m (snTestID s) v ts) (zip metric_names (snapshot_values s)))"
  by (simp add: snapshot_payload_def buildVictoriaPayload_def metric_names_def snapshot_values_def)

lemma metric_names_plain: "list_all (\<lambda>m. CHR ''{'' \<notin> set m \<and> newline \<notin> set m) metric_names"
  by code_simp

lemma payload_read:
  assumes "plain_id (snTestID s)"
  shows "read_samples (snapshot_payload ts s) =
    map (\<lambda>(m, v). Some \<lparr>smMetric = m, smTest = snTestID s, smValue = v, smTime = itoa ts\<rparr>)
      (zip metric_names (snapshot_values s))"
  unfolding payload_lines
proof (rule text_lines_samples [OF _ assms])
  have "\<forall>v\<in>set (snapshot_values s). \<forall>c\<in>set v. number_char c"
    by (auto simp: snapshot_values_def dest: itoa_number fixed2_number)
  then show "list_all (\<lambda>(m, v). CHR ''{'' \<notin> set m \<and> newline \<notin> set m \<and> (\<forall>c\<in>set v. number_char c))
      (zip metric_names (snapshot_values s))"
    using metric_names_plain by (auto simp: list_all_iff dest: set_zip_leftD set_zip_rightD)
qed

text \<open>C23: the payload can be read back. For a test id without quotes, newlines and backslashes, and every
  one the program makes up is a ULID, the text of a snapshot consists of exactly eight samples, one per
  metric and all of this test and time, that carry the numbers of the snapshot.\<close>

theorem payload_roundtrip:
  assumes "plain_id (snTestID s)"
  shows "read_samples (snapshot_payload ts s) =
    map (\<lambda>(m, v). Some \<lparr>smMetric = m, smTest = snTestID s, smValue = v, smTime = itoa ts\<rparr>)
      (zip metric_names (snapshot_values s))"
  using assms by (rule payload_read)

lemma itoa_small: "itoa 0 = ''0''" "itoa 1 = ''1''" "itoa 4 = ''4''" "itoa 5 = ''5''" "itoa 10 = ''10''"
  by code_simp+

lemma fixed2_small: "fixed2 (3 / 2) = ''1.50''" "fixed2 2 = ''2.00''"
  by code_simp+

theorem payload_roundtrip_witness:
  "map (map_option smValue) (read_samples (snapshot_payload 7 ex_snapshot)) =
   map Some [''5'', ''4'', ''1'', ''1'', ''1.50'', ''2.00'', ''0'', ''10'']"
proof -
  have "plain_id (snTestID ex_snapshot)" by code_simp
  from payload_roundtrip [OF this, of 7] show ?thesis
    by (simp add: metric_names_def snapshot_values_def ex_snapshot_def itoa_small fixed2_small)
qed

end
