(* ===== verification/Dashboard.thy ===== *)
theory Dashboard
  imports Victoria Provisioner
begin

text \<open>
  Package \<open>internal/dashboard\<close>: the queries of the eight metrics, the client of the metrics store, the
  readers of its answers and the two operations of the service. The network, the JSON decoder and
  \<open>strconv.ParseFloat\<close> are arguments (\<open>metrics_io\<close>); the answers are JSON trees.
\<close>

section \<open>Queries\<close>

definition metricQuery :: "string \<Rightarrow> string \<Rightarrow> string" where
  "metricQuery metric testID = metric @ ''{test_id='' @ [quote] @ testID @ [quote] @ ''}''"

definition RequestsQuery :: "string \<Rightarrow> string" where
  "RequestsQuery testID = metricQuery ''vulcan_requests_total'' testID"

definition SuccessQuery :: "string \<Rightarrow> string" where
  "SuccessQuery testID = metricQuery ''vulcan_success_total'' testID"

definition FailureQuery :: "string \<Rightarrow> string" where
  "FailureQuery testID = metricQuery ''vulcan_failure_total'' testID"

definition WorkersQuery :: "string \<Rightarrow> string" where
  "WorkersQuery testID = metricQuery ''vulcan_workers'' testID"

definition AvgLatencyQuery :: "string \<Rightarrow> string" where
  "AvgLatencyQuery testID = metricQuery ''vulcan_avg_latency_ms'' testID"

definition MaxLatencyQuery :: "string \<Rightarrow> string" where
  "MaxLatencyQuery testID = metricQuery ''vulcan_max_latency_ms'' testID"

definition BytesSentQuery :: "string \<Rightarrow> string" where
  "BytesSentQuery testID = metricQuery ''vulcan_bytes_sent_total'' testID"

definition BytesReceivedQuery :: "string \<Rightarrow> string" where
  "BytesReceivedQuery testID = metricQuery ''vulcan_bytes_received_total'' testID"

lemmas query_defs = RequestsQuery_def SuccessQuery_def FailureQuery_def WorkersQuery_def
  AvgLatencyQuery_def MaxLatencyQuery_def BytesSentQuery_def BytesReceivedQuery_def

section \<open>Answers\<close>

datatype json =
    JNull
  | JBool bool
  | JNumber float64
  | JString string
  | JArray "json list"
  | JObject "(string \<times> json) list"

type_synonym json_object = "(string \<times> json) list"

record metrics_io =
  mioURLOk :: "string \<Rightarrow> go_error option"
  mioServer :: server
  mioDecode :: "string \<Rightarrow> go_error + json_object"
  mioParseFloat :: "string \<Rightarrow> float64 option"

text \<open>The first series of the answer: \<open>response.data.result[0]\<close>.\<close>

definition first_series :: "json_object \<Rightarrow> json_object option" where
  "first_series response =
     (case map_of response ''data'' of
        Some (JObject data) \<Rightarrow>
          (case map_of data ''result'' of
             Some (JArray (JObject first # _)) \<Rightarrow> Some first
           | _ \<Rightarrow> None)
      | _ \<Rightarrow> None)"

definition ParseValue :: "(string \<Rightarrow> float64 option) \<Rightarrow> json_object \<Rightarrow> float64" where
  "ParseValue parse response =
     (case first_series response of
        None \<Rightarrow> 0
      | Some first \<Rightarrow>
          (case map_of first ''value'' of
             Some (JArray (_ # v # _)) \<Rightarrow>
               (case v of
                  JNumber x \<Rightarrow> x
                | JString s \<Rightarrow> (case parse s of None \<Rightarrow> 0 | Some x \<Rightarrow> x)
                | _ \<Rightarrow> 0)
           | _ \<Rightarrow> 0))"

text \<open>
  Conversion of a float to \<open>int64\<close> drops the fraction; out of range the result of the platform
  (amd64) is the smallest value.
\<close>

definition int64_of_float :: "float64 \<Rightarrow> int" where
  "int64_of_float x =
     (let n = (if x < 0 then \<lceil>x\<rceil> else \<lfloor>x\<rfloor>) in if in_int64 n then n else - 9223372036854775808)"

record DataPoint =
  dpTimestamp :: int
  dpValue :: float64

fun series_points :: "(string \<Rightarrow> float64 option) \<Rightarrow> json list \<Rightarrow> DataPoint list" where
  "series_points parse [] = []"
| "series_points parse (item # items) =
     (case item of
        JArray (JNumber ts # JString val # _) \<Rightarrow>
          (case parse val of
             None \<Rightarrow> series_points parse items
           | Some x \<Rightarrow> \<lparr>dpTimestamp = int64_of_float ts, dpValue = x\<rparr> # series_points parse items)
      | _ \<Rightarrow> series_points parse items)"

text \<open>\<open>None\<close> is the nil slice.\<close>

definition ParseSeries :: "(string \<Rightarrow> float64 option) \<Rightarrow> json_object \<Rightarrow> DataPoint list option" where
  "ParseSeries parse response =
     (case first_series response of
        None \<Rightarrow> None
      | Some first \<Rightarrow>
          (case map_of first ''values'' of
             Some (JArray values) \<Rightarrow> Some (series_points parse values)
           | _ \<Rightarrow> None))"

section \<open>The client\<close>

text \<open>\<open>url.Values.Encode\<close> sorts the parameters by name; the status of the answer is not looked at.\<close>

definition query_url :: "string \<Rightarrow> string \<Rightarrow> string" where
  "query_url baseURL query =
     baseURL @ ''/api/v1/query'' @ ''?'' @ ''latency_offset=1ms&query='' @ QueryEscape query"

definition query_range_url :: "string \<Rightarrow> string \<Rightarrow> string \<Rightarrow> string \<Rightarrow> string \<Rightarrow> string" where
  "query_range_url baseURL query start until step =
     baseURL @ ''/api/v1/query_range'' @ ''?'' @ ''end='' @ QueryEscape until @ ''&latency_offset=1ms&query='' @
     QueryEscape query @ ''&start='' @ QueryEscape start @ ''&step='' @ QueryEscape step"

definition get_json :: "metrics_io \<Rightarrow> string \<Rightarrow> json_object http_io" where
  "get_json io url =
     http_try (http_send (mioURLOk io) (http_do (mioServer io))
                 \<lparr>hqMethod = ''GET'', hqURL = url, hqContentType = None, hqBody = []\<rparr>)
       (\<lambda>resp. case mioDecode io (hrBody resp) of Inl err \<Rightarrow> http_fail err | Inr result \<Rightarrow> http_ret result)"

definition Client_Query :: "metrics_io \<Rightarrow> string \<Rightarrow> string \<Rightarrow> json_object http_io" where
  "Client_Query io baseURL query = get_json io (query_url baseURL query)"

definition Client_QueryRange ::
    "metrics_io \<Rightarrow> string \<Rightarrow> string \<Rightarrow> string \<Rightarrow> string \<Rightarrow> string \<Rightarrow> json_object http_io" where
  "Client_QueryRange io baseURL query start until step =
     get_json io (query_range_url baseURL query start until step)"

section \<open>The service\<close>

record LiveMetrics =
  lmTestID :: string
  lmRequests :: int
  lmSuccesses :: int
  lmFailures :: int
  lmWorkers :: int
  lmAvgLatencyMs :: float64
  lmMaxLatencyMs :: float64
  lmBytesSent :: int
  lmBytesReceived :: int

record MetricSeries =
  msMetric :: string
  msPoints :: "DataPoint list option"

definition Service_GetLiveMetrics :: "metrics_io \<Rightarrow> string \<Rightarrow> string \<Rightarrow> LiveMetrics http_io" where
  "Service_GetLiveMetrics io baseURL testID =
     http_try (Client_Query io baseURL (RequestsQuery testID)) (\<lambda>requests.
     http_try (Client_Query io baseURL (SuccessQuery testID)) (\<lambda>successes.
     http_try (Client_Query io baseURL (FailureQuery testID)) (\<lambda>failures.
     http_try (Client_Query io baseURL (WorkersQuery testID)) (\<lambda>workers.
     http_try (Client_Query io baseURL (AvgLatencyQuery testID)) (\<lambda>avgLatency.
     http_try (Client_Query io baseURL (MaxLatencyQuery testID)) (\<lambda>maxLatency.
     http_try (Client_Query io baseURL (BytesSentQuery testID)) (\<lambda>bytesSent.
     http_try (Client_Query io baseURL (BytesReceivedQuery testID)) (\<lambda>bytesReceived.
       let val = ParseValue (mioParseFloat io) in
       http_ret
        \<lparr>lmTestID = testID,
         lmRequests = int64_of_float (val requests),
         lmSuccesses = int64_of_float (val successes),
         lmFailures = int64_of_float (val failures),
         lmWorkers = int64_of_float (val workers),
         lmAvgLatencyMs = val avgLatency,
         lmMaxLatencyMs = val maxLatency,
         lmBytesSent = int64_of_float (val bytesSent),
         lmBytesReceived = int64_of_float (val bytesReceived)\<rparr>))))))))"

definition history_queries :: "string \<Rightarrow> (string \<times> string) list" where
  "history_queries testID =
     [(''requests'', RequestsQuery testID), (''latency'', AvgLatencyQuery testID),
      (''workers'', WorkersQuery testID)]"

fun history_loop ::
    "metrics_io \<Rightarrow> string \<Rightarrow> string \<Rightarrow> string \<Rightarrow> string \<Rightarrow> (string \<times> string) list \<Rightarrow> MetricSeries list \<Rightarrow>
     MetricSeries list http_io" where
  "history_loop io baseURL start until step [] series = http_ret series"
| "history_loop io baseURL start until step ((name, query) # metrics) series =
     http_try (Client_QueryRange io baseURL query start until step)
       (\<lambda>result. history_loop io baseURL start until step metrics
          (series @ [\<lparr>msMetric = name, msPoints = ParseSeries (mioParseFloat io) result\<rparr>]))"

definition Service_GetHistory ::
    "metrics_io \<Rightarrow> string \<Rightarrow> string \<Rightarrow> string \<Rightarrow> string \<Rightarrow> string \<Rightarrow> MetricSeries list http_io" where
  "Service_GetHistory io baseURL testID start until step =
     history_loop io baseURL start until step (history_queries testID) []"

section \<open>What the dashboard shows\<close>

text \<open>The series of a query is the text before the value in the line the aggregator writes.\<close>

lemma sample_line_query:
  "sample_line m t v ts = metricQuery m t @ '' '' @ v @ '' '' @ itoa ts @ [newline]"
  by (simp add: sample_line_def metricQuery_def)

text \<open>The store's answer to an instant query that matches one series.\<close>

definition vector_answer :: "float64 \<Rightarrow> string \<Rightarrow> json_object" where
  "vector_answer ts v =
     [(''status'', JString ''success''),
      (''data'', JObject
        [(''resultType'', JString ''vector''),
         (''result'', JArray [JObject [(''value'', JArray [JNumber ts, JString v])]])])]"

lemma ParseValue_vector:
  "ParseValue parse (vector_answer ts v) = (case parse v of None \<Rightarrow> 0 | Some x \<Rightarrow> x)"
  by (simp add: ParseValue_def first_series_def vector_answer_def)

text \<open>
  What the dashboard relies on: the store answers the query of a series it has imported with the number
  imported for it, in any spelling that parses to the same float (a numeric store answers 1.5 for the
  imported 1.50), and the decimal digits of an integer parse as that integer, rounded to a float.
\<close>

definition answers_with :: "metrics_io \<Rightarrow> string \<Rightarrow> string \<Rightarrow> bool" where
  "answers_with io baseURL text \<longleftrightarrow>
     (\<forall>s sent. Some s \<in> set (read_samples text) \<longrightarrow>
       (\<exists>ts v sent'. Client_Query io baseURL (metricQuery (smMetric s) (smTest s)) sent =
            (Inr (vector_answer ts v), sent') \<and>
          mioParseFloat io v = mioParseFloat io (smValue s)))"

definition parses_integers :: "metrics_io \<Rightarrow> bool" where
  "parses_integers io \<longleftrightarrow> (\<forall>n. mioParseFloat io (itoa n) = Some (float_of_int n))"

definition small_counts :: "Snapshot \<Rightarrow> bool" where
  "small_counts s \<longleftrightarrow> list_all (\<lambda>n. \<bar>n\<bar> \<le> 9007199254740992)
     [snRequests s, snSuccesses s, snFailures s, snWorkers s, snBytesSent s, snBytesReceived s]"

lemma int64_of_int: "\<bar>n\<bar> \<le> 9007199254740992 \<Longrightarrow> int64_of_float (float_of_int n) = n"
  by (auto simp: int64_of_float_def float_of_int_exact Let_def in_int64_def max_int_def)

lemma answered:
  assumes "answers_with io baseURL (snapshot_payload ts s)" "plain_id (snTestID s)"
    and "(m, v) \<in> set (zip metric_names (snapshot_values s))"
  obtains us v' sent' where
    "Client_Query io baseURL (metricQuery m (snTestID s)) sent = (Inr (vector_answer us v'), sent')"
    "mioParseFloat io v' = mioParseFloat io v"
proof -
  have "Some \<lparr>smMetric = m, smTest = snTestID s, smValue = v, smTime = itoa ts\<rparr> \<in>
      set (read_samples (snapshot_payload ts s))"
    unfolding payload_read [OF assms(2)] using assms(3) by force
  with assms(1) that show ?thesis unfolding answers_with_def by fastforce
qed

text \<open>So a query of the service goes through, whatever follows it, and its answer is read as the value.\<close>

lemma try_answered:
  assumes "answers_with io baseURL (snapshot_payload ts s)" "plain_id (snTestID s)"
    and "(m, v) \<in> set (zip metric_names (snapshot_values s))"
  shows "\<exists>j sent'. (\<forall>k :: json_object \<Rightarrow> 'a http_io.
      http_try (Client_Query io baseURL (metricQuery m (snTestID s))) k sent = k j sent') \<and>
    ParseValue (mioParseFloat io) j = (case mioParseFloat io v of None \<Rightarrow> 0 | Some x \<Rightarrow> x)"
proof -
  from answered [OF assms] obtain us v' sent' where
    "Client_Query io baseURL (metricQuery m (snTestID s)) sent = (Inr (vector_answer us v'), sent')"
    "mioParseFloat io v' = mioParseFloat io v" by blast
  then show ?thesis
    by (intro exI [of _ "vector_answer us v'"] exI [of _ sent']) (simp add: http_try_def ParseValue_vector)
qed

text \<open>C24: the dashboard shows what the aggregator reported. When the metrics store answers from the last
  payload imported for the test, the live metrics carry exactly the counts of that snapshot, up to
  \<open>2 ^ 53\<close>, and its latencies rounded to two decimals: queries and payload agree on every metric.\<close>

theorem dashboard_shows_snapshot:
  assumes "answers_with io baseURL (snapshot_payload ts s)" "parses_integers io"
    and "plain_id (snTestID s)" "small_counts s"
  shows "\<exists>live. fst (Service_GetLiveMetrics io baseURL (snTestID s) sent) = Inr live \<and>
    lmTestID live = snTestID s \<and> lmRequests live = snRequests s \<and> lmSuccesses live = snSuccesses s \<and>
    lmFailures live = snFailures s \<and> lmWorkers live = snWorkers s \<and>
    lmBytesSent live = snBytesSent s \<and> lmBytesReceived live = snBytesReceived s \<and>
    (\<forall>x. mioParseFloat io (fixed2 (snAvgLatency s)) = Some x \<longrightarrow> lmAvgLatencyMs live = x) \<and>
    (\<forall>x. mioParseFloat io (fixed2 (snMaxLatency s)) = Some x \<longrightarrow> lmMaxLatencyMs live = x)"
proof -
  let ?t = "snTestID s"
  have get: "\<exists>j sent'. (\<forall>k :: json_object \<Rightarrow> LiveMetrics http_io.
      http_try (Client_Query io baseURL (metricQuery m ?t)) k sent = k j sent') \<and>
      ParseValue (mioParseFloat io) j = (case mioParseFloat io v of None \<Rightarrow> 0 | Some x \<Rightarrow> x)"
    if "(m, v) \<in> set (zip metric_names (snapshot_values s))" for m v sent
    using assms(1,3) that by (rule try_answered)
  note pairs = metric_names_def snapshot_values_def
  obtain j1 s1 where 1: "\<And>k :: json_object \<Rightarrow> LiveMetrics http_io.
      http_try (Client_Query io baseURL (RequestsQuery ?t)) k sent = k j1 s1"
    "ParseValue (mioParseFloat io) j1 = (case mioParseFloat io (itoa (snRequests s)) of None \<Rightarrow> 0 | Some x \<Rightarrow> x)"
    using get [of "''vulcan_requests_total''" "itoa (snRequests s)" sent] by (auto simp: pairs query_defs)
  obtain j2 s2 where 2: "\<And>k :: json_object \<Rightarrow> LiveMetrics http_io.
      http_try (Client_Query io baseURL (SuccessQuery ?t)) k s1 = k j2 s2"
    "ParseValue (mioParseFloat io) j2 = (case mioParseFloat io (itoa (snSuccesses s)) of None \<Rightarrow> 0 | Some x \<Rightarrow> x)"
    using get [of "''vulcan_success_total''" "itoa (snSuccesses s)" s1] by (auto simp: pairs query_defs)
  obtain j3 s3 where 3: "\<And>k :: json_object \<Rightarrow> LiveMetrics http_io.
      http_try (Client_Query io baseURL (FailureQuery ?t)) k s2 = k j3 s3"
    "ParseValue (mioParseFloat io) j3 = (case mioParseFloat io (itoa (snFailures s)) of None \<Rightarrow> 0 | Some x \<Rightarrow> x)"
    using get [of "''vulcan_failure_total''" "itoa (snFailures s)" s2] by (auto simp: pairs query_defs)
  obtain j4 s4 where 4: "\<And>k :: json_object \<Rightarrow> LiveMetrics http_io.
      http_try (Client_Query io baseURL (WorkersQuery ?t)) k s3 = k j4 s4"
    "ParseValue (mioParseFloat io) j4 = (case mioParseFloat io (itoa (snWorkers s)) of None \<Rightarrow> 0 | Some x \<Rightarrow> x)"
    using get [of "''vulcan_workers''" "itoa (snWorkers s)" s3] by (auto simp: pairs query_defs)
  obtain j5 s5 where 5: "\<And>k :: json_object \<Rightarrow> LiveMetrics http_io.
      http_try (Client_Query io baseURL (AvgLatencyQuery ?t)) k s4 = k j5 s5"
    "ParseValue (mioParseFloat io) j5 = (case mioParseFloat io (fixed2 (snAvgLatency s)) of None \<Rightarrow> 0 | Some x \<Rightarrow> x)"
    using get [of "''vulcan_avg_latency_ms''" "fixed2 (snAvgLatency s)" s4] by (auto simp: pairs query_defs)
  obtain j6 s6 where 6: "\<And>k :: json_object \<Rightarrow> LiveMetrics http_io.
      http_try (Client_Query io baseURL (MaxLatencyQuery ?t)) k s5 = k j6 s6"
    "ParseValue (mioParseFloat io) j6 = (case mioParseFloat io (fixed2 (snMaxLatency s)) of None \<Rightarrow> 0 | Some x \<Rightarrow> x)"
    using get [of "''vulcan_max_latency_ms''" "fixed2 (snMaxLatency s)" s5] by (auto simp: pairs query_defs)
  obtain j7 s7 where 7: "\<And>k :: json_object \<Rightarrow> LiveMetrics http_io.
      http_try (Client_Query io baseURL (BytesSentQuery ?t)) k s6 = k j7 s7"
    "ParseValue (mioParseFloat io) j7 = (case mioParseFloat io (itoa (snBytesSent s)) of None \<Rightarrow> 0 | Some x \<Rightarrow> x)"
    using get [of "''vulcan_bytes_sent_total''" "itoa (snBytesSent s)" s6] by (auto simp: pairs query_defs)
  obtain j8 s8 where 8: "\<And>k :: json_object \<Rightarrow> LiveMetrics http_io.
      http_try (Client_Query io baseURL (BytesReceivedQuery ?t)) k s7 = k j8 s8"
    "ParseValue (mioParseFloat io) j8 = (case mioParseFloat io (itoa (snBytesReceived s)) of None \<Rightarrow> 0 | Some x \<Rightarrow> x)"
    using get [of "''vulcan_bytes_received_total''" "itoa (snBytesReceived s)" s7] by (auto simp: pairs query_defs)
  show ?thesis
    using assms(2,4)
    by (simp add: Service_GetLiveMetrics_def 1 2 3 4 5 6 7 8 http_ret_def parses_integers_def small_counts_def
        int64_of_int Let_def)
qed

text \<open>A metrics store that holds one payload, and a parser of plain decimals.\<close>

definition decimal :: "string \<Rightarrow> float64" where
  "decimal s =
     (if s \<noteq> [] \<and> hd s = CHR ''-'' then f64 (- of_nat (atoi_nat (tl s)))
      else case split_first (CHR ''.'') s of
             None \<Rightarrow> f64 (of_nat (atoi_nat s))
           | Some (a, b) \<Rightarrow> f64 (of_nat (atoi_nat a) + of_nat (atoi_nat b) / 10 ^ length b))"

definition sample_key :: "sample \<Rightarrow> string" where
  "sample_key s = metricQuery (smMetric s) (smTest s)"

definition ex_store :: "string \<Rightarrow> server" where
  "ex_store text sent =
     (let q = QueryUnescape (drop (length (query_url ''v'' [])) (hqURL (last sent)));
          val = find_row sample_key q (map the (filter (\<lambda>s. s \<noteq> None) (read_samples text)))
      in Inr \<lparr>hrStatusCode = 200, hrStatus = ''200 OK'',
              hrBody = (case val of None \<Rightarrow> [] | Some s \<Rightarrow> smValue s)\<rparr>)"

definition ex_io :: metrics_io where
  "ex_io = \<lparr>mioURLOk = (\<lambda>_. None), mioServer = ex_store (snapshot_payload 7 ex_snapshot),
     mioDecode = (\<lambda>body. Inr (vector_answer 0 body)), mioParseFloat = (\<lambda>s. Some (decimal s))\<rparr>"

lemma digits_plain: "set (nat_digits n) \<inter> {CHR ''-'', CHR ''.''} = {}"
proof -
  have "set ''0123456789'' \<inter> {CHR ''-'', CHR ''.''} = {}" by code_simp
  with nat_digits_set [of n] show ?thesis by blast
qed

lemma split_first_none: "d \<notin> set s \<Longrightarrow> split_first d s = None"
  by (induction s) auto

lemma decimal_itoa: "decimal (itoa n) = float_of_int n"
proof (cases "n < 0")
  case True
  then show ?thesis by (simp add: decimal_def itoa_def atoi_nat_digits float_of_int_def)
next
  case False
  have "hd (nat_digits (nat n)) \<noteq> CHR ''-''" if "nat_digits (nat n) \<noteq> []"
    using digits_plain [of "nat n"] hd_in_set [OF that] by auto
  moreover have "split_first (CHR ''.'') (nat_digits (nat n)) = None"
    using digits_plain [of "nat n"] by (intro split_first_none) auto
  ultimately show ?thesis
    using False by (auto simp: decimal_def itoa_def float_of_int_def atoi_nat_digits)
qed

lemma metricQuery_inj: "metricQuery m t = metricQuery m' t \<longleftrightarrow> m = m'"
  by (simp add: metricQuery_def)

lemma distinct_samples:
  "distinct (map sample_key (map (\<lambda>(m, v). \<lparr>smMetric = m, smTest = t, smValue = v, smTime = ts\<rparr>)
    (zip metric_names (snapshot_values s))))"
proof -
  have len: "length metric_names = length (snapshot_values s)" by (simp add: metric_names_def snapshot_values_def)
  have d: "distinct metric_names" by code_simp
  have "map sample_key (map (\<lambda>(m, v). \<lparr>smMetric = m, smTest = t, smValue = v, smTime = ts\<rparr>)
      (zip metric_names (snapshot_values s))) = map (\<lambda>m. metricQuery m t) (map fst (zip metric_names (snapshot_values s)))"
    by (simp add: sample_key_def split_beta comp_def)
  also have "map fst (zip metric_names (snapshot_values s)) = metric_names" using len by simp
  finally show ?thesis using d by (simp add: distinct_map inj_on_def metricQuery_inj)
qed

lemma ex_answers: "answers_with ex_io ''v'' (snapshot_payload 7 ex_snapshot)"
  unfolding answers_with_def
proof (intro allI impI)
  fix s sent assume s: "Some s \<in> set (read_samples (snapshot_payload 7 ex_snapshot))"
  have "plain_id (snTestID ex_snapshot)" by code_simp
  note read = payload_read [OF this, of 7]
  have "drop (length (query_url ''v'' [])) (query_url ''v'' q) = QueryEscape q" for q
  proof -
    have "query_url ''v'' q = query_url ''v'' [] @ QueryEscape q"
      unfolding query_url_def append_assoc by (simp only: QueryEscape_def list.map concat.simps append_Nil)
    then show ?thesis by (metis append_eq_conv_conj)
  qed
  moreover have "find_row sample_key (sample_key s)
      (map the (filter (\<lambda>s. s \<noteq> None) (read_samples (snapshot_payload 7 ex_snapshot)))) = Some s"
  proof -
    define xs where "xs = map (\<lambda>(m, v). \<lparr>smMetric = m, smTest = snTestID ex_snapshot, smValue = v, smTime = itoa 7\<rparr>)
      (zip metric_names (snapshot_values ex_snapshot))"
    have r: "read_samples (snapshot_payload 7 ex_snapshot) = map Some xs"
      unfolding read xs_def by (simp only: map_map comp_def) (rule map_cong, auto)
    with s have "s \<in> set xs" by auto
    moreover have "distinct (map sample_key xs)" unfolding xs_def by (rule distinct_samples)
    moreover have "map the (filter (\<lambda>s. s \<noteq> None) (map Some ys)) = ys" for ys :: "sample list"
      by (induction ys) simp_all
    ultimately show ?thesis unfolding r by (simp only: find_row_distinct)
  qed
  ultimately show "\<exists>ts v sent'. Client_Query ex_io ''v'' (metricQuery (smMetric s) (smTest s)) sent =
      (Inr (vector_answer ts v), sent') \<and> mioParseFloat ex_io v = mioParseFloat ex_io (smValue s)"
    by (auto simp: Client_Query_def get_json_def ex_io_def http_send_def http_defs ex_store_def Let_def
        QueryUnescape_QueryEscape sample_key_def)
qed

theorem dashboard_shows_snapshot_witness:
  "\<exists>live. fst (Service_GetLiveMetrics ex_io ''v'' ''A'' []) = Inr live \<and> lmRequests live = 5 \<and>
    lmFailures live = 1 \<and> lmBytesReceived live = 10 \<and> lmAvgLatencyMs live = 3 / 2"
proof -
  have "plain_id (snTestID ex_snapshot)" "small_counts ex_snapshot" by code_simp+
  moreover have "parses_integers ex_io" by (simp add: parses_integers_def ex_io_def decimal_itoa)
  ultimately have "\<exists>live. fst (Service_GetLiveMetrics ex_io ''v'' (snTestID ex_snapshot) []) = Inr live \<and>
    lmRequests live = 5 \<and> lmFailures live = 1 \<and> lmBytesReceived live = 10 \<and>
    (\<forall>x. mioParseFloat ex_io (fixed2 (3 / 2)) = Some x \<longrightarrow> lmAvgLatencyMs live = x)"
    using dashboard_shows_snapshot [OF ex_answers, of "[]"] by (auto simp: ex_snapshot_def)
  moreover have "mioParseFloat ex_io (fixed2 (3 / 2)) = Some (3 / 2)"
    unfolding fixed2_small by (simp add: ex_io_def) code_simp
  ultimately show ?thesis unfolding ex_snapshot_def Snapshot.simps by blast
qed

section \<open>The parameters of a range query\<close>

text \<open>The reference: the parameters a server reads from a URL.\<close>

definition read_params :: "string \<Rightarrow> (string \<times> string) list" where
  "read_params url =
     (case split_first (CHR ''?'') url of
        None \<Rightarrow> []
      | Some (_, query) \<Rightarrow> map (\<lambda>p. case split_first (CHR ''='') p of
            None \<Rightarrow> (QueryUnescape p, []) | Some (k, v) \<Rightarrow> (QueryUnescape k, QueryUnescape v))
          (split_on (CHR ''&'') query))"

lemma split_on_append: "d \<notin> set a \<Longrightarrow> split_on d (a @ d # b) = a # split_on d b"
  by (induction a) (auto split: list.splits)

lemma split_on_none: "d \<notin> set a \<Longrightarrow> split_on d a = [a]"
  by (induction a) (auto split: list.splits)

lemma not_structural_in: "structural d \<Longrightarrow> d \<notin> set (QueryEscape s)"
  using QueryEscape_plain by blast

lemma structural_chars: "structural (CHR ''&'')" "structural (CHR ''='')" "structural (CHR ''?'')"
  by (code_simp, code_simp, code_simp)

lemma escape_free: "CHR ''&'' \<notin> set (QueryEscape s)" "CHR ''='' \<notin> set (QueryEscape s)"
  "CHR ''?'' \<notin> set (QueryEscape s)"
  by (simp_all add: not_structural_in structural_chars)

text \<open>A range query asks for what the caller gave. Whatever text the query, the bounds and the step
  are, the server reads exactly the five parameters from the URL: none of them can end early, change
  another or add one.\<close>

theorem range_query_params:
  assumes "CHR ''?'' \<notin> set baseURL"
  shows "read_params (query_range_url baseURL query start until step) =
    [(''end'', until), (''latency_offset'', ''1ms''), (''query'', query), (''start'', start), (''step'', step)]"
proof -
  let ?q = "''end='' @ QueryEscape until @ CHR ''&'' # ''latency_offset=1ms'' @ CHR ''&'' # ''query='' @
    QueryEscape query @ CHR ''&'' # ''start='' @ QueryEscape start @ CHR ''&'' # ''step='' @ QueryEscape step"
  have first: "split_first (CHR ''?'') (query_range_url baseURL query start until step) =
      Some (baseURL @ ''/api/v1/query_range'', ?q)"
  proof -
    have url: "query_range_url baseURL query start until step =
        (baseURL @ ''/api/v1/query_range'') @ CHR ''?'' # ?q" by (simp add: query_range_url_def)
    show ?thesis unfolding url by (rule split_first_append) (use assms in simp)
  qed
  have parts: "split_on (CHR ''&'') ?q = [''end='' @ QueryEscape until, ''latency_offset=1ms'',
      ''query='' @ QueryEscape query, ''start='' @ QueryEscape start, ''step='' @ QueryEscape step]"
  proof -
    have "?q = (''end='' @ QueryEscape until) @ CHR ''&'' # ''latency_offset=1ms'' @ CHR ''&'' #
        (''query='' @ QueryEscape query) @ CHR ''&'' # (''start='' @ QueryEscape start) @ CHR ''&'' #
        (''step='' @ QueryEscape step)" by simp
    moreover have "split_on (CHR ''&'') ((''end='' @ QueryEscape until) @ CHR ''&'' # r) =
      (''end='' @ QueryEscape until) # split_on (CHR ''&'') r" for r
      by (rule split_on_append) (simp add: escape_free)
    moreover have "split_on (CHR ''&'') (''latency_offset=1ms'' @ CHR ''&'' # r) =
      ''latency_offset=1ms'' # split_on (CHR ''&'') r" for r by (rule split_on_append) simp
    moreover have "split_on (CHR ''&'') ((''query='' @ QueryEscape query) @ CHR ''&'' # r) =
      (''query='' @ QueryEscape query) # split_on (CHR ''&'') r" for r
      by (rule split_on_append) (simp add: escape_free)
    moreover have "split_on (CHR ''&'') ((''start='' @ QueryEscape start) @ CHR ''&'' # r) =
      (''start='' @ QueryEscape start) # split_on (CHR ''&'') r" for r
      by (rule split_on_append) (simp add: escape_free)
    moreover have "split_on (CHR ''&'') (''step='' @ QueryEscape step) = [''step='' @ QueryEscape step]"
      by (rule split_on_none) (simp add: escape_free)
    ultimately show ?thesis by presburger
  qed
  show ?thesis unfolding read_params_def first option.case prod.case parts
    by (simp add: QueryUnescape_QueryEscape)
qed

theorem range_query_params_witness:
  "read_params (query_range_url ''http://v'' ''a&b=c?'' ''0'' ''9'' ''5s'') =
    [(''end'', ''9''), (''latency_offset'', ''1ms''), (''query'', ''a&b=c?''), (''start'', ''0''), (''step'', ''5s'')]"
  by (rule range_query_params) simp

end
