(* ===== verification/Api.thy ===== *)
theory Api
  imports WorkerService TestService ControlPlane Dashboard
begin

text \<open>
  \<open>internal/api\<close>: the handlers of the HTTP interface, the responses they write and the table of
  routes. A handler gets the parameter \<open>id\<close> of its route and what the JSON decoder made of the body
  (an error or a request), runs an operation of a service and answers with a status and a body; bodies
  are values here, their JSON text is the argument \<open>encReply\<close>.
\<close>

section \<open>Responses\<close>

definition ValidationError :: string where "ValidationError = ''VALIDATION_ERROR''"
definition InternalError :: string where "InternalError = ''INTERNAL_ERROR''"
definition NotFoundError :: string where "NotFoundError = ''NOT_FOUND''"

record WorkerSummary =
  wsID :: string
  wsHostname :: string

record StartTestResponse =
  stTestID :: string
  stStatus :: string
  stWorkers :: "WorkerSummary list"

datatype reply_body =
    NoBody
  | ErrorBody string string
  | PlainError string
  | HealthBody string
  | TestBody Test
  | TestsBody "Test list"
  | WorkerBody Worker
  | WorkersBody "Worker list"
  | AssignmentBody AssignmentResponse
  | StartBody StartTestResponse
  | MetricsBody LiveMetrics
  | HistoryBody "MetricSeries list"

record reply =
  rpStatus :: int
  rpBody :: reply_body

definition response_JSON :: "int \<Rightarrow> reply_body \<Rightarrow> reply" where
  "response_JSON status data = \<lparr>rpStatus = status, rpBody = data\<rparr>"

definition response_Error :: "int \<Rightarrow> string \<Rightarrow> string \<Rightarrow> reply" where
  "response_Error status code message = response_JSON status (ErrorBody code message)"

definition no_content :: reply where
  "no_content = \<lparr>rpStatus = 204, rpBody = NoBody\<rparr>"

text \<open>\<open>err.Error()\<close>.\<close>

fun error_text :: "go_error \<Rightarrow> string" where
  "error_text ErrTestNotFound = ''test not found''"
| "error_text ErrValidation = ''validation failed''"
| "error_text ErrConflict = ''conflict''"
| "error_text ErrInternal = ''internal error''"
| "error_text ErrFailedConn = ''failed to create data''"
| "error_text ErrWorkerNotFound = ''worker not found''"
| "error_text ErrInsufficientWorkers = ''insufficient workers available''"
| "error_text ErrInvalidTestState = ''invalid test state''"
| "error_text ErrAssignmentNotFound = ''assignment not found''"
| "error_text ErrNilScheduler = ''scheduler is nil''"
| "error_text ErrNilExecutor = ''executor is nil''"
| "error_text ErrAssignmentStopped = ''assignment stopped''"
| "error_text SchedulerErrInsufficientWorkers = ''insufficient workers available''"
| "error_text WorkerErrAssignmentStopped = ''assignment stopped by control plane''"
| "error_text ErrInvalidRPS = ''rps must be greater than zero''"
| "error_text ErrInvalidConcurrency = ''concurrency must be greater than zero''"
| "error_text ErrInvalidDuration = ''duration must be greater than zero''"
| "error_text (ValidationFieldError field message) = field @ '': '' @ message"
| "error_text ErrNoRows = ''no rows in result set''"
| "error_text (PgError s) = s"
| "error_text ContextCanceled = ''context canceled''"
| "error_text DeadlineExceeded = ''context deadline exceeded''"
| "error_text (Errorf s) = s"
| "error_text (Wrapf m e) = m @ '': '' @ error_text e"

section \<open>Handlers\<close>

type_synonym ('p) handler = "'p world \<Rightarrow> reply \<times> 'p world"

text \<open>\<open>x, err := service(...); if err != nil { ... } ...\<close>, and the rejection of a body.\<close>

definition answer :: "('p, 'a) io \<Rightarrow> (go_error \<Rightarrow> reply) \<Rightarrow> ('a \<Rightarrow> reply) \<Rightarrow> 'p handler" where
  "answer m failed ok w = (case m w of (Inl err, w') \<Rightarrow> (failed err, w') | (Inr x, w') \<Rightarrow> (ok x, w'))"

definition decoded :: "go_error + 'r \<Rightarrow> (go_error \<Rightarrow> reply) \<Rightarrow> ('r \<Rightarrow> 'p handler) \<Rightarrow> 'p handler" where
  "decoded body bad k w = (case body of Inl err \<Rightarrow> (bad err, w) | Inr req \<Rightarrow> k req w)"

definition bad_request :: "go_error \<Rightarrow> reply" where
  "bad_request err = response_Error 400 ValidationError (error_text err)"

definition not_found_or :: "go_error \<Rightarrow> (go_error \<Rightarrow> reply) \<Rightarrow> go_error \<Rightarrow> reply" where
  "not_found_or sentinel other err =
     (if errors_is err sentinel then response_Error 404 NotFoundError (error_text err) else other err)"

definition internal_error :: "go_error \<Rightarrow> reply" where
  "internal_error err = response_Error 500 InternalError ''internal server error''"

definition TestHandler_CreateTest ::
    "'p TestService \<Rightarrow> string \<Rightarrow> time \<Rightarrow> go_error + CreateTestRequest \<Rightarrow> 'p handler" where
  "TestHandler_CreateTest s newID now body =
     decoded body bad_request
       (\<lambda>req. answer (TestService_CreateTest s newID now req) bad_request
          (\<lambda>test. response_JSON 201 (TestBody test)))"

definition TestHandler_GetTests :: "'p handler" where
  "TestHandler_GetTests =
     answer TestService_GetTests (\<lambda>_. response_Error 500 InternalError ''failed to fetch tests'')
       (\<lambda>tests. response_JSON 200 (TestsBody tests))"

definition TestHandler_GetTestByID :: "string \<Rightarrow> 'p handler" where
  "TestHandler_GetTestByID id' =
     answer (TestService_GetTestByID id') (not_found_or ErrTestNotFound internal_error)
       (\<lambda>test. response_JSON 200 (TestBody test))"

definition TestHandler_StopTest :: "string \<Rightarrow> 'p handler" where
  "TestHandler_StopTest id' =
     answer (TestService_StopTest id') (not_found_or ErrTestNotFound internal_error) (\<lambda>_. no_content)"

definition TestHandler_StartTest :: "'p TestService \<Rightarrow> patience \<Rightarrow> string \<Rightarrow> 'p handler" where
  "TestHandler_StartTest s pat testID =
     answer (TestService_StartTest s pat testID)
       (\<lambda>err. if errors_is err ErrTestNotFound then response_Error 404 NotFoundError (error_text err)
         else if errors_is err ErrInvalidTestState then response_Error 409 ValidationError (error_text err)
         else if errors_is err ErrInsufficientWorkers then response_Error 409 ValidationError (error_text err)
         else response_Error 500 InternalError ''internal server error'')
       (\<lambda>workers. response_JSON 200 (StartBody
          \<lparr>stTestID = testID, stStatus = test_status_string StatusRunning,
           stWorkers = map (\<lambda>worker. \<lparr>wsID = wID worker, wsHostname = wHostname worker\<rparr>) workers\<rparr>))"

definition WorkerHandler_RegisterWorker :: "string \<Rightarrow> time \<Rightarrow> go_error + RegisterWorkerRequest \<Rightarrow> 'p handler" where
  "WorkerHandler_RegisterWorker newID now body =
     decoded body bad_request
       (\<lambda>req. answer (WorkerService_RegisterWorker newID now req) bad_request
          (\<lambda>worker. response_JSON 201 (WorkerBody worker)))"

definition WorkerHandler_GetWorkers :: "'p handler" where
  "WorkerHandler_GetWorkers =
     answer WorkerService_GetWorkers (\<lambda>_. response_Error 500 InternalError ''failed to fetch workers'')
       (\<lambda>workers. response_JSON 200 (WorkersBody workers))"

definition WorkerHandler_GetWorkerByID :: "string \<Rightarrow> 'p handler" where
  "WorkerHandler_GetWorkerByID id' =
     answer (WorkerService_GetWorkerByID id') (not_found_or ErrWorkerNotFound internal_error)
       (\<lambda>worker. response_JSON 200 (WorkerBody worker))"

definition WorkerHandler_Heartbeat :: "time \<Rightarrow> string \<Rightarrow> go_error + string \<Rightarrow> 'p handler" where
  "WorkerHandler_Heartbeat now id' body =
     decoded body bad_request
       (\<lambda>status. answer (WorkerService_Heartbeat now id' status) (not_found_or ErrWorkerNotFound bad_request)
          (\<lambda>_. no_content))"

definition server_error :: "go_error \<Rightarrow> reply" where
  "server_error err = response_Error 500 ''INTERNAL_SERVER_ERROR'' (error_text err)"

definition invalid_body :: "go_error \<Rightarrow> reply" where
  "invalid_body err = response_Error 400 ''INVALID_REQUEST'' ''invalid request body''"

definition no_assignment :: AssignmentResponse where
  "no_assignment = \<lparr>arAssigned = False, arTestID = [], arStatus = [], arTargetURL = [], arMethod = [],
     arDurationSec = 0, arRPS = 0, arConcurrency = 0\<rparr>"

definition assignment_response :: "AssignmentDetails option \<Rightarrow> AssignmentResponse" where
  "assignment_response assignment =
     (case assignment of
        None \<Rightarrow> no_assignment
      | Some a \<Rightarrow>
          \<lparr>arAssigned = True, arTestID = dTestID a, arStatus = assignment_status_string (dStatus a),
           arTargetURL = dTargetURL a, arMethod = dMethod a, arDurationSec = dDurationSec a,
           arRPS = dRPS a, arConcurrency = dConcurrency a\<rparr>)"

definition WorkerHandler_GetWorkerAssignment :: "string \<Rightarrow> 'p handler" where
  "WorkerHandler_GetWorkerAssignment workerID =
     answer (WorkerService_GetReservedAssignment workerID) server_error
       (\<lambda>assignment. response_JSON 200 (AssignmentBody (assignment_response assignment)))"

definition WorkerHandler_StartAssignment :: "string \<Rightarrow> go_error + string \<Rightarrow> 'p handler" where
  "WorkerHandler_StartAssignment workerID body =
     decoded body invalid_body
       (\<lambda>testID. answer (WorkerService_StartAssignment testID workerID) server_error (\<lambda>_. no_content))"

definition WorkerHandler_CompleteAssignment :: "string \<Rightarrow> go_error + string \<Rightarrow> 'p handler" where
  "WorkerHandler_CompleteAssignment workerID body =
     decoded body invalid_body
       (\<lambda>testID. answer (WorkerService_CompleteAssignment testID workerID) server_error (\<lambda>_. no_content))"

definition WorkerHandler_FailAssignment :: "string \<Rightarrow> go_error + string \<Rightarrow> 'p handler" where
  "WorkerHandler_FailAssignment workerID body =
     decoded body invalid_body
       (\<lambda>testID. answer (WorkerService_FailAssignment testID workerID) server_error (\<lambda>_. no_content))"

text \<open>The dashboard handlers only read; their state is the requests sent to the metrics store.\<close>

definition DashboardHandler_GetMetrics :: "metrics_io \<Rightarrow> string \<Rightarrow> string \<Rightarrow> http_request list \<Rightarrow> reply \<times> http_request list" where
  "DashboardHandler_GetMetrics io baseURL testID sent =
     (case Service_GetLiveMetrics io baseURL testID sent of
        (Inl err, sent') \<Rightarrow> (response_JSON 500 (PlainError (error_text err)), sent')
      | (Inr live, sent') \<Rightarrow> (response_JSON 200 (MetricsBody live), sent'))"

definition DashboardHandler_GetHistory ::
    "metrics_io \<Rightarrow> string \<Rightarrow> string \<Rightarrow> string \<Rightarrow> string \<Rightarrow> string \<Rightarrow> http_request list \<Rightarrow> reply \<times> http_request list" where
  "DashboardHandler_GetHistory io baseURL testID start until step sent =
     (case Service_GetHistory io baseURL testID start until step sent of
        (Inl err, sent') \<Rightarrow> (response_JSON 500 (PlainError (error_text err)), sent')
      | (Inr series, sent') \<Rightarrow> (response_JSON 200 (HistoryBody series), sent'))"

definition healthHandler :: reply where
  "healthHandler = response_JSON 200 (HealthBody ''ok'')"

section \<open>Routes\<close>

datatype route =
    Health
  | RegisterWorker | GetWorkers | GetWorkerByID | Heartbeat | GetWorkerAssignment
  | StartAssignment | CompleteAssignment | FailAssignment
  | CreateTest | GetTests | GetTestByID | StartTest | StopTest | GetMetrics | GetHistory

type_synonym routes = "(string \<times> string \<times> route) list"

definition mount :: "string \<Rightarrow> routes \<Rightarrow> routes" where
  "mount path rs = map (\<lambda>(method, pattern, h). (method, path @ pattern, h)) rs"

definition NewRouter :: routes where
  "NewRouter =
     (''GET'', ''/health'', Health) #
     mount ''/api/v1''
      (mount ''/workers''
        [(''POST'', ''/'', RegisterWorker),
         (''GET'', ''/'', GetWorkers),
         (''GET'', ''/{id}'', GetWorkerByID),
         (''POST'', ''/{id}/heartbeat'', Heartbeat),
         (''GET'', ''/{id}/assignment'', GetWorkerAssignment),
         (''POST'', ''/{id}/assignment/start'', StartAssignment),
         (''POST'', ''/{id}/assignment/complete'', CompleteAssignment),
         (''POST'', ''/{id}/assignment/fail'', FailAssignment)] @
       mount ''/tests''
        [(''POST'', ''/'', CreateTest),
         (''GET'', ''/'', GetTests),
         (''GET'', ''/{id}'', GetTestByID),
         (''POST'', ''/{id}/start'', StartTest),
         (''POST'', ''/{id}/stop'', StopTest),
         (''GET'', ''/{id}/metrics'', GetMetrics),
         (''GET'', ''/{id}/metrics/history'', GetHistory)])"

section \<open>The server\<close>

text \<open>
  The server of the control plane. \<open>apRouter\<close> is the router library: from a method and a path to the
  route and its parameter \<open>id\<close>. The decoders and the encoder of bodies are arguments too; \<open>apNewID\<close>,
  \<open>apNow\<close> and \<open>apPatience\<close> are what the operations take from their surroundings.
\<close>

record 'p api =
  apService :: "'p TestService"
  apNewID :: string
  apNow :: time
  apPatience :: patience
  apMetrics :: metrics_io
  apMetricsURL :: string
  apRouter :: "string \<Rightarrow> string \<Rightarrow> (route \<times> string) option"
  apDecCreate :: "string \<Rightarrow> go_error + CreateTestRequest"
  apDecRegister :: "string \<Rightarrow> go_error + RegisterWorkerRequest"
  apDecHeartbeat :: "string \<Rightarrow> go_error + string"
  apDecTransition :: "string \<Rightarrow> go_error + string"
  apEncReply :: "reply_body \<Rightarrow> string"

definition query_param :: "string \<Rightarrow> string \<Rightarrow> string" where
  "query_param url key = (case map_of (read_params url) key of None \<Rightarrow> [] | Some v \<Rightarrow> v)"

fun serve :: "'p api \<Rightarrow> route \<Rightarrow> string \<Rightarrow> http_request \<Rightarrow> 'p handler" where
  "serve a Health i req w = (healthHandler, w)"
| "serve a RegisterWorker i req w =
     WorkerHandler_RegisterWorker (apNewID a) (apNow a) (apDecRegister a (hqBody req)) w"
| "serve a GetWorkers i req w = WorkerHandler_GetWorkers w"
| "serve a GetWorkerByID i req w = WorkerHandler_GetWorkerByID i w"
| "serve a Heartbeat i req w = WorkerHandler_Heartbeat (apNow a) i (apDecHeartbeat a (hqBody req)) w"
| "serve a GetWorkerAssignment i req w = WorkerHandler_GetWorkerAssignment i w"
| "serve a StartAssignment i req w = WorkerHandler_StartAssignment i (apDecTransition a (hqBody req)) w"
| "serve a CompleteAssignment i req w = WorkerHandler_CompleteAssignment i (apDecTransition a (hqBody req)) w"
| "serve a FailAssignment i req w = WorkerHandler_FailAssignment i (apDecTransition a (hqBody req)) w"
| "serve a CreateTest i req w =
     TestHandler_CreateTest (apService a) (apNewID a) (apNow a) (apDecCreate a (hqBody req)) w"
| "serve a GetTests i req w = TestHandler_GetTests w"
| "serve a GetTestByID i req w = TestHandler_GetTestByID i w"
| "serve a StartTest i req w = TestHandler_StartTest (apService a) (apPatience a) i w"
| "serve a StopTest i req w = TestHandler_StopTest i w"
| "serve a GetMetrics i req w =
     (fst (DashboardHandler_GetMetrics (apMetrics a) (apMetricsURL a) i []), w)"
| "serve a GetHistory i req w =
     (fst (DashboardHandler_GetHistory (apMetrics a) (apMetricsURL a) i (query_param (hqURL req) ''start'')
        (query_param (hqURL req) ''end'') (query_param (hqURL req) ''step'') []), w)"

definition encoded :: "'p api \<Rightarrow> reply \<Rightarrow> string" where
  "encoded a rep = (case rpBody rep of NoBody \<Rightarrow> [] | b \<Rightarrow> apEncReply a b)"

text \<open>What a client of the server at \<open>base\<close> gets: no route is 404.\<close>

definition api_transport :: "'p api \<Rightarrow> string \<Rightarrow> 'p world transport" where
  "api_transport a base req w =
     (case apRouter a (hqMethod req) (takeWhile (\<lambda>c. c \<noteq> CHR ''?'') (drop (length base) (hqURL req))) of
        None \<Rightarrow> (Inr \<lparr>hrStatusCode = 404, hrStatus = [], hrBody = ''404 page not found''\<rparr>, w)
      | Some (r, i) \<Rightarrow>
          (case serve a r i req w of
             (rep, w') \<Rightarrow> (Inr \<lparr>hrStatusCode = rpStatus rep, hrStatus = [],
                hrBody = encoded a rep\<rparr>, w')))"

section \<open>Statuses\<close>

lemma answer_split: "P (answer m failed ok w) \<longleftrightarrow>
    (\<forall>err w'. m w = (Inl err, w') \<longrightarrow> P (failed err, w')) \<and> (\<forall>x w'. m w = (Inr x, w') \<longrightarrow> P (ok x, w'))"
  by (cases "m w"; cases "fst (m w)") (auto simp: answer_def)

lemmas status_defs = response_JSON_def response_Error_def no_content_def bad_request_def not_found_or_def
  internal_error_def server_error_def invalid_body_def healthHandler_def

lemmas handler_defs =
  TestHandler_CreateTest_def TestHandler_GetTests_def TestHandler_GetTestByID_def TestHandler_StopTest_def
  TestHandler_StartTest_def WorkerHandler_RegisterWorker_def WorkerHandler_GetWorkers_def
  WorkerHandler_GetWorkerByID_def WorkerHandler_Heartbeat_def WorkerHandler_GetWorkerAssignment_def
  WorkerHandler_StartAssignment_def WorkerHandler_CompleteAssignment_def WorkerHandler_FailAssignment_def

text \<open>A body that does not decode is refused without any statement; otherwise the status tells success.\<close>

definition ok_status :: "int \<Rightarrow> bool" where
  "ok_status n \<longleftrightarrow> n = 200 \<or> n = 201 \<or> n = 204"

lemma answer_status:
  assumes "\<And>err. \<not> ok_status (rpStatus (failed err))" "\<And>x. ok_status (rpStatus (ok x))"
  shows "ok_status (rpStatus (fst (answer m failed ok w))) \<longleftrightarrow> (\<exists>x. fst (m w) = Inr x)"
    and "snd (answer m failed ok w) = snd (m w)"
  using assms by (cases "m w"; cases "fst (m w)"; simp add: answer_def)+

lemma failure_statuses:
  "\<not> ok_status (rpStatus (bad_request err))" "\<not> ok_status (rpStatus (internal_error err))"
  "\<not> ok_status (rpStatus (server_error err))" "\<not> ok_status (rpStatus (response_Error 500 c m))"
  "\<not> ok_status (rpStatus (response_Error 409 c m))" "\<not> ok_status (rpStatus (response_Error 404 c m))"
  by (simp_all add: status_defs ok_status_def)

lemma not_found_or_status:
  "(\<And>e. \<not> ok_status (rpStatus (other e))) \<Longrightarrow> \<not> ok_status (rpStatus (not_found_or s other err))"
  by (simp add: not_found_or_def failure_statuses)

end
