(* ===== verification/Remote.thy ===== *)
theory Remote
  imports Api Scenario
begin

text \<open>
  Client and server together: what the router library and the JSON library promise, and that a remote
  call of the client does exactly what the local call of the service does. The two libraries appear
  as the hypotheses \<open>routes_correctly\<close> and \<open>codecs_agree\<close>, which the last section instantiates.
\<close>

section \<open>What the libraries promise\<close>

text \<open>The path of a pattern: the parameter replaced, a final slash optional.\<close>

fun fill :: "string \<Rightarrow> string \<Rightarrow> string" where
  "fill i [] = []"
| "fill i (c # cs) = (if c = CHR ''{'' then i @ drop 3 cs else c # fill i cs)"

definition no_final_slash :: "string \<Rightarrow> string" where
  "no_final_slash p = (if p \<noteq> [] \<and> last p = CHR ''/'' then butlast p else p)"

text \<open>Identifiers are ULIDs: not empty, and none of the characters that structure a URL.\<close>

definition id_ok :: "string \<Rightarrow> bool" where
  "id_ok i \<longleftrightarrow> i \<noteq> [] \<and> list_all (\<lambda>c. unreserved c) i"

definition routes_correctly :: "(string \<Rightarrow> string \<Rightarrow> (route \<times> string) option) \<Rightarrow> bool" where
  "routes_correctly router \<longleftrightarrow>
     (\<forall>(m, pattern, h)\<in>set NewRouter. \<forall>i. id_ok i \<longrightarrow>
        router m (no_final_slash (fill i pattern)) =
          Some (h, if CHR ''{'' \<in> set pattern then i else []))"

definition codecs_agree :: "codec \<Rightarrow> 'p api \<Rightarrow> bool" where
  "codecs_agree c a \<longleftrightarrow>
     (\<forall>t. apDecTransition a (encTransition c t) = Inr t) \<and>
     (\<forall>s. apDecHeartbeat a (encHeartbeat c s) = Inr s) \<and>
     (\<forall>r. apDecRegister a (encRegister c r) =
        Inr \<lparr>rqHostname = rwHostname r, rqVersion = rwVersion r, rqCPUCount = rwCPUCount r,
             rqMemoryMB = rwMemoryMB r\<rparr>) \<and>
     (\<forall>r. decAssignment c (apEncReply a (AssignmentBody r)) = Inr r) \<and>
     (\<forall>v. decRegister c (apEncReply a (WorkerBody v)) =
        Inr \<lparr>rrID = wID v, rrHostname = wHostname v, rrStatus = worker_status_string (wStatus v)\<rparr>) \<and>
     (\<forall>t. decTest c (apEncReply a (TestBody t)) =
        Inr \<lparr>tsrID = tID t, tsrStatus = test_status_string (tStatus t)\<rparr>)"

section \<open>Remote calls are local calls\<close>

text \<open>
  \<open>same_call f m m'\<close>: both leave the same world; when the second succeeds the first succeeds with the
  image of its result, and when the second fails the first fails.
\<close>

definition same_call :: "('a \<Rightarrow> 'b) \<Rightarrow> ('s, 'b) stateful \<Rightarrow> ('s, 'a) stateful \<Rightarrow> bool" where
  "same_call f m m' \<longleftrightarrow> (\<forall>s. snd (m s) = snd (m' s) \<and>
     (\<forall>x. fst (m' s) = Inr x \<longrightarrow> fst (m s) = Inr (f x)) \<and>
     (\<forall>err. fst (m' s) = Inl err \<longrightarrow> (\<exists>err'. fst (m s) = Inl err')))"

definition connected :: "'p api \<Rightarrow> string \<Rightarrow> codec \<Rightarrow> 'p world Client" where
  "connected a base c = New (\<lambda>_. None) (api_transport a base) c base"

definition plain_base :: "string \<Rightarrow> bool" where
  "plain_base base \<longleftrightarrow> base \<noteq> [] \<and> last base \<noteq> CHR ''/''"

lemma connected_base: "plain_base base \<Longrightarrow> trim_slashes base = base"
proof -
  assume "plain_base base"
  then obtain b c where "base = b @ [c]" "c \<noteq> CHR ''/''"
    by (metis append_butlast_last_id plain_base_def)
  then show ?thesis by (simp add: trim_slashes_def)
qed

lemma id_free: "id_ok i \<Longrightarrow> c \<in> set i \<Longrightarrow> c \<noteq> CHR ''?'' \<and> c \<noteq> CHR ''/'' \<and> c \<noteq> CHR ''{''"
proof -
  have "list_all (\<lambda>c. c \<noteq> CHR ''?'' \<and> c \<noteq> CHR ''/'' \<and> c \<noteq> CHR ''{'')
      ''ABCDEFGHIJKLMNOPQRSTUVWXYZabcdefghijklmnopqrstuvwxyz0123456789-_.~''" by code_simp
  then have "unreserved c \<Longrightarrow> c \<noteq> CHR ''?'' \<and> c \<noteq> CHR ''/'' \<and> c \<noteq> CHR ''{''" for c
    unfolding unreserved_def list_all_iff by blast
  then show "id_ok i \<Longrightarrow> c \<in> set i \<Longrightarrow> c \<noteq> CHR ''?'' \<and> c \<noteq> CHR ''/'' \<and> c \<noteq> CHR ''{''"
    by (simp add: id_ok_def list_all_iff)
qed

lemma path_alone: "CHR ''?'' \<notin> set p \<Longrightarrow> takeWhile (\<lambda>c. c \<noteq> CHR ''?'') p = p"
  by (simp add: takeWhile_eq_all_conv) metis

text \<open>A request of the client, answered by the handler of its route.\<close>

lemma doRequest_served:
  assumes "plain_base base" "apRouter a method path = Some (r, i)" "CHR ''?'' \<notin> set path"
  shows "doRequest (connected a base c) method path body response expected w =
    (let req = \<lparr>hqMethod = method, hqURL = base @ path, hqContentType = Some ''application/json'',
          hqBody = (case body of None \<Rightarrow> [] | Some payload \<Rightarrow> payload)\<rparr>;
         (rep, w') = serve a r i req w;
         text = encoded a rep
     in if rpStatus rep \<noteq> expected
        then (Inl (Errorf (method @ '' '' @ path @ '' failed ('' @ itoa (rpStatus rep) @ ''): '' @ text)), w')
        else case response text of Inl err \<Rightarrow> (Inl err, w') | Inr x \<Rightarrow> (Inr x, w'))"
  using assms connected_base [OF assms(1)]
  by (simp add: doRequest_def connected_def New_def http_send_def http_defs api_transport_def path_alone
      Let_def split: prod.split sum.split)

lemma routed:
  assumes "routes_correctly router" "id_ok i" "(m, pattern, h) \<in> set NewRouter"
  shows "router m (no_final_slash (fill i pattern)) = Some (h, if CHR ''{'' \<in> set pattern then i else [])"
  using assms unfolding routes_correctly_def by fastforce

lemma client_routes:
  assumes "routes_correctly router" "id_ok i"
  shows "router ''POST'' (''/api/v1/workers/'' @ i @ ''/heartbeat'') = Some (Heartbeat, i)"
    and "router ''GET'' (''/api/v1/workers/'' @ i @ ''/assignment'') = Some (GetWorkerAssignment, i)"
    and "router ''POST'' (''/api/v1/workers/'' @ i @ ''/assignment/start'') = Some (StartAssignment, i)"
    and "router ''POST'' (''/api/v1/workers/'' @ i @ ''/assignment/complete'') = Some (CompleteAssignment, i)"
    and "router ''POST'' (''/api/v1/workers/'' @ i @ ''/assignment/fail'') = Some (FailAssignment, i)"
    and "router ''GET'' (''/api/v1/tests/'' @ i) = Some (GetTestByID, i)"
    and "router ''POST'' ''/api/v1/workers'' = Some (RegisterWorker, [])"
proof -
  note r = routed [OF assms]
  have "i \<noteq> []" using assms(2) by (simp add: id_ok_def)
  moreover have "last i \<noteq> CHR ''/''" using id_free [OF assms(2)] \<open>i \<noteq> []\<close> last_in_set by blast
  ultimately have last: "no_final_slash (''/api/v1/tests/'' @ i) = ''/api/v1/tests/'' @ i"
    by (simp add: no_final_slash_def)
  show "router ''POST'' (''/api/v1/workers/'' @ i @ ''/heartbeat'') = Some (Heartbeat, i)"
    using r [of "''POST''" "''/api/v1/workers/{id}/heartbeat''" Heartbeat]
    by (simp add: NewRouter_def mount_def no_final_slash_def)
  show "router ''GET'' (''/api/v1/workers/'' @ i @ ''/assignment'') = Some (GetWorkerAssignment, i)"
    using r [of "''GET''" "''/api/v1/workers/{id}/assignment''" GetWorkerAssignment]
    by (simp add: NewRouter_def mount_def no_final_slash_def)
  show "router ''POST'' (''/api/v1/workers/'' @ i @ ''/assignment/start'') = Some (StartAssignment, i)"
    using r [of "''POST''" "''/api/v1/workers/{id}/assignment/start''" StartAssignment]
    by (simp add: NewRouter_def mount_def no_final_slash_def)
  show "router ''POST'' (''/api/v1/workers/'' @ i @ ''/assignment/complete'') = Some (CompleteAssignment, i)"
    using r [of "''POST''" "''/api/v1/workers/{id}/assignment/complete''" CompleteAssignment]
    by (simp add: NewRouter_def mount_def no_final_slash_def)
  show "router ''POST'' (''/api/v1/workers/'' @ i @ ''/assignment/fail'') = Some (FailAssignment, i)"
    using r [of "''POST''" "''/api/v1/workers/{id}/assignment/fail''" FailAssignment]
    by (simp add: NewRouter_def mount_def no_final_slash_def)
  show "router ''GET'' (''/api/v1/tests/'' @ i) = Some (GetTestByID, i)"
    using r [of "''GET''" "''/api/v1/tests/{id}''" GetTestByID] last
    by (simp add: NewRouter_def mount_def)
  show "router ''POST'' ''/api/v1/workers'' = Some (RegisterWorker, [])"
    using r [of "''POST''" "''/api/v1/workers/''" RegisterWorker]
    by (simp add: NewRouter_def mount_def no_final_slash_def)
qed

lemma plain_paths:
  assumes "id_ok i"
  shows "CHR ''?'' \<notin> set (''/api/v1/workers/'' @ i @ ''/heartbeat'')"
    and "CHR ''?'' \<notin> set (''/api/v1/workers/'' @ i @ ''/assignment'')"
    and "CHR ''?'' \<notin> set (''/api/v1/workers/'' @ i @ ''/assignment/start'')"
    and "CHR ''?'' \<notin> set (''/api/v1/workers/'' @ i @ ''/assignment/complete'')"
    and "CHR ''?'' \<notin> set (''/api/v1/workers/'' @ i @ ''/assignment/fail'')"
    and "CHR ''?'' \<notin> set (''/api/v1/tests/'' @ i)"
  using id_free [OF assms, of "CHR ''?''"] by auto

text \<open>The shape all six calls share: the handler runs one service operation.\<close>

lemma same_callI:
  assumes "\<And>w. doRequest k method path body response expected w =
      (let (rep, w') = answer m failed ok w; text = enc rep
       in if rpStatus rep \<noteq> expected then (Inl (err_of rep), w')
          else case response text of Inl err \<Rightarrow> (Inl err, w') | Inr x \<Rightarrow> (Inr x, w'))"
    and "\<And>err. rpStatus (failed err) \<noteq> expected" "\<And>x. rpStatus (ok x) = expected"
    and "\<And>x. response (enc (ok x)) = Inr (f x)"
  shows "same_call f (doRequest k method path body response expected) m"
  unfolding same_call_def
proof (intro allI conjI impI)
  fix w
  obtain r w' where m: "m w = (r, w')" by fastforce
  show "snd (doRequest k method path body response expected w) = snd (m w)"
    using assms(2,3,4) by (cases r) (simp_all add: assms(1) answer_def m)
  show "fst (doRequest k method path body response expected w) = Inr (f x)" if "fst (m w) = Inr x" for x
    using assms(2,3,4) that by (cases r) (simp_all add: assms(1) answer_def m)
  show "\<exists>err'. fst (doRequest k method path body response expected w) = Inl err'" if "fst (m w) = Inl err" for err
    using assms(2,3,4) that by (cases r) (simp_all add: assms(1) answer_def m)
qed

lemma handled:
  assumes "plain_base base" "apRouter a method path = Some (r, i)" "CHR ''?'' \<notin> set path"
    and "\<And>w. serve a r i \<lparr>hqMethod = method, hqURL = base @ path, hqContentType = Some ''application/json'',
          hqBody = (case body of None \<Rightarrow> [] | Some payload \<Rightarrow> payload)\<rparr> w = answer m failed ok w"
    and "\<And>err. rpStatus (failed err) \<noteq> expected" "\<And>x. rpStatus (ok x) = expected"
    and "\<And>x. response (encoded a (ok x)) = Inr (f x)"
  shows "same_call f (doRequest (connected a base c) method path body response expected) m"
proof (rule same_callI [where failed = failed and ok = ok and enc = "encoded a"])
  show "doRequest (connected a base c) method path body response expected w =
      (let (rep, w') = answer m failed ok w; text = encoded a rep
       in if rpStatus rep \<noteq> expected
          then (Inl (Errorf (method @ '' '' @ path @ '' failed ('' @ itoa (rpStatus rep) @ ''): '' @ encoded a rep)), w')
          else case response text of Inl err \<Rightarrow> (Inl err, w') | Inr x \<Rightarrow> (Inr x, w'))" for w
    unfolding doRequest_served [OF assms(1-3)] Let_def assms(4) by (simp add: split_beta)
qed (use assms(5-7) in auto)

definition agreed_apis :: "'p api \<Rightarrow> codec \<Rightarrow> bool" where
  "agreed_apis a c \<longleftrightarrow> routes_correctly (apRouter a) \<and> codecs_agree c a"

lemma remote_transition:
  assumes "agreed_apis a c" "plain_base base" "id_ok wid"
  shows "same_call (\<lambda>u. u) (Client_StartAssignment (connected a base c) wid tid) (WorkerService_StartAssignment tid wid)"
    and "same_call (\<lambda>u. u) (Client_CompleteAssignment (connected a base c) wid tid) (WorkerService_CompleteAssignment tid wid)"
    and "same_call (\<lambda>u. u) (Client_FailAssignment (connected a base c) wid tid) (WorkerService_FailAssignment tid wid)"
    and "same_call (\<lambda>u. u) (Client_Heartbeat (connected a base c) wid st)
          (WorkerService_Heartbeat (apNow a) wid st)"
proof -
  have router: "routes_correctly (apRouter a)" and agree: "codecs_agree c a"
    using assms(1) by (simp_all add: agreed_apis_def)
  note routes = client_routes [OF router assms(3)] and paths = plain_paths [OF assms(3)]
  have codec: "apDecTransition a (encTransition c tid) = Inr tid"
    "apDecHeartbeat a (encHeartbeat c st) = Inr st"
    "ccCodec (connected a base c) = c"
    using agree by (simp_all add: codecs_agree_def connected_def New_def)
  note simps = codec handler_defs decoded_def status_defs no_response_def
  show "same_call (\<lambda>u. u) (Client_StartAssignment (connected a base c) wid tid) (WorkerService_StartAssignment tid wid)"
    unfolding Client_StartAssignment_def by (rule handled [OF assms(2) routes(3) paths(3)]) (auto simp: simps split: if_splits)
  show "same_call (\<lambda>u. u) (Client_CompleteAssignment (connected a base c) wid tid) (WorkerService_CompleteAssignment tid wid)"
    unfolding Client_CompleteAssignment_def by (rule handled [OF assms(2) routes(4) paths(4)]) (auto simp: simps split: if_splits)
  show "same_call (\<lambda>u. u) (Client_FailAssignment (connected a base c) wid tid) (WorkerService_FailAssignment tid wid)"
    unfolding Client_FailAssignment_def by (rule handled [OF assms(2) routes(5) paths(5)]) (auto simp: simps split: if_splits)
  show "same_call (\<lambda>u. u) (Client_Heartbeat (connected a base c) wid st)
      (WorkerService_Heartbeat (apNow a) wid st)"
    unfolding Client_Heartbeat_def by (rule handled [OF assms(2) routes(1) paths(1)]) (auto simp: simps split: if_splits)
qed

definition test_status_of :: "Test \<Rightarrow> TestStatusResponse" where
  "test_status_of t = \<lparr>tsrID = tID t, tsrStatus = test_status_string (tStatus t)\<rparr>"

definition registration_of :: "Worker \<Rightarrow> RegisterWorkerResponse" where
  "registration_of v = \<lparr>rrID = wID v, rrHostname = wHostname v, rrStatus = worker_status_string (wStatus v)\<rparr>"

definition registration_request :: "RegisterWorkerPayload \<Rightarrow> RegisterWorkerRequest" where
  "registration_request r = \<lparr>rqHostname = rwHostname r, rqVersion = rwVersion r, rqCPUCount = rwCPUCount r,
     rqMemoryMB = rwMemoryMB r\<rparr>"

lemma remote_query:
  assumes "agreed_apis a c" "plain_base base" "id_ok i"
  shows "same_call assignment_response (Client_GetAssignment (connected a base c) i) (WorkerService_GetReservedAssignment i)"
    and "same_call test_status_of (Client_GetTest (connected a base c) i) (TestService_GetTestByID i)"
    and "same_call registration_of (Client_RegisterWorker (connected a base c) r)
          (WorkerService_RegisterWorker (apNewID a) (apNow a) (registration_request r))"
proof -
  have router: "routes_correctly (apRouter a)" and agree: "codecs_agree c a"
    using assms(1) by (simp_all add: agreed_apis_def)
  note routes = client_routes [OF router assms(3)] and paths = plain_paths [OF assms(3)]
  have codec: "apDecRegister a (encRegister c r) = Inr (registration_request r)"
    "decAssignment c (apEncReply a (AssignmentBody x)) = Inr x"
    "decTest c (apEncReply a (TestBody t)) = Inr (test_status_of t)"
    "decRegister c (apEncReply a (WorkerBody v)) = Inr (registration_of v)"
    "ccCodec (connected a base c) = c" for x t v
    using agree by (simp_all add: codecs_agree_def connected_def New_def test_status_of_def
        registration_of_def registration_request_def)
  note simps = codec handler_defs decoded_def status_defs encoded_def
  show "same_call assignment_response (Client_GetAssignment (connected a base c) i) (WorkerService_GetReservedAssignment i)"
    unfolding Client_GetAssignment_def by (rule handled [OF assms(2) routes(2) paths(2)]) (auto simp: simps split: if_splits)
  show "same_call test_status_of (Client_GetTest (connected a base c) i) (TestService_GetTestByID i)"
    unfolding Client_GetTest_def by (rule handled [OF assms(2) routes(6) paths(6)]) (auto simp: simps split: if_splits)
  show "same_call registration_of (Client_RegisterWorker (connected a base c) r)
      (WorkerService_RegisterWorker (apNewID a) (apNow a) (registration_request r))"
    unfolding Client_RegisterWorker_def
    by (rule handled [OF assms(2) routes(7)]) (auto simp: simps split: if_splits)
qed

text \<open>C10: a remote call is a local call. With a router that follows the table of routes and a JSON library
  whose decoder undoes its encoder, each call of the worker's client leaves the control plane in exactly
  the state the service operation behind it leaves it in, succeeds with the image of its result when it
  succeeds and fails when it fails: the path, the method and the expected status of every call fit the
  route and the handler.\<close>

theorem remote_calls:
  assumes "agreed_apis a c" "plain_base base" "id_ok wid" "id_ok tid"
  defines "k \<equiv> connected a base c"
  shows "same_call registration_of (Client_RegisterWorker k r)
      (WorkerService_RegisterWorker (apNewID a) (apNow a) (registration_request r)) \<and>
    same_call (\<lambda>u. u) (Client_Heartbeat k wid st) (WorkerService_Heartbeat (apNow a) wid st) \<and>
    same_call assignment_response (Client_GetAssignment k wid) (WorkerService_GetReservedAssignment wid) \<and>
    same_call (\<lambda>u. u) (Client_StartAssignment k wid tid) (WorkerService_StartAssignment tid wid) \<and>
    same_call (\<lambda>u. u) (Client_CompleteAssignment k wid tid) (WorkerService_CompleteAssignment tid wid) \<and>
    same_call (\<lambda>u. u) (Client_FailAssignment k wid tid) (WorkerService_FailAssignment tid wid) \<and>
    same_call test_status_of (Client_GetTest k tid) (TestService_GetTestByID tid)"
  unfolding k_def using assms(1-4) by (intro conjI remote_transition remote_query)

section \<open>A router and a codec that keep the promises\<close>

text \<open>Match a path segment by segment; the segment \<open>{id}\<close> takes any text that is not empty.\<close>

fun match_segments :: "string list \<Rightarrow> string list \<Rightarrow> string option" where
  "match_segments [] [] = Some []"
| "match_segments (p # ps) (x # xs) =
     (if p = ''{id}'' then (if x \<noteq> [] \<and> match_segments ps xs \<noteq> None then Some x else None)
      else if p = x then match_segments ps xs else None)"
| "match_segments _ _ = None"

definition path_segments :: "string \<Rightarrow> string list" where
  "path_segments p = split_on (CHR ''/'') (no_final_slash p)"

fun first_match :: "(string \<times> string list \<times> route) list \<Rightarrow> string \<Rightarrow> string list \<Rightarrow> (route \<times> string) option" where
  "first_match [] m xs = None"
| "first_match ((m', ps, h) # rs) m xs =
     (if m = m' then case match_segments ps xs of Some i \<Rightarrow> Some (h, i) | None \<Rightarrow> first_match rs m xs
      else first_match rs m xs)"

definition segment_router :: "string \<Rightarrow> string \<Rightarrow> (route \<times> string) option" where
  "segment_router m path =
     first_match (map (\<lambda>(m, p, h). (m, path_segments p, h)) NewRouter) m (split_on (CHR ''/'') path)"

lemma split_segments:
  assumes "CHR ''/'' \<notin> set i"
  shows "split_on (CHR ''/'') (i @ CHR ''/'' # r) = i # split_on (CHR ''/'') r" "split_on (CHR ''/'') i = [i]"
  using assms by (simp_all add: split_on_append split_on_none)

lemma routing_table: "map (\<lambda>(m, p, h). (m, path_segments p, h)) NewRouter =
  [(''GET'', [[], ''health''], Health),
   (''POST'', [[], ''api'', ''v1'', ''workers''], RegisterWorker),
   (''GET'', [[], ''api'', ''v1'', ''workers''], GetWorkers),
   (''GET'', [[], ''api'', ''v1'', ''workers'', ''{id}''], GetWorkerByID),
   (''POST'', [[], ''api'', ''v1'', ''workers'', ''{id}'', ''heartbeat''], Heartbeat),
   (''GET'', [[], ''api'', ''v1'', ''workers'', ''{id}'', ''assignment''], GetWorkerAssignment),
   (''POST'', [[], ''api'', ''v1'', ''workers'', ''{id}'', ''assignment'', ''start''], StartAssignment),
   (''POST'', [[], ''api'', ''v1'', ''workers'', ''{id}'', ''assignment'', ''complete''], CompleteAssignment),
   (''POST'', [[], ''api'', ''v1'', ''workers'', ''{id}'', ''assignment'', ''fail''], FailAssignment),
   (''POST'', [[], ''api'', ''v1'', ''tests''], CreateTest),
   (''GET'', [[], ''api'', ''v1'', ''tests''], GetTests),
   (''GET'', [[], ''api'', ''v1'', ''tests'', ''{id}''], GetTestByID),
   (''POST'', [[], ''api'', ''v1'', ''tests'', ''{id}'', ''start''], StartTest),
   (''POST'', [[], ''api'', ''v1'', ''tests'', ''{id}'', ''stop''], StopTest),
   (''GET'', [[], ''api'', ''v1'', ''tests'', ''{id}'', ''metrics''], GetMetrics),
   (''GET'', [[], ''api'', ''v1'', ''tests'', ''{id}'', ''metrics'', ''history''], GetHistory)]"
  by code_simp

lemma segment_router_correct: "routes_correctly segment_router"
proof -
  have "list_all (\<lambda>(m, p, h). segment_router m (no_final_slash (fill i p)) =
      Some (h, if CHR ''{'' \<in> set p then i else [])) NewRouter" if "id_ok i" for i
  proof -
    have free: "CHR ''/'' \<notin> set i" "i \<noteq> []"
      using id_free [OF that, of "CHR ''/''"] that by (auto simp: id_ok_def)
    then have "last i \<noteq> CHR ''/''" using last_in_set by fastforce
    with free show ?thesis
      unfolding segment_router_def routing_table
      by (simp add: NewRouter_def mount_def no_final_slash_def split_segments)
  qed
  then show ?thesis unfolding routes_correctly_def list_all_iff by fast
qed

text \<open>A codec of records as lists of escaped fields, each ended by an ampersand.\<close>

definition enc_fields :: "string list \<Rightarrow> string" where
  "enc_fields xs = concat (map (\<lambda>x. QueryEscape x @ ''&'') xs)"

definition dec_fields :: "string \<Rightarrow> string list" where
  "dec_fields s = map QueryUnescape (butlast (split_on (CHR ''&'') s))"

lemma split_fields: "split_on (CHR ''&'') (enc_fields xs) = map QueryEscape xs @ [[]]"
  by (induction xs) (simp_all add: enc_fields_def split_on_append escape_free)

lemma dec_enc_fields: "dec_fields (enc_fields xs) = xs"
  by (simp add: dec_fields_def split_fields comp_def QueryUnescape_QueryEscape)

definition atoi :: "string \<Rightarrow> int" where
  "atoi s = (if s \<noteq> [] \<and> hd s = CHR ''-'' then - int (atoi_nat (tl s)) else int (atoi_nat s))"

lemma atoi_itoa: "atoi (itoa i) = i"
proof (cases "i < 0")
  case True
  then show ?thesis by (simp add: atoi_def itoa_def atoi_nat_digits)
next
  case False
  have "hd (nat_digits (nat i)) \<noteq> CHR ''-''" if "nat_digits (nat i) \<noteq> []"
    using digits_plain [of "nat i"] hd_in_set [OF that] by auto
  with False show ?thesis by (auto simp: atoi_def itoa_def atoi_nat_digits)
qed

definition ex_codec :: codec where
  "ex_codec =
     \<lparr>encRegister = (\<lambda>r. enc_fields [rwHostname r, rwVersion r, itoa (rwCPUCount r), itoa (rwMemoryMB r)]),
      encHeartbeat = (\<lambda>s. s),
      encTransition = (\<lambda>t. t),
      decRegister = (\<lambda>s. case dec_fields s of [i, h, st] \<Rightarrow> Inr \<lparr>rrID = i, rrHostname = h, rrStatus = st\<rparr>
         | _ \<Rightarrow> Inl (Errorf ''EOF'')),
      decAssignment = (\<lambda>s. case dec_fields s of [as, t, st, u, m, d, r, n] \<Rightarrow>
           Inr \<lparr>arAssigned = (as = ''true''), arTestID = t, arStatus = st, arTargetURL = u, arMethod = m,
                arDurationSec = atoi d, arRPS = atoi r, arConcurrency = atoi n\<rparr>
         | _ \<Rightarrow> Inl (Errorf ''EOF'')),
      decTest = (\<lambda>s. case dec_fields s of [i, st] \<Rightarrow> Inr \<lparr>tsrID = i, tsrStatus = st\<rparr>
         | _ \<Rightarrow> Inl (Errorf ''EOF''))\<rparr>"

definition ex_encode :: "reply_body \<Rightarrow> string" where
  "ex_encode b =
     (case b of
        AssignmentBody a \<Rightarrow> enc_fields [if arAssigned a then ''true'' else ''false'', arTestID a, arStatus a,
          arTargetURL a, arMethod a, itoa (arDurationSec a), itoa (arRPS a), itoa (arConcurrency a)]
      | WorkerBody v \<Rightarrow> enc_fields [wID v, wHostname v, worker_status_string (wStatus v)]
      | TestBody t \<Rightarrow> enc_fields [tID t, test_status_string (tStatus t)]
      | _ \<Rightarrow> [])"

definition ex_api :: "ProcessProvisioner api" where
  "ex_api =
     \<lparr>apService = cpService (vulcan 100), apNewID = ''n'', apNow = 100, apPatience = ex_patience,
      apMetrics = ex_io, apMetricsURL = ''v'', apRouter = segment_router,
      apDecCreate = (\<lambda>_. Inl (Errorf ''EOF'')),
      apDecRegister = (\<lambda>s. case dec_fields s of [h, v, cpu, m] \<Rightarrow>
           Inr \<lparr>rqHostname = h, rqVersion = v, rqCPUCount = atoi cpu, rqMemoryMB = atoi m\<rparr>
         | _ \<Rightarrow> Inl (Errorf ''EOF'')),
      apDecHeartbeat = Inr, apDecTransition = Inr, apEncReply = ex_encode\<rparr>"

lemma ex_agreed: "agreed_apis ex_api ex_codec"
  unfolding agreed_apis_def codecs_agree_def
  by (simp add: ex_api_def segment_router_correct) (simp add: ex_codec_def ex_encode_def dec_enc_fields atoi_itoa)

text \<open>The worker starts its assignment over HTTP; the tables are those of the local call.\<close>

theorem remote_calls_witness:
  "(\<exists>w'. Client_StartAssignment (connected ex_api ''http://c'' ex_codec) ''w'' ''A'' (ex_world ex_started) = (Inr (), w') \<and>
     w' = snd (WorkerService_StartAssignment ''A'' ''w'' (ex_world ex_started)))"
proof -
  have ids: "id_ok ''w''" "id_ok ''A''" "plain_base ''http://c''" by code_simp+
  have "fst (WorkerService_StartAssignment ''A'' ''w'' (ex_world ex_started)) = Inr ()"
    by (simp add: ex_eval WorkerService_StartAssignment_def WorkerRepo_MarkAssignmentRunning_def
        mark_running_body_def sql_assignment_running_def sql_worker_running_def ex_db_defs
        set_worker_status_def set_assignment_def)
  with remote_calls [OF ex_agreed ids(3,1,2)] show ?thesis
    unfolding same_call_def by (metis prod.collapse)
qed

end
