(* ===== verification/Execution.thy ===== *)
theory Execution
  imports Prelude
begin

text \<open>
  Package \<open>internal/execution\<close>: one HTTP request and its result, the fixed-rate scheduler that starts
  requests on the ticks of a ticker under a concurrency limit, and the engine that joins the two. The
  scheduler is a machine: its loop and the goroutines it starts take steps in any order.
\<close>

section \<open>Requests\<close>

record ExecutionConfig =
  ecTargetURL :: string
  ecMethod :: string
  ecHeaders :: "(string \<times> string) list"
  ecBody :: string
  ecDuration :: int
  ecRPS :: int
  ecConcurrency :: int

record Result =
  rsStatusCode :: int
  rsLatency :: int
  rsSuccess :: bool
  rsBytesSent :: int
  rsBytesReceived :: int
  rsErr :: "go_error option"

text \<open>
  What the HTTP client makes of a request: an error before it is sent, an error instead of a response,
  or a status with the number of body bytes read and the error that cut the reading short, if any.
\<close>

datatype http_outcome =
    BadRequest go_error
  | NoResponse go_error
  | Response int int "go_error option"

definition HTTPExecutor_Execute :: "ExecutionConfig \<Rightarrow> http_outcome \<Rightarrow> int \<Rightarrow> Result" where
  "HTTPExecutor_Execute cfg out latency =
     (let bytesSent = int (length (ecBody cfg)) in
      case out of
        BadRequest err \<Rightarrow>
          \<lparr>rsStatusCode = 0, rsLatency = latency, rsSuccess = False, rsBytesSent = 0,
           rsBytesReceived = 0, rsErr = Some err\<rparr>
      | NoResponse err \<Rightarrow>
          \<lparr>rsStatusCode = 0, rsLatency = latency, rsSuccess = False, rsBytesSent = bytesSent,
           rsBytesReceived = 0, rsErr = Some err\<rparr>
      | Response status bytesReceived readErr \<Rightarrow>
          (case readErr of
             Some err \<Rightarrow>
               \<lparr>rsStatusCode = status, rsLatency = latency, rsSuccess = False, rsBytesSent = bytesSent,
                rsBytesReceived = bytesReceived, rsErr = Some err\<rparr>
           | None \<Rightarrow>
               \<lparr>rsStatusCode = status, rsLatency = latency,
                rsSuccess = (status \<ge> 200 \<and> status < 400), rsBytesSent = bytesSent,
                rsBytesReceived = bytesReceived, rsErr = None\<rparr>))"

section \<open>The scheduler\<close>

text \<open>
  The checks before the loop, in order; then the interval between two ticks. A ticker with an interval
  that is not positive panics.
\<close>

datatype start = Refused go_error | Panicked string | Paced int

definition FixedRateScheduler_start :: "ExecutionConfig \<Rightarrow> bool \<Rightarrow> bool \<Rightarrow> start" where
  "FixedRateScheduler_start cfg execute_nil record_nil =
     (if ecRPS cfg \<le> 0 then Refused ErrInvalidRPS
      else if ecConcurrency cfg \<le> 0 then Refused ErrInvalidConcurrency
      else if ecDuration cfg \<le> 0 then Refused ErrInvalidDuration
      else if execute_nil then Refused (Errorf ''execute function is nil'')
      else if record_nil then Refused (Errorf ''record function is nil'')
      else let interval = 1000000000 sdiv ecRPS cfg in
           if interval \<le> 0 then Panicked ''non-positive interval for NewTicker'' else Paced interval)"

text \<open>
  A goroutine executes its request, records the result, gives its slot back (the deferred receive,
  which runs first) and signs off at the wait group.
\<close>

datatype phase = Executing | Releasing | Finishing | Gone

datatype loop = Pacing | Draining | Returned

record run =
  rnConcurrency :: nat
  rnLoop :: loop
  rnSem :: nat
  rnWg :: nat
  rnGoroutines :: "phase list"
  rnRecorded :: "(nat \<times> Result) list"
  rnDropped :: nat

definition new_run :: "ExecutionConfig \<Rightarrow> run" where
  "new_run cfg =
     \<lparr>rnConcurrency = nat (ecConcurrency cfg), rnLoop = Pacing, rnSem = 0, rnWg = 0, rnGoroutines = [],
      rnRecorded = [], rnDropped = 0\<rparr>"

datatype event = Tick | ContextDone | Executed nat Result | Released nat | SignedOff nat | Waited

definition at_phase :: "run \<Rightarrow> nat \<Rightarrow> phase \<Rightarrow> bool" where
  "at_phase s i p \<longleftrightarrow> i < length (rnGoroutines s) \<and> rnGoroutines s ! i = p"

fun run_step :: "event \<Rightarrow> run \<Rightarrow> run option" where
  "run_step Tick s =
     (if rnLoop s = Pacing then
        (if rnSem s < rnConcurrency s
         then Some (s\<lparr>rnSem := rnSem s + 1, rnWg := rnWg s + 1, rnGoroutines := rnGoroutines s @ [Executing]\<rparr>)
         else Some (s\<lparr>rnDropped := rnDropped s + 1\<rparr>))
      else None)"
| "run_step ContextDone s = (if rnLoop s = Pacing then Some (s\<lparr>rnLoop := Draining\<rparr>) else None)"
| "run_step (Executed i r) s =
     (if at_phase s i Executing
      then Some (s\<lparr>rnGoroutines := (rnGoroutines s)[i := Releasing], rnRecorded := rnRecorded s @ [(i, r)]\<rparr>)
      else None)"
| "run_step (Released i) s =
     (if at_phase s i Releasing
      then Some (s\<lparr>rnGoroutines := (rnGoroutines s)[i := Finishing], rnSem := rnSem s - 1\<rparr>)
      else None)"
| "run_step (SignedOff i) s =
     (if at_phase s i Finishing
      then Some (s\<lparr>rnGoroutines := (rnGoroutines s)[i := Gone], rnWg := rnWg s - 1\<rparr>)
      else None)"
| "run_step Waited s = (if rnLoop s = Draining \<and> rnWg s = 0 then Some (s\<lparr>rnLoop := Returned\<rparr>) else None)"

fun run_events :: "event list \<Rightarrow> run \<Rightarrow> run option" where
  "run_events [] s = Some s"
| "run_events (e # es) s = (case run_step e s of None \<Rightarrow> None | Some s' \<Rightarrow> run_events es s')"

section \<open>The engine\<close>

definition DefaultEngine_Run ::
    "bool \<Rightarrow> bool \<Rightarrow> ExecutionConfig \<Rightarrow> bool \<Rightarrow> start" where
  "DefaultEngine_Run scheduler_nil executor_nil cfg record_nil =
     (if scheduler_nil then Refused ErrNilScheduler
      else if executor_nil then Refused ErrNilExecutor
      else FixedRateScheduler_start cfg False record_nil)"

section \<open>The invariant of a run\<close>

definition counting :: "('a \<Rightarrow> bool) \<Rightarrow> 'a list \<Rightarrow> nat" where
  "counting P xs = length (filter P xs)"

lemma counting_update:
  assumes "i < length xs"
  shows "counting P (xs[i := y]) + (if P (xs ! i) then 1 else 0) = counting P xs + (if P y then 1 else 0)"
  using assms
proof (induction xs arbitrary: i)
  case (Cons x xs)
  show ?case
  proof (cases i)
    case (Suc j)
    with Cons.prems have "j < length xs" by simp
    from Cons.IH [OF this] show ?thesis by (auto simp: Suc counting_def split: if_splits)
  qed (simp add: counting_def)
qed simp

lemma counting_snoc [simp]: "counting P (xs @ [x]) = counting P xs + (if P x then 1 else 0)"
  by (simp add: counting_def)

lemma counting_Nil [simp]: "counting P [] = 0"
  by (simp add: counting_def)

lemma counting_zero: "counting P xs = 0 \<longleftrightarrow> (\<forall>x\<in>set xs. \<not> P x)"
  by (auto simp: counting_def filter_empty_conv)

definition holds_slot :: "phase \<Rightarrow> bool" where
  "holds_slot p \<longleftrightarrow> p = Executing \<or> p = Releasing"

text \<open>The goroutines that have recorded their result.\<close>

definition executed :: "phase list \<Rightarrow> nat set" where
  "executed gs = {i. i < length gs \<and> gs ! i \<noteq> Executing}"

definition run_ok :: "run \<Rightarrow> bool" where
  "run_ok s \<longleftrightarrow>
     rnSem s = counting holds_slot (rnGoroutines s) \<and> rnSem s \<le> rnConcurrency s \<and>
     rnWg s = counting (\<lambda>p. p \<noteq> Gone) (rnGoroutines s) \<and>
     distinct (map fst (rnRecorded s)) \<and>
     set (map fst (rnRecorded s)) = executed (rnGoroutines s) \<and>
     (rnLoop s = Returned \<longrightarrow> rnWg s = 0)"

lemma run_okD:
  assumes "run_ok s"
  shows "rnSem s = counting holds_slot (rnGoroutines s)" "rnSem s \<le> rnConcurrency s"
    "rnWg s = counting (\<lambda>p. p \<noteq> Gone) (rnGoroutines s)" "distinct (map fst (rnRecorded s))"
    "set (map fst (rnRecorded s)) = executed (rnGoroutines s)"
    "rnLoop s = Returned \<Longrightarrow> rnWg s = 0"
  using assms by (simp_all add: run_ok_def)

text \<open>A goroutine moves from one phase to another.\<close>

lemma executed_moves:
  "i < length gs \<Longrightarrow> p \<noteq> Executing \<Longrightarrow> executed (gs[i := p]) = insert i (executed gs)"
  "executed (gs @ [Executing]) = executed gs"
  by (auto simp: executed_def nth_list_update nth_append less_Suc_eq)

lemma counting_moves:
  assumes "i < length gs" "gs ! i = p"
  shows "counting P (gs[i := q]) + of_bool (P p) = counting P gs + of_bool (P q)"
  using counting_update [OF assms(1), of P q] assms(2) by (simp split: if_splits)

lemma run_step_cases [consumes 1, case_names tick dropped stop executed released signed_off waited]:
  assumes "run_step e s = Some s'"
  obtains "rnLoop s = Pacing" "rnSem s < rnConcurrency s" "s' = s\<lparr>rnSem := rnSem s + 1, rnWg := rnWg s + 1,
      rnGoroutines := rnGoroutines s @ [Executing]\<rparr>"
  | "rnLoop s = Pacing" "s' = s\<lparr>rnDropped := rnDropped s + 1\<rparr>"
  | "rnLoop s = Pacing" "s' = s\<lparr>rnLoop := Draining\<rparr>"
  | i r where "at_phase s i Executing"
      "s' = s\<lparr>rnGoroutines := (rnGoroutines s)[i := Releasing], rnRecorded := rnRecorded s @ [(i, r)]\<rparr>"
  | i where "at_phase s i Releasing"
      "s' = s\<lparr>rnGoroutines := (rnGoroutines s)[i := Finishing], rnSem := rnSem s - 1\<rparr>"
  | i where "at_phase s i Finishing" "s' = s\<lparr>rnGoroutines := (rnGoroutines s)[i := Gone], rnWg := rnWg s - 1\<rparr>"
  | "rnWg s = 0" "s' = s\<lparr>rnLoop := Returned\<rparr>"
  using assms by (cases e) (auto split: if_splits)

lemma run_ok_step:
  assumes "run_ok s" "run_step e s = Some s'"
  shows "run_ok s'"
  using assms(2)
proof (cases rule: run_step_cases)
  case tick
  with run_okD [OF assms(1)] show ?thesis by (simp add: run_ok_def holds_slot_def executed_moves)
next
  case dropped
  with assms(1) show ?thesis by (simp add: run_ok_def)
next
  case stop
  with assms(1) show ?thesis by (simp add: run_ok_def)
next
  case (executed i r)
  note gs = executed(1) [unfolded at_phase_def, THEN conjunct1] executed(1) [unfolded at_phase_def, THEN conjunct2]
  have "i \<notin> set (map fst (rnRecorded s))" unfolding run_okD(5) [OF assms(1)] using gs by (simp add: executed_def)
  with run_okD [OF assms(1)] counting_moves [OF gs, of holds_slot Releasing] counting_moves [OF gs, of "\<lambda>p. p \<noteq> Gone" Releasing]
  show ?thesis by (simp add: run_ok_def executed(2) executed_moves gs holds_slot_def)
next
  case (released i)
  note gs = released(1) [unfolded at_phase_def, THEN conjunct1] released(1) [unfolded at_phase_def, THEN conjunct2]
  have "i \<in> executed (rnGoroutines s)" using gs by (simp add: executed_def)
  with run_okD [OF assms(1)] counting_moves [OF gs, of holds_slot Finishing] counting_moves [OF gs, of "\<lambda>p. p \<noteq> Gone" Finishing]
  show ?thesis by (auto simp: run_ok_def released(2) executed_moves gs holds_slot_def)
next
  case (signed_off i)
  note gs = signed_off(1) [unfolded at_phase_def, THEN conjunct1] signed_off(1) [unfolded at_phase_def, THEN conjunct2]
  have "i \<in> executed (rnGoroutines s)" using gs by (simp add: executed_def)
  with run_okD [OF assms(1)] counting_moves [OF gs, of holds_slot Gone] counting_moves [OF gs, of "\<lambda>p. p \<noteq> Gone" Gone]
  show ?thesis by (auto simp: run_ok_def signed_off(2) executed_moves gs holds_slot_def)
next
  case waited
  with assms(1) show ?thesis by (simp add: run_ok_def)
qed

lemma run_ok_new: "0 < ecConcurrency cfg \<Longrightarrow> run_ok (new_run cfg)"
  by (simp add: run_ok_def new_run_def executed_def)

lemma run_events_invariant:
  assumes "run_events es s = Some s'" "P s" "\<And>e s s'. P s \<Longrightarrow> run_step e s = Some s' \<Longrightarrow> P s'"
  shows "P s'"
  using assms(1,2) by (induction es arbitrary: s) (auto split: option.splits intro: assms(3))

lemma run_ok_events: "0 < ecConcurrency cfg \<Longrightarrow> run_events es (new_run cfg) = Some s \<Longrightarrow> run_ok s"
  by (erule run_events_invariant [where P = run_ok]) (auto intro: run_ok_new run_ok_step)

lemma run_step_concurrency: "run_step e s = Some s' \<Longrightarrow> rnConcurrency s' = rnConcurrency s"
  by (cases e) (auto split: if_splits)

lemma run_events_concurrency: "run_events es s = Some s' \<Longrightarrow> rnConcurrency s' = rnConcurrency s"
  by (induction es arbitrary: s) (auto split: option.splits dest: run_step_concurrency)

text \<open>Every tick starts a request or is dropped.\<close>

lemma run_step_ticks:
  "run_step e s = Some s' \<Longrightarrow> length (rnGoroutines s') + rnDropped s' =
    length (rnGoroutines s) + rnDropped s + (if e = Tick then 1 else 0)"
  by (cases e) (auto split: if_splits)

lemma run_events_ticks:
  "run_events es s = Some s' \<Longrightarrow> length (rnGoroutines s') + rnDropped s' =
    length (rnGoroutines s) + rnDropped s + counting (\<lambda>e. e = Tick) es"
proof (induction es arbitrary: s)
  case (Cons e es)
  then obtain s1 where "run_step e s = Some s1" "run_events es s1 = Some s'" by (auto split: option.splits)
  with Cons.IH run_step_ticks show ?case by (auto simp: counting_def)
qed (simp add: counting_def)

lemma counting_mono: "(\<And>x. P x \<Longrightarrow> Q x) \<Longrightarrow> counting P xs \<le> counting Q xs"
  by (induction xs) (auto simp: counting_def)

text \<open>C20: the scheduler keeps its promises under every interleaving of its loop and its goroutines. Never
  more requests execute than the concurrency allows; every tick starts one request or is dropped; the
  result of every request that ended is recorded exactly once; and when the scheduler has returned,
  every request it ever started has ended and is recorded, so nothing is recorded later.\<close>

theorem scheduler_bounded:
  assumes "0 < ecConcurrency cfg" "run_events es (new_run cfg) = Some s"
  shows "int (counting (\<lambda>p. p = Executing) (rnGoroutines s)) \<le> ecConcurrency cfg \<and>
    length (rnGoroutines s) + rnDropped s = counting (\<lambda>e. e = Tick) es \<and>
    distinct (map fst (rnRecorded s)) \<and>
    set (map fst (rnRecorded s)) = {i. i < length (rnGoroutines s) \<and> rnGoroutines s ! i \<noteq> Executing} \<and>
    (rnLoop s = Returned \<longrightarrow> rnGoroutines s = replicate (length (rnGoroutines s)) Gone \<and>
      set (map fst (rnRecorded s)) = {..<length (rnGoroutines s)})"
proof -
  have ok: "run_ok s" using assms by (rule run_ok_events)
  note ok = run_okD [OF ok, unfolded executed_def]
  have "counting (\<lambda>p. p = Executing) (rnGoroutines s) \<le> counting holds_slot (rnGoroutines s)"
    by (rule counting_mono) (simp add: holds_slot_def)
  moreover have "rnConcurrency s = nat (ecConcurrency cfg)"
    using run_events_concurrency [OF assms(2)] by (simp add: new_run_def)
  ultimately have le: "int (counting (\<lambda>p. p = Executing) (rnGoroutines s)) \<le> ecConcurrency cfg"
    using ok(1,2) assms(1) by linarith
  have fin: "rnGoroutines s = replicate (length (rnGoroutines s)) Gone \<and>
      set (map fst (rnRecorded s)) = {..<length (rnGoroutines s)}" if "rnLoop s = Returned"
  proof -
    have gone: "\<forall>p\<in>set (rnGoroutines s). p = Gone"
      using ok(3,6) that by (simp add: counting_zero)
    then have "rnGoroutines s = replicate (length (rnGoroutines s)) Gone" by (simp add: replicate_length_same)
    moreover have "set (map fst (rnRecorded s)) = {..<length (rnGoroutines s)}"
      unfolding ok(5) using gone nth_mem by fastforce
    ultimately show ?thesis ..
  qed
  show ?thesis
    using le ok(4,5) fin run_events_ticks [OF assms(2)] by (simp add: new_run_def)
qed

definition ex_config :: ExecutionConfig where
  "ex_config = \<lparr>ecTargetURL = ''u'', ecMethod = ''GET'', ecHeaders = [], ecBody = [],
     ecDuration = 1000000000, ecRPS = 3, ecConcurrency = 1\<rparr>"

definition ex_ok :: Result where
  "ex_ok = HTTPExecutor_Execute ex_config (Response 200 10 None) 1500000"

definition ex_events :: "event list" where
  "ex_events = [Tick, Tick, Executed 0 ex_ok, Released 0, Tick, ContextDone, SignedOff 0,
     Executed 1 ex_ok, Released 1, SignedOff 1, Waited]"

theorem scheduler_bounded_witness:
  "\<exists>s. run_events ex_events (new_run ex_config) = Some s \<and> rnLoop s = Returned \<and> rnDropped s = 1 \<and>
    set (map fst (rnRecorded s)) = {..<length (rnGoroutines s)}"
proof -
  obtain s where s: "run_events ex_events (new_run ex_config) = Some s" "rnLoop s = Returned" "rnDropped s = 1"
    by (simp add: ex_events_def ex_config_def new_run_def at_phase_def numeral_2_eq_2)
  have "0 < ecConcurrency ex_config" by (simp add: ex_config_def)
  from scheduler_bounded [OF this s(1)] s show ?thesis by blast
qed

section \<open>Draining\<close>

text \<open>What is left to do once the context is done.\<close>

primrec steps_left :: "phase \<Rightarrow> nat" where
  "steps_left Executing = 3"
| "steps_left Releasing = 2"
| "steps_left Finishing = 1"
| "steps_left Gone = 0"

definition work_left :: "run \<Rightarrow> nat" where
  "work_left s = sum_list (map steps_left (rnGoroutines s)) + (if rnLoop s = Returned then 0 else 1)"

lemma sum_list_update_less:
  "i < length xs \<Longrightarrow> f y < f (xs ! i) \<Longrightarrow> sum_list (map f (xs[i := y])) < (sum_list (map f xs) :: nat)"
proof (induction xs arbitrary: i)
  case (Cons x xs)
  then show ?case by (cases i) auto
qed simp

text \<open>C21: the scheduler always comes to an end. Once its context is done, every step that is still possible
  shortens the work that is left, and as long as it has not returned some step is possible, provided
  the requests in flight end: it returns after at most three steps per request started, plus one.\<close>

theorem scheduler_drains:
  assumes "0 < ecConcurrency cfg" "run_events es (new_run cfg) = Some s" "rnLoop s = Draining"
  shows "(\<forall>e s'. run_step e s = Some s' \<longrightarrow> work_left s' < work_left s \<and> rnLoop s' \<noteq> Pacing) \<and>
    (\<exists>e s'. run_step e s = Some s') \<and> work_left s \<le> 3 * length (rnGoroutines s) + 1"
proof (intro conjI allI impI)
  fix e s' assume step: "run_step e s = Some s'"
  show "work_left s' < work_left s"
    using step assms(3)
    by (cases e) (auto simp: work_left_def at_phase_def split: if_splits intro!: sum_list_update_less)
  show "rnLoop s' \<noteq> Pacing" using step assms(3) by (cases e) (auto split: if_splits)
next
  have ok: "run_ok s" using assms(1,2) by (rule run_ok_events)
  show "\<exists>e s'. run_step e s = Some s'"
  proof (cases "rnWg s = 0")
    case True
    with assms(3) have "run_step Waited s = Some (s\<lparr>rnLoop := Returned\<rparr>)" by simp
    then show ?thesis by blast
  next
    case False
    then obtain i where i: "i < length (rnGoroutines s)" "rnGoroutines s ! i \<noteq> Gone"
      using run_okD(3) [OF ok] by (auto simp: counting_zero in_set_conv_nth)
    then have "(\<exists>s'. run_step (Executed i ex_ok) s = Some s') \<or> (\<exists>s'. run_step (Released i) s = Some s') \<or>
        (\<exists>s'. run_step (SignedOff i) s = Some s')"
      by (cases "rnGoroutines s ! i") (simp_all add: at_phase_def)
    then show ?thesis by blast
  qed
next
  have "sum_list (map steps_left ps) \<le> 3 * length ps" for ps
  proof (induction ps)
    case (Cons p ps)
    then show ?case by (cases p) simp_all
  qed simp
  from this [of "rnGoroutines s"] show "work_left s \<le> 3 * length (rnGoroutines s) + 1"
    by (simp add: work_left_def)
qed

theorem scheduler_drains_witness:
  "\<exists>s. run_events [Tick, ContextDone] (new_run ex_config) = Some s \<and> (\<exists>e s'. run_step e s = Some s') \<and>
    work_left s \<le> 4"
proof -
  obtain s where s: "run_events [Tick, ContextDone] (new_run ex_config) = Some s" "rnLoop s = Draining"
    "length (rnGoroutines s) = 1" by (simp add: ex_config_def new_run_def)
  have "0 < ecConcurrency ex_config" by (simp add: ex_config_def)
  from scheduler_drains [OF this s(1,2)] s show ?thesis by auto
qed

section \<open>Pacing\<close>

text \<open>The pace. For a rate from one to a billion the interval is positive and the rounding only ever
  makes it shorter: in every whole number of seconds at least the asked number of ticks falls due, and
  exactly that number when the rate divides a billion. A larger rate, which a test with one huge worker
  capacity can have, makes the ticker panic.\<close>

theorem pace:
  assumes "0 < ecRPS cfg" "0 < ecConcurrency cfg" "0 < ecDuration cfg"
  shows "(ecRPS cfg \<le> 1000000000 \<longrightarrow>
      (\<exists>i>0. FixedRateScheduler_start cfg False False = Paced i \<and>
        (\<forall>secs\<ge>0. ecRPS cfg * secs \<le> secs * 1000000000 div i \<and>
          (ecRPS cfg dvd 1000000000 \<longrightarrow> secs * 1000000000 div i = ecRPS cfg * secs)))) \<and>
    (1000000000 < ecRPS cfg \<longrightarrow> (\<exists>msg. FixedRateScheduler_start cfg False False = Panicked msg))"
proof (intro conjI impI)
  let ?r = "ecRPS cfg"
  let ?i = "1000000000 div ?r"
  have sd: "1000000000 sdiv ?r = ?i" using assms(1) by (simp add: sdiv_nonneg)
  {
    assume le: "?r \<le> 1000000000"
    then have i: "0 < ?i" using assms(1) by (simp add: pos_imp_zdiv_pos_iff)
    have prod: "?r * ?i \<le> 1000000000" using assms(1) by (simp flip: minus_mod_eq_mult_div)
    have "?r * secs \<le> secs * 1000000000 div ?i" if "0 \<le> secs" for secs
    proof -
      have "(?r * secs) * ?i = secs * (?r * ?i)" by simp
      also have "\<dots> \<le> secs * 1000000000" using prod that by (rule mult_left_mono)
      finally have "(?r * secs) * ?i div ?i \<le> secs * 1000000000 div ?i" using i by (intro zdiv_mono1)
      then show ?thesis using i by simp
    qed
    moreover have "secs * 1000000000 div ?i = ?r * secs" if "?r dvd 1000000000" for secs
    proof -
      from that have "1000000000 = ?r * ?i" by simp
      then have "secs * 1000000000 = (?r * secs) * ?i" by (metis mult.commute mult.left_commute)
      then have "secs * 1000000000 div ?i = (?r * secs) * ?i div ?i" by (rule arg_cong)
      also have "\<dots> = ?r * secs" using i by (intro nonzero_mult_div_cancel_right) simp
      finally show ?thesis .
    qed
    ultimately show "\<exists>i>0. FixedRateScheduler_start cfg False False = Paced i \<and>
        (\<forall>secs\<ge>0. ?r * secs \<le> secs * 1000000000 div i \<and>
          (?r dvd 1000000000 \<longrightarrow> secs * 1000000000 div i = ?r * secs))"
      using i assms by (intro exI [of _ ?i]) (simp add: FixedRateScheduler_start_def sd)
  }
  assume "1000000000 < ?r"
  then have "?i = 0" by simp
  with assms sd show "\<exists>msg. FixedRateScheduler_start cfg False False = Panicked msg"
    by (simp add: FixedRateScheduler_start_def)
qed

theorem pace_witness:
  "FixedRateScheduler_start ex_config False False = Paced 333333333 \<and>
   (\<exists>i>0. FixedRateScheduler_start ex_config False False = Paced i \<and> 3 * 60 \<le> 60 * 1000000000 div i)"
  using pace [of ex_config] by (auto simp: ex_config_def FixedRateScheduler_start_def sdiv_nonneg)

end
