(* ===== verification/Agent.thy ===== *)
theory Agent
  imports ControlPlane Metrics Execution
begin

text \<open>
  Package \<open>internal/worker\<close>: the worker process. It registers with capped exponential backoff, reports
  its status, polls for assignments and processes one at a time: start it, execute it while flushing
  the collector every second and watching for a stop, and report how it ended. State: the worker's own
  fields (\<open>agent\<close>) and whatever the connection to the control plane threads.
\<close>

section \<open>State\<close>

record agent =
  agID :: string
  agHostname :: string
  agVersion :: string
  agStatus :: string
  agCPUCount :: int
  agMemoryMB :: int

type_synonym ('s, 'a) agent_io = "(agent \<times> 's, 'a) stateful"

definition remote :: "('s, 'a) stateful \<Rightarrow> ('s, 'a) agent_io" where
  "remote m = (\<lambda>(ag, s). case m s of (r, s') \<Rightarrow> (r, (ag, s')))"

definition set_status :: "WorkerStatus \<Rightarrow> agent \<Rightarrow> agent" where
  "set_status st ag = ag\<lparr>agStatus := worker_status_string st\<rparr>"

section \<open>Registration, heartbeats\<close>

definition Worker_Register :: "'s Client \<Rightarrow> ('s, unit) agent_io" where
  "Worker_Register k = (\<lambda>(ag, s).
     let req = \<lparr>rwHostname = agHostname ag, rwVersion = agVersion ag, rwCPUCount = agCPUCount ag,
                rwMemoryMB = agMemoryMB ag\<rparr>
     in case Client_RegisterWorker k req s of
          (Inl err, s') \<Rightarrow> (Inl err, (ag, s'))
        | (Inr resp, s') \<Rightarrow> (Inr (), (ag\<lparr>agID := rrID resp, agStatus := rrStatus resp\<rparr>, s')))"

definition Worker_sendHeartbeat :: "'s Client \<Rightarrow> ('s, unit) agent_io" where
  "Worker_sendHeartbeat k = (\<lambda>(ag, s). remote (Client_Heartbeat k (agID ag) (agStatus ag)) (ag, s))"

text \<open>One heartbeat per tick; an error is logged and the loop goes on.\<close>

primrec Worker_HeartbeatLoop :: "'s Client \<Rightarrow> nat \<Rightarrow> agent \<times> 's \<Rightarrow> agent \<times> 's" where
  "Worker_HeartbeatLoop k 0 st = st"
| "Worker_HeartbeatLoop k (Suc ticks) st = Worker_HeartbeatLoop k ticks (snd (Worker_sendHeartbeat k st))"

definition registerInitialBackoff :: int where "registerInitialBackoff = 1000000000"
definition registerMaxBackoff :: int where "registerMaxBackoff = 30000000000"

text \<open>
  What ends each wait: the timer, or the context with its error. The loop also returns the waits it
  began; \<open>None\<close> is a loop that is still waiting when the list ends.
\<close>

datatype wake = Elapsed | Cancelled go_error

fun register_loop :: "'s Client \<Rightarrow> wake list \<Rightarrow> int \<Rightarrow> agent \<times> 's \<Rightarrow> ((go_error + unit) option \<times> int list) \<times> (agent \<times> 's)" where
  "register_loop k wakes backoff st =
     (case Worker_Register k st of
        (Inr u, st') \<Rightarrow> ((Some (Inr ()), []), st')
      | (Inl err, st') \<Rightarrow>
          (case wakes of
             [] \<Rightarrow> ((None, [backoff]), st')
           | Cancelled e # _ \<Rightarrow> ((Some (Inl e), [backoff]), st')
           | Elapsed # wakes' \<Rightarrow>
               (let doubled = wrap64 (backoff * 2);
                    next = (if doubled > registerMaxBackoff then registerMaxBackoff else doubled)
                in case register_loop k wakes' next st' of
                     ((r, waits), st'') \<Rightarrow> ((r, backoff # waits), st''))))"

declare register_loop.simps [simp del]

definition Runtime_registerWithRetry ::
    "'s Client \<Rightarrow> wake list \<Rightarrow> agent \<times> 's \<Rightarrow> ((go_error + unit) option \<times> int list) \<times> (agent \<times> 's)" where
  "Runtime_registerWithRetry k wakes st = register_loop k wakes registerInitialBackoff st"

section \<open>Execution\<close>

text \<open>
  The select loop of \<open>execute\<close>: results recorded by the engine's goroutines in between, the flush tick
  and the two ways it ends. The clock of a flush is part of its event.
\<close>

datatype exec_event =
    Recorded Result
  | FlushTick time
  | ParentDone go_error
  | EngineDone "go_error option" time

definition request_result :: "Result \<Rightarrow> RequestResult" where
  "request_result r = \<lparr>rrLatency = rsLatency r, rrSuccess = rsSuccess r, rrBytesSent = rsBytesSent r,
     rrBytesReceived = rsBytesReceived r\<rparr>"

definition execution_config :: "AssignmentResponse \<Rightarrow> ExecutionConfig" where
  "execution_config a =
     \<lparr>ecTargetURL = arTargetURL a, ecMethod = arMethod a, ecHeaders = [], ecBody = [],
      ecDuration = wrap64 (arDurationSec a * 1000000000), ecRPS = arRPS a, ecConcurrency = arConcurrency a\<rparr>"

text \<open>
  A bucket without requests is not published. The buckets listed are those handed to the publisher: a
  publication that fails is logged and nothing else depends on it, so what of them arrives is a
  question to whoever uses the list.
\<close>

definition offer :: "MetricBucket \<Rightarrow> MetricBucket list \<Rightarrow> MetricBucket list" where
  "offer b published = (if mbRequests b = 0 then published else published @ [b])"

definition offer_final :: "MetricBucket \<Rightarrow> MetricBucket list \<Rightarrow> MetricBucket list" where
  "offer_final b published = (if mbRequests b > 0 then published @ [b] else published)"

text \<open>Ask for the status of the test, unless a stop was seen before; an error is logged.\<close>

definition check_stopped :: "'s Client \<Rightarrow> string \<Rightarrow> bool \<Rightarrow> 's \<Rightarrow> bool \<times> 's" where
  "check_stopped k testID stopped s =
     (if stopped then (True, s)
      else case Client_GetTest k testID s of
             (Inl err, s') \<Rightarrow> (False, s')
           | (Inr status, s') \<Rightarrow> (tsrStatus status = ''STOPPING'' \<or> tsrStatus status = ''STOPPED'', s'))"

fun execute_loop ::
    "'s Client \<Rightarrow> string \<Rightarrow> exec_event list \<Rightarrow> Collector \<Rightarrow> bool \<Rightarrow> MetricBucket list \<Rightarrow> 's \<Rightarrow>
     go_error option option \<times> MetricBucket list \<times> 's" where
  "execute_loop k testID [] c stopped published s = (None, published, s)"
| "execute_loop k testID (Recorded r # evs) c stopped published s =
     execute_loop k testID evs (Collector_Record (request_result r) c) stopped published s"
| "execute_loop k testID (FlushTick now # evs) c stopped published s =
     (case check_stopped k testID stopped s of
        (stopped', s') \<Rightarrow>
          (case Collector_Flush now c of
             (bucket, c') \<Rightarrow> execute_loop k testID evs c' stopped' (offer bucket published) s'))"
| "execute_loop k testID (ParentDone err # evs) c stopped published s = (Some (Some err), published, s)"
| "execute_loop k testID (EngineDone err now # evs) c stopped published s =
     (case Collector_Flush now c of
        (bucket, c') \<Rightarrow>
          (Some (if stopped then Some ErrAssignmentStopped else err), offer_final bucket published, s))"

definition Worker_execute ::
    "'s Client \<Rightarrow> AssignmentResponse \<Rightarrow> exec_event list \<Rightarrow> time \<Rightarrow> agent \<times> 's \<Rightarrow>
     go_error option option \<times> MetricBucket list \<times> (agent \<times> 's)" where
  "Worker_execute k a evs now = (\<lambda>(ag, s).
     case execute_loop k (arTestID a) evs (NewCollector (arTestID a) (agID ag) now) False [] s of
       (r, published, s') \<Rightarrow> (r, published, (ag, s')))"

section \<open>Processing an assignment\<close>

text \<open>\<open>shutdown\<close> is \<open>ctx.Err() != nil\<close> after the execution; \<open>None\<close> is an execution that goes on.\<close>

definition Worker_processAssignment ::
    "'s Client \<Rightarrow> AssignmentResponse \<Rightarrow> exec_event list \<Rightarrow> time \<Rightarrow> bool \<Rightarrow> agent \<times> 's \<Rightarrow>
     (go_error + unit) option \<times> MetricBucket list \<times> (agent \<times> 's)" where
  "Worker_processAssignment k a evs now shutdown = (\<lambda>(ag0, s).
     let ag = set_status WorkerStatusRunning ag0 in
     case Client_StartAssignment k (agID ag) (arTestID a) s of
       (Inl err, s1) \<Rightarrow> (Some (Inl err), [], (set_status WorkerStatusIdle ag, s1))
     | (Inr u, s1) \<Rightarrow>
         (case Worker_execute k a evs now (ag, s1) of
            (None, published, st2) \<Rightarrow> (None, published, st2)
          | (Some (Some err), published, (ag2, s2)) \<Rightarrow>
              (if errors_is err WorkerErrAssignmentStopped
               then (Some (Inr ()), published, (set_status WorkerStatusIdle ag2, s2))
               else let s3 = (if shutdown then s2
                              else snd (Client_FailAssignment k (agID ag2) (arTestID a) s2))
                    in (Some (Inl err), published, (set_status WorkerStatusIdle ag2, s3)))
          | (Some None, published, (ag2, s2)) \<Rightarrow>
              (case Client_CompleteAssignment k (agID ag2) (arTestID a) s2 of
                 (Inl err, s3) \<Rightarrow> (Some (Inl err), published, (set_status WorkerStatusIdle ag2, s3))
               | (Inr v, s3) \<Rightarrow> (Some (Inr ()), published, (set_status WorkerStatusIdle ag2, s3)))))"

definition Worker_poll ::
    "'s Client \<Rightarrow> exec_event list \<Rightarrow> time \<Rightarrow> bool \<Rightarrow> agent \<times> 's \<Rightarrow>
     (go_error + unit) option \<times> MetricBucket list \<times> (agent \<times> 's)" where
  "Worker_poll k evs now shutdown = (\<lambda>(ag, s).
     case Client_GetAssignment k (agID ag) s of
       (Inl err, s') \<Rightarrow> (Some (Inl err), [], (ag, s'))
     | (Inr a, s') \<Rightarrow>
         (if \<not> arAssigned a then (Some (Inr ()), [], (ag, s'))
          else Worker_processAssignment k a evs now shutdown (ag, s')))"

text \<open>The poll loop: one poll per tick, with what happens during it; errors are logged.\<close>

fun Worker_PollLoop ::
    "'s Client \<Rightarrow> (exec_event list \<times> time \<times> bool) list \<Rightarrow> MetricBucket list \<Rightarrow> agent \<times> 's \<Rightarrow> MetricBucket list \<times> (agent \<times> 's)" where
  "Worker_PollLoop k [] published st = (published, st)"
| "Worker_PollLoop k ((evs, now, shutdown) # ticks) published st =
     (case Worker_poll k evs now shutdown st of
        (None, bs, st') \<Rightarrow> (published @ bs, st')
      | (Some r, bs, st') \<Rightarrow> Worker_PollLoop k ticks (published @ bs) st')"

end
