(* ===== verification/AgentRuns.thy ===== *)
theory AgentRuns
  imports Agent
begin

text \<open>
  What the worker process does on the wire and with its results: the waits between registrations, the
  requests it sends for one assignment, and that every request the scheduler started is published.
\<close>

section \<open>Registration\<close>

definition backoff_wait :: "nat \<Rightarrow> int" where
  "backoff_wait i = min registerMaxBackoff (2 ^ i * registerInitialBackoff)"

lemma backoff_next:
  "(let doubled = wrap64 (backoff_wait i * 2) in
    if doubled > registerMaxBackoff then registerMaxBackoff else doubled) = backoff_wait (Suc i)"
proof -
  have "0 \<le> backoff_wait i * 2" "backoff_wait i * 2 \<le> max_int"
    by (simp_all add: backoff_wait_def registerMaxBackoff_def registerInitialBackoff_def max_int_def min_def)
  then have "wrap64 (backoff_wait i * 2) = backoff_wait i * 2" by (rule wrap64_nonneg)
  then show ?thesis
    by (simp add: backoff_wait_def registerMaxBackoff_def registerInitialBackoff_def Let_def min_def)
qed

lemma register_loop_waits:
  assumes "register_loop k wakes (backoff_wait j) st = ((r, waits), st')"
  shows "(\<forall>i<length waits. waits ! i = backoff_wait (i + j)) \<and>
    (r = None \<longrightarrow> list_all (\<lambda>w. w = Elapsed) wakes \<and> length waits = Suc (length wakes)) \<and>
    (\<forall>e. r = Some (Inl e) \<longrightarrow> waits \<noteq> [] \<and> length waits \<le> length wakes \<and>
      wakes ! (length waits - 1) = Cancelled e)"
  using assms
proof (induction wakes arbitrary: j st r waits st')
  case Nil
  then show ?case by (subst (asm) register_loop.simps) (auto split: prod.splits sum.splits)
next
  case (Cons x xs)
  obtain q st1 where Pair: "Worker_Register k st = (q, st1)" by (metis surj_pair)
  show ?case
    proof (cases q)
      case (Inr u)
      with Cons.prems Pair show ?thesis by (subst (asm) register_loop.simps) auto
    next
      case (Inl err)
      show ?thesis
      proof (cases x)
        case (Cancelled e)
        with Cons.prems Pair Inl show ?thesis by (subst (asm) register_loop.simps) auto
      next
        case Elapsed
        obtain r1 waits1 st2 where rec: "register_loop k xs (backoff_wait (Suc j)) st1 = ((r1, waits1), st2)"
          by (metis prod.collapse)
        with Cons.prems Pair Inl Elapsed have eq: "r = r1" "waits = backoff_wait j # waits1"
          by (subst (asm) register_loop.simps; simp add: Let_def backoff_next [unfolded Let_def])+
        note IH = Cons.IH [OF rec]
        have "\<forall>i<length waits. waits ! i = backoff_wait (i + j)"
          using IH by (auto simp: eq nth_Cons split: nat.splits)
        moreover have "r = None \<longrightarrow> list_all (\<lambda>w. w = Elapsed) (x # xs) \<and> length waits = Suc (length (x # xs))"
          using IH Elapsed by (simp add: eq)
        moreover have "waits \<noteq> [] \<and> length waits \<le> length (x # xs) \<and> (x # xs) ! (length waits - 1) = Cancelled e"
          if "r = Some (Inl e)" for e
          using that IH by (cases waits1) (auto simp: eq)
        ultimately show ?thesis by blast
      qed
    qed
qed

text \<open>C27: registration retries for as long as it takes. The waits between two attempts are one second, two,
  four, doubling up to thirty seconds and thirty from then on; the loop gives up only when its context
  is cancelled during the last wait, and as long as every wait elapses it goes on.\<close>

theorem registration_backoff:
  assumes "Runtime_registerWithRetry k wakes st = ((r, waits), st')"
  shows "(\<forall>i<length waits. waits ! i = min 30000000000 (2 ^ i * 1000000000)) \<and>
    (r = None \<longrightarrow> list_all (\<lambda>w. w = Elapsed) wakes \<and> length waits = Suc (length wakes)) \<and>
    (\<forall>e. r = Some (Inl e) \<longrightarrow> waits \<noteq> [] \<and> length waits \<le> length wakes \<and>
      wakes ! (length waits - 1) = Cancelled e)"
proof -
  have "registerInitialBackoff = backoff_wait 0"
    by (simp add: backoff_wait_def registerMaxBackoff_def registerInitialBackoff_def)
  with assms have "register_loop k wakes (backoff_wait 0) st = ((r, waits), st')"
    by (simp add: Runtime_registerWithRetry_def)
  from register_loop_waits [OF this] show ?thesis
    by (simp add: backoff_wait_def registerMaxBackoff_def registerInitialBackoff_def)
qed

definition ex_wire :: "(http_request list \<Rightarrow> go_error + http_response) \<Rightarrow> codec \<Rightarrow> http_request list Client" where
  "ex_wire srv c = New (\<lambda>_. None) (http_do srv) c ''http://c''"

definition plain_codec :: codec where
  "plain_codec =
     \<lparr>encRegister = (\<lambda>r. rwHostname r), encHeartbeat = (\<lambda>s. s), encTransition = (\<lambda>t. t),
      decRegister = (\<lambda>s. Inr \<lparr>rrID = s, rrHostname = s, rrStatus = ''IDLE''\<rparr>),
      decAssignment = (\<lambda>s. Inl (Errorf ''EOF'')),
      decTest = (\<lambda>s. Inr \<lparr>tsrID = ''A'', tsrStatus = s\<rparr>)\<rparr>"

definition ex_agent :: agent where
  "ex_agent = \<lparr>agID = ''w'', agHostname = ''h'', agVersion = ''1'', agStatus = ''IDLE'', agCPUCount = 4,
     agMemoryMB = 8192\<rparr>"

text \<open>Two refused connections, then a cancelled context.\<close>

theorem registration_backoff_witness:
  "\<exists>waits st'. Runtime_registerWithRetry (ex_wire (\<lambda>_. Inl (PgError ''refused'')) plain_codec)
     [Elapsed, Elapsed, Cancelled ContextCanceled] (ex_agent, []) = ((Some (Inl ContextCanceled), waits), st') \<and>
   waits ! 2 = min 30000000000 (2 ^ 2 * 1000000000)"
proof -
  let ?k = "ex_wire (\<lambda>_. Inl (PgError ''refused'')) plain_codec"
  have reg: "Worker_Register ?k (ag, sent) = (Inl (PgError ''refused''), ag, sent @ [\<lparr>hqMethod = ''POST'',
      hqURL = ''http://c/api/v1/workers'', hqContentType = Some ''application/json'', hqBody = agHostname ag\<rparr>])" for ag sent
    by (simp add: Worker_Register_def client_defs doRequest_def ex_wire_def New_def http_send_def http_defs
        trim_slashes_def plain_codec_def Let_def)
  obtain waits st' where run: "Runtime_registerWithRetry ?k [Elapsed, Elapsed, Cancelled ContextCanceled] (ex_agent, []) =
      ((Some (Inl ContextCanceled), waits), st')" "length waits = 3"
    by (simp add: Runtime_registerWithRetry_def register_loop.simps reg Let_def)
  from registration_backoff [OF run(1)] run(2) have "waits ! 2 = min 30000000000 (2 ^ 2 * 1000000000)" by simp
  with run(1) show ?thesis by blast
qed

section \<open>On the wire\<close>

text \<open>A client whose transport records what it sends.\<close>

definition recording :: "http_request list Client \<Rightarrow> bool" where
  "recording k \<longleftrightarrow> (\<forall>url. ccURLOk k url = None) \<and> (\<forall>req sent. snd (ccTransport k req sent) = sent @ [req])"

definition transition_request :: "http_request list Client \<Rightarrow> string \<Rightarrow> string \<Rightarrow> string \<Rightarrow> http_request" where
  "transition_request k wid verb tid =
     \<lparr>hqMethod = ''POST'', hqURL = ccBaseURL k @ ''/api/v1/workers/'' @ wid @ ''/assignment/'' @ verb,
      hqContentType = Some ''application/json'', hqBody = encTransition (ccCodec k) tid\<rparr>"

definition status_request :: "http_request list Client \<Rightarrow> string \<Rightarrow> http_request" where
  "status_request k tid =
     \<lparr>hqMethod = ''GET'', hqURL = ccBaseURL k @ ''/api/v1/tests/'' @ tid,
      hqContentType = Some ''application/json'', hqBody = []\<rparr>"

lemma doRequest_sends:
  assumes "recording k"
  shows "snd (doRequest k method path body response expected sent) = sent @
    [\<lparr>hqMethod = method, hqURL = ccBaseURL k @ path, hqContentType = Some ''application/json'',
      hqBody = (case body of None \<Rightarrow> [] | Some payload \<Rightarrow> payload)\<rparr>]"
proof -
  let ?req = "\<lparr>hqMethod = method, hqURL = ccBaseURL k @ path, hqContentType = Some ''application/json'',
      hqBody = (case body of None \<Rightarrow> [] | Some payload \<Rightarrow> payload)\<rparr>"
  obtain r s where t: "ccTransport k ?req sent = (r, s)" by fastforce
  with assms have "s = sent @ [?req]" unfolding recording_def by (metis snd_conv)
  with t assms show ?thesis
    by (auto simp: doRequest_def http_send_def http_defs recording_def split: sum.splits if_splits)
qed

lemma transition_sends:
  assumes "recording k"
  shows "snd (Client_StartAssignment k wid tid sent) = sent @ [transition_request k wid ''start'' tid]"
    and "snd (Client_CompleteAssignment k wid tid sent) = sent @ [transition_request k wid ''complete'' tid]"
    and "snd (Client_FailAssignment k wid tid sent) = sent @ [transition_request k wid ''fail'' tid]"
    and "snd (Client_GetTest k tid sent) = sent @ [status_request k tid]"
  by (simp_all add: client_defs doRequest_sends [OF assms] transition_request_def status_request_def)

lemma check_stopped_sends:
  assumes "recording k" "check_stopped k tid stopped sent = (stopped', sent')"
  shows "sent' = sent \<or> sent' = sent @ [status_request k tid]"
proof -
  obtain r s where get: "Client_GetTest k tid sent = (r, s)" by fastforce
  with transition_sends(4) [OF assms(1), of tid sent] have "s = sent @ [status_request k tid]" by simp
  with get assms(2) show ?thesis by (auto simp: check_stopped_def split: if_splits sum.splits)
qed

lemma execute_loop_sends:
  assumes "recording k" "execute_loop k tid evs c stopped published sent = (r, bs, sent')"
  shows "\<exists>n. sent' = sent @ replicate n (status_request k tid)"
  using assms(2)
proof (induction evs arbitrary: c stopped published sent)
  case Nil
  then show ?case by (intro exI [of _ 0]) simp
next
  case (Cons e evs)
  show ?case
  proof (cases e)
    case (Recorded q)
    with Cons show ?thesis by simp
  next
    case (FlushTick now)
    obtain stopped' s1 where check: "check_stopped k tid stopped sent = (stopped', s1)" by fastforce
    obtain b c' where flush: "Collector_Flush now c = (b, c')" by fastforce
    from Cons.prems FlushTick check flush have "execute_loop k tid evs c' stopped' (offer b published) s1 = (r, bs, sent')"
      by simp
    from Cons.IH [OF this] obtain n where n: "sent' = s1 @ replicate n (status_request k tid)" by blast
    from check_stopped_sends [OF assms(1) check] show ?thesis
    proof
      assume "s1 = sent"
      with n show ?thesis by blast
    next
      assume "s1 = sent @ [status_request k tid]"
      with n have "sent' = sent @ replicate (Suc n) (status_request k tid)" by simp
      then show ?thesis by blast
    qed
  next
    case (ParentDone err)
    with Cons.prems show ?thesis by (intro exI [of _ 0]) simp
  next
    case (EngineDone err now)
    with Cons.prems show ?thesis by (intro exI [of _ 0]) (simp split: prod.splits)
  qed
qed

text \<open>The errors an execution can end with.\<close>

definition own_error :: "exec_event \<Rightarrow> bool" where
  "own_error e \<longleftrightarrow>
     (case e of ParentDone err \<Rightarrow> \<not> errors_is err WorkerErrAssignmentStopped
      | EngineDone (Some err) now \<Rightarrow> \<not> errors_is err WorkerErrAssignmentStopped
      | _ \<Rightarrow> True)"

lemma execute_loop_error:
  assumes "list_all own_error evs" "execute_loop k tid evs c stopped published s = (Some (Some err), bs, s')"
  shows "\<not> errors_is err WorkerErrAssignmentStopped"
  using assms
proof (induction evs arbitrary: c stopped published s)
  case (Cons e evs)
  then show ?case
    by (cases e) (auto simp: own_error_def split: prod.splits if_splits)
qed simp

lemma idle_agent: "agID (set_status st ag) = agID ag" "agStatus (set_status WorkerStatusIdle ag) = ''IDLE''"
  by (simp_all add: set_status_def)

text \<open>The rest of \<open>processAssignment\<close> once the assignment is started and executed.\<close>

lemma processAssignment_executed:
  assumes "Client_StartAssignment k (agID ag) (arTestID a) sent = (Inr u, s1)"
    and "execute_loop k (arTestID a) evs (NewCollector (arTestID a) (agID ag) now) False [] s1 = (res, pub, s2)"
  shows "Worker_processAssignment k a evs now shutdown (ag, sent) =
    (let run = set_status WorkerStatusRunning ag; idle = set_status WorkerStatusIdle run in
     case res of
       None \<Rightarrow> (None, pub, (run, s2))
     | Some (Some err) \<Rightarrow>
         (if errors_is err WorkerErrAssignmentStopped then (Some (Inr ()), pub, (idle, s2))
          else (Some (Inl err), pub, (idle,
            if shutdown then s2 else snd (Client_FailAssignment k (agID ag) (arTestID a) s2))))
     | Some None \<Rightarrow>
         (case Client_CompleteAssignment k (agID ag) (arTestID a) s2 of
            (Inl err, s3) \<Rightarrow> (Some (Inl err), pub, (idle, s3))
          | (Inr v, s3) \<Rightarrow> (Some (Inr ()), pub, (idle, s3))))"
  using assms
  by (simp add: Worker_processAssignment_def Worker_execute_def idle_agent Let_def split: option.split)

text \<open>Success means a completion that was accepted.\<close>

lemma processAssignment_success:
  assumes "list_all own_error evs"
    and "Client_StartAssignment k (agID ag) (arTestID a) sent = (Inr u, s1)"
    and exec: "execute_loop k (arTestID a) evs (NewCollector (arTestID a) (agID ag) now) False [] s1 = (res, pub, s2)"
    and run: "Worker_processAssignment k a evs now shutdown (ag, sent) = (Some (Inr ()), bs, (ag', sent'))"
  shows "\<exists>v. Client_CompleteAssignment k (agID ag) (arTestID a) s2 = (Inr v, sent') \<and> agStatus ag' = ''IDLE''"
proof -
  note proc = processAssignment_executed [OF assms(2) exec]
  have "res = Some None"
  proof (cases res)
    case None
    with run show ?thesis by (simp add: proc Let_def)
  next
    case (Some e)
    with exec have "\<not> errors_is err WorkerErrAssignmentStopped" if "e = Some err" for err
      using that by (auto dest: execute_loop_error [OF assms(1)])
    with Some run show ?thesis by (cases e) (auto simp: proc Let_def split: if_splits)
  qed
  with run show ?thesis by (auto simp: proc idle_agent Let_def split: prod.splits sum.splits)
qed

text \<open>C14: the worker's protocol for one assignment that is not stopped from outside, whatever the control
  plane answers and however the execution goes. It sends the start request first; if that fails, nothing
  more, and the error is the result. Then come only status queries of this test while it executes. When
  the execution ends without an error, exactly one complete request follows and its answer is the
  result; when it ends with an error, exactly one fail request follows, unless the worker is shutting
  down, and the error is the result. In every case the worker is IDLE again. (What it sends after it
  has found the test stopped is the next theorem.)\<close>

theorem assignment_protocol:
  assumes "recording k" "list_all own_error evs"
    and "Worker_processAssignment k a evs now shutdown (ag, sent) = (Some r, bs, (ag', sent'))"
    and "\<And>u s1. Client_StartAssignment k (agID ag) (arTestID a) sent = (Inr u, s1) \<Longrightarrow>
      fst (Worker_execute k a evs now (set_status WorkerStatusRunning ag, s1)) \<noteq> Some (Some ErrAssignmentStopped)"
  shows "agStatus ag' = ''IDLE'' \<and>
    (case Client_StartAssignment k (agID ag) (arTestID a) sent of
       (Inl err, s1) \<Rightarrow> r = Inl err \<and> sent' = sent @ [transition_request k (agID ag) ''start'' (arTestID a)] \<and> bs = []
     | (Inr u, s1) \<Rightarrow> \<exists>n asked res st.
         asked = sent @ [transition_request k (agID ag) ''start'' (arTestID a)] @
           replicate n (status_request k (arTestID a)) \<and>
         Worker_execute k a evs now (set_status WorkerStatusRunning ag, s1) = (Some res, bs, (st, asked)) \<and>
         (case res of
            None \<Rightarrow> sent' = asked @ [transition_request k (agID ag) ''complete'' (arTestID a)] \<and>
              r = fst (Client_CompleteAssignment k (agID ag) (arTestID a) asked)
          | Some err \<Rightarrow> r = Inl err \<and>
              sent' = asked @ (if shutdown then [] else [transition_request k (agID ag) ''fail'' (arTestID a)])))"
proof -
  let ?w = "agID ag" and ?t = "arTestID a"
  obtain r1 s1 where start: "Client_StartAssignment k ?w ?t sent = (r1, s1)" by fastforce
  then have s1: "s1 = sent @ [transition_request k ?w ''start'' ?t]"
    using transition_sends(1) [OF assms(1), of ?w ?t sent] by simp
  show ?thesis
  proof (cases r1)
    case (Inl err)
    with assms(3) start s1 show ?thesis by (auto simp: Worker_processAssignment_def idle_agent Let_def)
  next
    case (Inr u)
    note start' = start [unfolded Inr]
    let ?run = "set_status WorkerStatusRunning ag"
    obtain res pub s2 where exec: "execute_loop k ?t evs (NewCollector ?t ?w now) False [] s1 = (res, pub, s2)"
      by (metis prod_cases3)
    then have whole: "Worker_execute k a evs now (?run, s1) = (res, pub, (?run, s2))"
      by (simp add: Worker_execute_def idle_agent)
    from execute_loop_sends [OF assms(1) exec] obtain n where
      s2: "s2 = s1 @ replicate n (status_request k ?t)" by blast
    note proc = processAssignment_executed [OF start' exec, of shutdown]
    from assms(3) obtain e where res: "res = Some e" by (cases res) (auto simp: proc Let_def)
    have "agStatus ag' = ''IDLE'' \<and> bs = pub \<and>
         (case e of
            None \<Rightarrow> sent' = s2 @ [transition_request k ?w ''complete'' ?t] \<and>
              r = fst (Client_CompleteAssignment k ?w ?t s2)
          | Some err \<Rightarrow> r = Inl err \<and>
              sent' = s2 @ (if shutdown then [] else [transition_request k ?w ''fail'' ?t]))"
    proof (cases e)
      case None
      with assms(3) res transition_sends(2) [OF assms(1), of ?w ?t s2] show ?thesis
        by (auto simp: proc idle_agent Let_def split: prod.splits sum.splits)
    next
      case (Some err)
      with exec res have "\<not> errors_is err WorkerErrAssignmentStopped" by (auto dest: execute_loop_error [OF assms(2)])
      with assms(3) res Some transition_sends(3) [OF assms(1), of ?w ?t s2] show ?thesis
        by (auto simp: proc idle_agent Let_def)
    qed
    with start' whole res s1 s2 show ?thesis by (cases e) (auto intro!: exI [of _ n])
  qed
qed

text \<open>A control plane that accepts everything and, asked for the test, says it was stopped.\<close>

definition ex_stopping :: "http_request list \<Rightarrow> go_error + http_response" where
  "ex_stopping sent =
     (if hqMethod (last sent) = ''GET'' then Inr \<lparr>hrStatusCode = 200, hrStatus = [], hrBody = ''STOPPED''\<rparr>
      else Inr \<lparr>hrStatusCode = 204, hrStatus = [], hrBody = []\<rparr>)"

definition ex_assignment :: AssignmentResponse where
  "ex_assignment = \<lparr>arAssigned = True, arTestID = ''A'', arStatus = ''RESERVED'', arTargetURL = ''u'',
     arMethod = ''GET'', arDurationSec = 60, arRPS = 100, arConcurrency = 10\<rparr>"

definition ex_client :: "http_request list Client" where
  "ex_client = ex_wire ex_stopping plain_codec"

lemma ex_recording: "recording ex_client"
  by (simp add: recording_def ex_client_def ex_wire_def New_def)

text \<open>The same control plane, which says the test is running.\<close>

definition ex_going :: "http_request list Client" where
  "ex_going = ex_wire (\<lambda>sent.
     if hqMethod (last sent) = ''GET'' then Inr \<lparr>hrStatusCode = 200, hrStatus = [], hrBody = ''RUNNING''\<rparr>
     else Inr \<lparr>hrStatusCode = 204, hrStatus = [], hrBody = []\<rparr>) plain_codec"

lemmas ex_client_eval = Worker_processAssignment_def Worker_execute_def client_defs doRequest_def ex_client_def
  ex_wire_def New_def http_send_def http_defs ex_stopping_def trim_slashes_def plain_codec_def
  no_response_def check_stopped_def Let_def

text \<open>An execution that ends by itself, with one status query.\<close>

lemma ex_executed:
  "\<exists>s1. Client_StartAssignment ex_going (agID ex_agent) (arTestID ex_assignment) [] = (Inr (), s1) \<and>
     fst (Worker_execute ex_going ex_assignment [FlushTick 1, EngineDone None 2] 0 (set_status WorkerStatusRunning ex_agent, s1)) = Some None"
  "\<exists>ag' sent' bs. Worker_processAssignment ex_going ex_assignment [FlushTick 1, EngineDone None 2] 0 False
     (ex_agent, []) = (Some (Inr ()), bs, (ag', sent')) \<and> length sent' = 3"
  by (simp_all add: ex_client_eval ex_going_def ex_assignment_def ex_agent_def set_status_def split: prod.split)

theorem assignment_protocol_witness:
  "\<exists>ag' sent' bs. Worker_processAssignment ex_going ex_assignment [FlushTick 1, EngineDone None 2] 0 False
     (ex_agent, []) = (Some (Inr ()), bs, (ag', sent')) \<and> agStatus ag' = ''IDLE'' \<and>
   sent' = [transition_request ex_going ''w'' ''start'' ''A'', status_request ex_going ''A'',
     transition_request ex_going ''w'' ''complete'' ''A'']"
proof -
  obtain ag' sent' bs where run: "Worker_processAssignment ex_going ex_assignment
      [FlushTick 1, EngineDone None 2] 0 False (ex_agent, []) = (Some (Inr ()), bs, (ag', sent'))" "length sent' = 3"
    using ex_executed(2) by blast
  from ex_executed(1) obtain s1 where
    start: "Client_StartAssignment ex_going (agID ex_agent) (arTestID ex_assignment) [] = (Inr (), s1)" and
    exec: "fst (Worker_execute ex_going ex_assignment [FlushTick 1, EngineDone None 2] 0 (set_status WorkerStatusRunning ex_agent, s1)) = Some None"
    by blast
  have ids: "agID ex_agent = ''w''" "arTestID ex_assignment = ''A''" by (simp_all add: ex_agent_def ex_assignment_def)
  have "recording ex_going" by (simp add: recording_def ex_going_def ex_wire_def New_def)
  moreover have "list_all own_error [FlushTick 1, EngineDone None 2]" by (simp add: own_error_def)
  moreover have "fst (Worker_execute ex_going ex_assignment [FlushTick 1, EngineDone None 2] 0
      (set_status WorkerStatusRunning ex_agent, s)) \<noteq> Some (Some ErrAssignmentStopped)"
    if "Client_StartAssignment ex_going (agID ex_agent) (arTestID ex_assignment) [] = (Inr u, s)" for u s
    using that start exec by simp
  ultimately have "agStatus ag' = ''IDLE'' \<and> (\<exists>n. sent' =
      [transition_request ex_going ''w'' ''start'' ''A''] @ replicate n (status_request ex_going ''A'') @
      [transition_request ex_going ''w'' ''complete'' ''A''])"
    using assignment_protocol [OF _ _ run(1)] start exec by (auto simp: ids)
  then obtain n where n: "agStatus ag' = ''IDLE''" "sent' = [transition_request ex_going ''w'' ''start'' ''A''] @
      replicate n (status_request ex_going ''A'') @ [transition_request ex_going ''w'' ''complete'' ''A'']" by blast
  with run(2) have "n = 1" by simp
  with n run(1) show ?thesis by simp
qed

section \<open>A stop from the control plane\<close>

text \<open>C38: a stop is reported as a failure. \<open>worker.go\<close> says that the worker must send neither a complete nor a
  fail request for a test that was stopped from outside, but the error that marks a detected stop is not
  the one \<open>processAssignment\<close> looks for: two sentinels of the same purpose. So whenever an execution ends
  because the test was stopped and the worker is not shutting down, the worker does send the fail
  request, as its last one, and the poll returns an error instead of none.\<close>

theorem stop_reported_as_failure:
  assumes "recording k" "Client_StartAssignment k (agID ag) (arTestID a) sent = (Inr (), s1)"
    and "execute_loop k (arTestID a) evs (NewCollector (arTestID a) (agID ag) now) False [] s1 =
      (Some (Some ErrAssignmentStopped), pub, s2)"
  shows "\<exists>ag'. Worker_processAssignment k a evs now False (ag, sent) =
    (Some (Inl ErrAssignmentStopped), pub,
     (ag', s2 @ [transition_request k (agID ag) ''fail'' (arTestID a)]))"
proof -
  have "agID (set_status WorkerStatusRunning ag) = agID ag" by (simp add: set_status_def)
  with assms show ?thesis
    using transition_sends(3) [OF assms(1), of "agID ag" "arTestID a" s2]
    by (simp add: Worker_processAssignment_def Worker_execute_def Let_def)
qed

theorem stop_reported_as_failure_witness:
  "\<exists>ag' sent'. Worker_processAssignment ex_client ex_assignment [FlushTick 1, EngineDone None 2] 0 False (ex_agent, []) =
    (Some (Inl ErrAssignmentStopped), [], (ag', sent' @ [transition_request ex_client ''w'' ''fail'' ''A'']))"
proof -
  obtain s1 where start: "Client_StartAssignment ex_client (agID ex_agent) (arTestID ex_assignment) [] = (Inr (), s1)"
    by (simp add: ex_client_eval)
  obtain s2 where exec: "execute_loop ex_client (arTestID ex_assignment) [FlushTick 1, EngineDone None 2]
      (NewCollector (arTestID ex_assignment) (agID ex_agent) 0) False [] s1 = (Some (Some ErrAssignmentStopped), [], s2)"
    by (simp add: ex_client_eval ex_assignment_def Collector_Flush_def NewCollector_def offer_def offer_final_def)
  have "agID ex_agent = ''w''" "arTestID ex_assignment = ''A''" by (simp_all add: ex_agent_def ex_assignment_def)
  with stop_reported_as_failure [OF ex_recording start exec] show ?thesis by auto
qed

section \<open>Every request is published\<close>

text \<open>The results recorded before the engine ends.\<close>

fun recorded_results :: "exec_event list \<Rightarrow> Result list" where
  "recorded_results [] = []"
| "recorded_results (Recorded r # evs) = r # recorded_results evs"
| "recorded_results (FlushTick now # evs) = recorded_results evs"
| "recorded_results (ParentDone err # evs) = []"
| "recorded_results (EngineDone err now # evs) = []"

fun ends_with_engine :: "exec_event list \<Rightarrow> bool" where
  "ends_with_engine [] = False"
| "ends_with_engine (EngineDone err now # evs) = True"
| "ends_with_engine (ParentDone err # evs) = False"
| "ends_with_engine (_ # evs) = ends_with_engine evs"

definition requests_in :: "MetricBucket list \<Rightarrow> int" where
  "requests_in bs = sum_list (map mbRequests bs)"

lemma summary_requests: "int (length rs) \<le> max_int \<Longrightarrow> mbRequests (summary t w start now rs) = int (length rs)"
  by (simp add: summary_def Let_def wrap64_nonneg)

lemma execute_loop_publishes:
  assumes "ends_with_engine evs" "int (length rs + length (recorded_results evs)) \<le> max_int"
    and "execute_loop k tid evs (recorded t w start rs) stopped published s = (r, bs, s')"
  shows "r \<noteq> None \<and> requests_in bs = requests_in published + int (length rs) + int (length (recorded_results evs))"
  using assms
proof (induction evs arbitrary: rs start stopped published s)
  case (Cons e evs)
  show ?case
  proof (cases e)
    case (Recorded q)
    with Cons.prems have "execute_loop k tid evs (recorded t w start (rs @ [request_result q])) stopped published s = (r, bs, s')"
      by (simp add: recorded_snoc)
    from Cons.IH [OF _ _ this] Cons.prems Recorded show ?thesis by simp
  next
    case (FlushTick now)
    obtain stopped' s1 where check: "check_stopped k tid stopped s = (stopped', s1)" by fastforce
    let ?b = "summary t w start now rs"
    from Cons.prems FlushTick check have
      "execute_loop k tid evs (recorded t w now []) stopped' (offer ?b published) s1 = (r, bs, s')"
      by (simp add: Flush_recorded)
    from Cons.IH [OF _ _ this] Cons.prems FlushTick
    have IH: "r \<noteq> None \<and> requests_in bs = requests_in (offer ?b published) + int (length (recorded_results evs))"
      by simp
    have "int (length rs) \<le> max_int" using Cons.prems(2) by simp
    from summary_requests [OF this, of t w start now]
    have "requests_in (offer ?b published) = requests_in published + int (length rs)"
      by (simp add: offer_def requests_in_def)
    with IH FlushTick show ?thesis by simp
  next
    case (ParentDone err)
    with Cons.prems show ?thesis by simp
  next
    case (EngineDone err now)
    let ?b = "summary t w start now rs"
    have "int (length rs) \<le> max_int" using Cons.prems(2) by simp
    from summary_requests [OF this, of t w start now]
    have "requests_in (offer_final ?b published) = requests_in published + int (length rs)"
      by (simp add: offer_final_def requests_in_def)
    moreover from Cons.prems EngineDone have "r \<noteq> None" "bs = offer_final ?b published"
      by (auto simp: Flush_recorded)
    ultimately show ?thesis using EngineDone by simp
  qed
qed simp

lemma published_requests:
  assumes "0 < ecConcurrency cfg" "run_events es (new_run cfg) = Some run" "rnLoop run = Returned"
    and "recorded_results evs = map snd (rnRecorded run)" "ends_with_engine evs"
    and "int (length (rnGoroutines run)) \<le> max_int"
    and "Worker_execute k a evs now (ag, s) = (r, bs, st')"
  shows "r \<noteq> None \<and> sum_list (map mbRequests bs) = int (length (rnGoroutines run))"
proof -
  have ok: "run_ok run" using assms(1,2) by (rule run_ok_events)
  have "set (map fst (rnRecorded run)) = {..<length (rnGoroutines run)}"
  proof -
    have "\<forall>p\<in>set (rnGoroutines run). p = Gone" using run_okD(3,6) [OF ok] assms(3) by (simp add: counting_zero)
    then show ?thesis unfolding run_okD(5) [OF ok] executed_def using nth_mem by fastforce
  qed
  then have "length (rnRecorded run) = length (rnGoroutines run)"
    using distinct_card [OF run_okD(4) [OF ok]] by simp
  then have len: "length (recorded_results evs) = length (rnGoroutines run)" by (simp add: assms(4))
  obtain pub s' where exec: "execute_loop k (arTestID a) evs (NewCollector (arTestID a) (agID ag) now) False [] s = (r, pub, s')"
      "bs = pub" using assms(7) by (auto simp: Worker_execute_def split: prod.splits)
  have "int (length ([] :: RequestResult list) + length (recorded_results evs)) \<le> max_int"
    using assms(6) len by simp
  from execute_loop_publishes [OF assms(5) this exec(1) [folded recorded_Nil]] show ?thesis
    using exec(2) len by (simp add: requests_in_def)
qed

text \<open>C22: no request goes unreported. Let the scheduler run in any interleaving until it has returned, and
  let the worker record its results and flush at any moments until it sees the engine end: the buckets
  it publishes then hold, together, exactly as many requests as the scheduler started.\<close>

theorem every_request_published:
  assumes "0 < ecConcurrency cfg" "run_events es (new_run cfg) = Some run" "rnLoop run = Returned"
    and "recorded_results evs = map snd (rnRecorded run)" "ends_with_engine evs"
    and "int (length (rnGoroutines run)) \<le> max_int"
    and "Worker_execute k a evs now (ag, s) = (r, bs, st')"
  shows "r \<noteq> None \<and> sum_list (map mbRequests bs) = int (length (rnGoroutines run))"
  using assms by (rule published_requests)

text \<open>Three ticks of which one finds the only slot taken; a flush between the two results.\<close>

theorem every_request_published_witness:
  "\<exists>run r bs st'. run_events ex_events (new_run ex_config) = Some run \<and>
    Worker_execute ex_client ex_assignment [Recorded ex_ok, FlushTick 1, Recorded ex_ok, EngineDone None 2] 0
      (ex_agent, []) = (r, bs, st') \<and> sum_list (map mbRequests bs) = int (length (rnGoroutines run)) \<and>
    length (rnGoroutines run) = 2"
proof -
  let ?evs = "[Recorded ex_ok, FlushTick 1, Recorded ex_ok, EngineDone None 2]"
  obtain run where run: "run_events ex_events (new_run ex_config) = Some run" "rnLoop run = Returned"
    "map snd (rnRecorded run) = [ex_ok, ex_ok]" "length (rnGoroutines run) = 2"
    by (simp add: ex_events_def ex_config_def new_run_def at_phase_def numeral_2_eq_2)
  obtain r bs st' where exec: "Worker_execute ex_client ex_assignment ?evs 0 (ex_agent, []) = (r, bs, st')"
    by (metis prod_cases3)
  have "0 < ecConcurrency ex_config" "recorded_results ?evs = map snd (rnRecorded run)"
    "ends_with_engine ?evs" "int (length (rnGoroutines run)) \<le> max_int"
    using run by (simp_all add: ex_config_def max_int_def)
  from every_request_published [OF this(1) run(1,2) this(2-4) exec] run(1,4) exec show ?thesis by blast
qed

end
