(* ===== verification/EndToEnd.thy ===== *)
theory EndToEnd
  imports Remote AgentRuns Guarantees
begin

text \<open>
  The worker process against the control plane: the client of the worker connected to the server, with
  the tables behind it. A completed assignment of the worker is a completed assignment in the tables.
\<close>

lemma quiet_after:
  assumes "frame m" "quiet w" "m w = (r, w')"
  shows "quiet w'"
  using frameD(1) [OF assms(1,3)] assms(2) by auto

lemma same_callD:
  assumes "same_call f m m'" "m s = (Inr y, s')"
  obtains x where "m' s = (Inr x, s')" "y = f x"
proof -
  have same: "snd (m s) = snd (m' s)"
    and ok: "\<And>x. fst (m' s) = Inr x \<Longrightarrow> fst (m s) = Inr (f x)"
    and bad: "\<And>err. fst (m' s) = Inl err \<Longrightarrow> \<exists>err'. fst (m s) = Inl err'"
    using assms(1) unfolding same_call_def by blast+
  obtain r t where local: "m' s = (r, t)" by fastforce
  show ?thesis
  proof (cases r)
    case (Inl err)
    with bad local assms(2) show ?thesis by auto
  next
    case (Inr x)
    with ok same local assms(2) that show ?thesis by auto
  qed
qed

text \<open>Asking for the status of the test does not change a quiet control plane.\<close>

lemma status_query_quiet:
  assumes "agreed_apis x c" "plain_base base" "id_ok tid" "quiet w"
  shows "snd (Client_GetTest (connected x base c) tid w) = w"
proof -
  have "snd (Client_GetTest (connected x base c) tid w) = snd (TestService_GetTestByID tid w)"
    using remote_query(2) [OF assms(1-3)] unfolding same_call_def by blast
  also have "\<dots> = w" using assms(4)
    by (simp add: TestService_GetTestByID_def GetTestByID_quiet split: option.split)
  finally show ?thesis .
qed

lemma execute_quiet:
  assumes "agreed_apis x c" "plain_base base" "id_ok tid" "quiet w"
    and "execute_loop (connected x base c) tid evs co stopped published w = (r, bs, w')"
  shows "w' = w"
  using assms(5)
proof (induction evs arbitrary: co stopped published)
  case (Cons e evs)
  show ?case
  proof (cases e)
    case (FlushTick now)
    obtain stopped' w1 where check: "check_stopped (connected x base c) tid stopped w = (stopped', w1)" by fastforce
    have "w1 = w"
      using check status_query_quiet [OF assms(1-4)]
      by (auto simp: check_stopped_def split: if_splits prod.splits sum.splits)
    with Cons.prems FlushTick check Cons.IH show ?thesis by (auto split: prod.splits)
  qed (use Cons in \<open>auto split: prod.splits\<close>)
qed simp

text \<open>The tables before and after a started and completed assignment.\<close>

definition done_in_tables :: "string \<Rightarrow> string \<Rightarrow> db \<Rightarrow> db \<Rightarrow> bool" where
  "done_in_tables tid wid d d' \<longleftrightarrow>
     (\<exists>a\<in>set (dAssignments d). aTestID a = tid \<and> aWorkerID a = wid \<and> aStatus a = AssignmentStatusReserved) \<and>
     (\<exists>a\<in>set (dAssignments d'). aTestID a = tid \<and> aWorkerID a = wid \<and> aStatus a = AssignmentStatusCompleted) \<and>
     (\<forall>a\<in>set (dAssignments d'). aTestID a = tid \<longrightarrow> aWorkerID a = wid \<longrightarrow> \<not> active_assignment a) \<and>
     (\<forall>v\<in>set (dWorkers d'). wID v = wid \<longrightarrow> wStatus v \<noteq> WorkerStatusReserved \<and> wStatus v \<noteq> WorkerStatusRunning)"

lemma started_then_completed:
  assumes "mark_running_post tid wid d d1 u" "mark_completed_post tid wid d1 d2 u'"
  shows "done_in_tables tid wid d d2"
proof -
  let ?R = "\<lambda>a. aTestID a = tid \<and> aWorkerID a = wid \<and> aStatus a = AssignmentStatusReserved"
  let ?P = "\<lambda>a. aTestID a = tid \<and> aWorkerID a = wid \<and> aStatus a = AssignmentStatusRunning"
  from assms(1) have r: "\<exists>a\<in>set (dAssignments d). ?R a"
    "dAssignments d1 = update_where ?R (assignment_started (dNow d)) (dAssignments d)"
    "dWorkers d1 = update_where (\<lambda>w. wID w = wid \<and> wStatus w = WorkerStatusReserved)
      (worker_to WorkerStatusRunning (dNow d)) (dWorkers d)"
    by (simp_all add: mark_running_post_def Let_def)
  from assms(2) have c: "\<exists>a\<in>set (dAssignments d1). ?P a"
    "dAssignments d2 = update_where ?P (assignment_done AssignmentStatusCompleted (dNow d1)) (dAssignments d1)"
    "dWorkers d2 = update_where (\<lambda>w. wID w = wid \<and> wStatus w = WorkerStatusRunning)
      (worker_to WorkerStatusIdle (dNow d1)) (dWorkers d1)"
    by (simp_all add: mark_completed_post_def Let_def)
  have no_reserved: "\<not> ?R a" if "a \<in> set (dAssignments d1)" for a
    using that unfolding r(2) by (cases rule: in_update_whereE) simp_all
  have "\<not> active_assignment a" if "a \<in> set (dAssignments d2)" "aTestID a = tid" "aWorkerID a = wid" for a
    using that(1) unfolding c(2)
  proof (cases rule: in_update_whereE)
    case (1 b)
    then show ?thesis by (simp add: active_assignment_def)
  next
    case 2
    with no_reserved [OF 2(1)] that(2,3) show ?thesis by (simp add: active_assignment_def)
  qed
  moreover have "\<exists>a\<in>set (dAssignments d2). aTestID a = tid \<and> aWorkerID a = wid \<and> aStatus a = AssignmentStatusCompleted"
  proof -
    from c(1) obtain a where "a \<in> set (dAssignments d1)" "?P a" by blast
    then have "assignment_done AssignmentStatusCompleted (dNow d1) a \<in> set (dAssignments d2)"
      unfolding c(2) by (rule in_update_where_hit)
    with \<open>?P a\<close> show ?thesis by (intro bexI [of _ "assignment_done AssignmentStatusCompleted (dNow d1) a"]) simp_all
  qed
  moreover have "wStatus v \<noteq> WorkerStatusReserved \<and> wStatus v \<noteq> WorkerStatusRunning"
    if "v \<in> set (dWorkers d2)" "wID v = wid" for v
    using that(1) unfolding c(3)
  proof (cases rule: in_update_whereE)
    case (1 u)
    then show ?thesis by simp
  next
    case 2
    then have "v \<in> set (dWorkers d1)" "wStatus v \<noteq> WorkerStatusRunning" using that(2) by simp_all
    moreover from this(1) have "wStatus v \<noteq> WorkerStatusReserved"
      unfolding r(3) using that(2) by (cases rule: in_update_whereE) simp_all
    ultimately show ?thesis by simp
  qed
  ultimately show ?thesis using r(1) unfolding done_in_tables_def by blast
qed

lemma frame_services:
  "frame (WorkerService_StartAssignment tid wid)" "frame (WorkerService_CompleteAssignment tid wid)"
  unfolding WorkerService_StartAssignment_def WorkerService_CompleteAssignment_def
    WorkerRepo_MarkAssignmentRunning_def WorkerRepo_MarkAssignmentCompleted_def
  by (intro frame_intros)+

lemma wrapM_InrD: "wrapM msg m w = (Inr y, w') \<Longrightarrow> m w = (Inr y, w')"
  by (auto simp: wrapM_def split: prod.splits sum.splits)

lemma start_success:
  assumes "quiet w" "WorkerService_StartAssignment tid wid w = (Inr u, w')"
  shows "mark_running_post tid wid (wdb w) (wdb w') u"
  using running_tx.on_success [OF wrapM_InrD [OF assms(2) [unfolded WorkerService_StartAssignment_def],
      unfolded WorkerRepo_MarkAssignmentRunning_def]] assms(1) by simp

lemma complete_success:
  assumes "quiet w" "WorkerService_CompleteAssignment tid wid w = (Inr u, w')"
  shows "mark_completed_post tid wid (wdb w) (wdb w') u"
  using completed_tx.on_success [OF wrapM_InrD [OF assms(2) [unfolded WorkerService_CompleteAssignment_def],
      unfolded WorkerRepo_MarkAssignmentCompleted_def]] assms(1) by simp

text \<open>C4: an assignment from end to end. When a worker process, connected over HTTP to a control plane
  nobody else is using, processes an assignment without an error, the assignment was RESERVED for it in
  the tables and is COMPLETED now, the worker's row is neither RESERVED nor RUNNING, and the process
  itself is IDLE.\<close>

theorem assignment_end_to_end:
  assumes "agreed_apis x c" "plain_base base" "id_ok (agID ag)" "id_ok (arTestID a)" "quiet w"
    and "list_all own_error evs"
    and "Worker_processAssignment (connected x base c) a evs now shutdown (ag, w) = (Some (Inr ()), bs, (ag', w'))"
  shows "done_in_tables (arTestID a) (agID ag) (wdb w) (wdb w') \<and> agStatus ag' = ''IDLE''"
proof -
  let ?k = "connected x base c" and ?w = "agID ag" and ?t = "arTestID a"
  obtain r1 w1 where start: "Client_StartAssignment ?k ?w ?t w = (r1, w1)" by fastforce
  with assms(7) obtain u where r1: "r1 = Inr u"
    by (cases r1) (auto simp: Worker_processAssignment_def Let_def idle_agent)
  from same_callD [OF remote_transition(1) [OF assms(1-3)] start [unfolded r1]]
  have local: "WorkerService_StartAssignment ?t ?w w = (Inr u, w1)" by metis
  have quiet1: "quiet w1" using frame_services(1) assms(5) local by (rule quiet_after)
  obtain res pub w2 where exec: "execute_loop ?k ?t evs (NewCollector ?t ?w now) False [] w1 = (res, pub, w2)"
    by (metis prod_cases3)
  have w2: "w2 = w1" using assms(1,2,4) quiet1 exec by (rule execute_quiet)
  from processAssignment_success [OF assms(6) start [unfolded r1] exec assms(7)] w2 obtain v where
    compl: "Client_CompleteAssignment ?k ?w ?t w1 = (Inr v, w')" and idle: "agStatus ag' = ''IDLE''" by blast
  from same_callD [OF remote_transition(2) [OF assms(1-3)] compl]
  have "WorkerService_CompleteAssignment ?t ?w w1 = (Inr v, w')" by metis
  from complete_success [OF quiet1 this] start_success [OF assms(5) local] idle show ?thesis
    using started_then_completed by blast
qed

lemma same_call_ok: "same_call f m m' \<Longrightarrow> m' s = (Inr x, s') \<Longrightarrow> m s = (Inr (f x), s')"
  unfolding same_call_def by (metis fst_conv prod.collapse snd_conv)

lemma ex_local_calls:
  obtains w1 w2 where "WorkerService_StartAssignment ''A'' ''w'' (ex_world ex_started) = (Inr (), w1)"
    "WorkerService_CompleteAssignment ''A'' ''w'' w1 = (Inr (), w2)"
  by (simp add: ex_eval WorkerService_StartAssignment_def WorkerRepo_MarkAssignmentRunning_def
      mark_running_body_def sql_assignment_running_def sql_worker_running_def ex_db_defs
      set_worker_status_def set_assignment_def WorkerService_CompleteAssignment_def
      WorkerRepo_MarkAssignmentCompleted_def mark_completed_body_def sql_lock_test_def
      sql_assignment_completed_def sql_worker_idle_def sql_has_incomplete_def)

theorem assignment_end_to_end_witness:
  "\<exists>ag' w' bs. Worker_processAssignment (connected ex_api ''http://c'' ex_codec) ex_assignment
      [EngineDone None 2] 0 False (ex_agent, ex_world ex_started) = (Some (Inr ()), bs, (ag', w')) \<and>
    done_in_tables ''A'' ''w'' ex_started (wdb w') \<and> agStatus ag' = ''IDLE''"
proof -
  let ?k = "connected ex_api ''http://c'' ex_codec"
  have ids: "id_ok ''w''" "id_ok ''A''" "plain_base ''http://c''" by code_simp+
  have names: "agID ex_agent = ''w''" "arTestID ex_assignment = ''A''"
    by (simp_all add: ex_agent_def ex_assignment_def)
  obtain w1 w2 where "WorkerService_StartAssignment ''A'' ''w'' (ex_world ex_started) = (Inr (), w1)"
    "WorkerService_CompleteAssignment ''A'' ''w'' w1 = (Inr (), w2)" by (rule ex_local_calls)
  then have calls: "Client_StartAssignment ?k ''w'' ''A'' (ex_world ex_started) = (Inr (), w1)"
    "Client_CompleteAssignment ?k ''w'' ''A'' w1 = (Inr (), w2)"
    using same_call_ok [OF remote_transition(1) [OF ex_agreed ids(3,1)]]
      same_call_ok [OF remote_transition(2) [OF ex_agreed ids(3,1)]] by blast+
  obtain b col where flush: "Collector_Flush 2 (NewCollector ''A'' ''w'' 0) = (b, col)" by fastforce
  obtain bs ag' w' where run: "Worker_processAssignment ?k ex_assignment [EngineDone None 2] 0 False
      (ex_agent, ex_world ex_started) = (Some (Inr ()), bs, (ag', w'))"
    using calls flush by (simp add: Worker_processAssignment_def Worker_execute_def set_status_def names Let_def)
  have "quiet (ex_world ex_started)" "wdb (ex_world ex_started) = ex_started" by simp_all
  moreover have "list_all own_error [EngineDone None 2]" by (simp add: own_error_def)
  ultimately show ?thesis
    using assignment_end_to_end [OF ex_agreed ids(3), unfolded names, OF _ _ _ _ run] ids names run by auto
qed

end
