(* ===== verification/Pipeline.thy ===== *)
theory Pipeline
  imports AgentRuns Victoria Remote "HOL-Library.Multiset"
begin

text \<open>
  Telemetry from end to end: the scheduler of a worker, its collector and publisher, the aggregator and
  the import into the metrics store. What NATS delivers is any part of the published buckets, in any order
  and at any time; what it does not deliver and what the store refuses are terms of the account.
\<close>

section \<open>What arrives at the metrics store\<close>

text \<open>The request counts of a test in the bodies of the import requests.\<close>

definition request_counts :: "string \<Rightarrow> string \<Rightarrow> int list" where
  "request_counts t body =
     map (\<lambda>sm. atoi (smValue sm))
       (filter (\<lambda>sm. smMetric sm = ''vulcan_requests_total'' \<and> smTest sm = t)
         (map the (filter (\<lambda>x. x \<noteq> None) (read_samples body))))"

text \<open>The store has taken a sample for sure only when it acknowledges the request, with a status below 300.\<close>

definition acknowledged :: "server \<Rightarrow> http_request list \<Rightarrow> bool" where
  "acknowledged srv sent \<longleftrightarrow> (case srv sent of Inl err \<Rightarrow> False | Inr resp \<Rightarrow> hrStatusCode resp < 300)"

text \<open>The counts in the requests that the store acknowledges, or in those it does not.\<close>

fun counted_requests :: "bool \<Rightarrow> server \<Rightarrow> string \<Rightarrow> http_request list \<Rightarrow> http_request list \<Rightarrow> int" where
  "counted_requests ack srv t sent [] = 0"
| "counted_requests ack srv t sent (req # reqs) =
     (if acknowledged srv (sent @ [req]) = ack then sum_list (request_counts t (hqBody req)) else 0) +
     counted_requests ack srv t (sent @ [req]) reqs"

abbreviation imported_requests :: "server \<Rightarrow> string \<Rightarrow> http_request list \<Rightarrow> http_request list \<Rightarrow> int" where
  "imported_requests \<equiv> counted_requests True"

abbreviation refused_requests :: "server \<Rightarrow> string \<Rightarrow> http_request list \<Rightarrow> http_request list \<Rightarrow> int" where
  "refused_requests \<equiv> counted_requests False"

lemma offered_requests:
  "imported_requests srv t sent reqs + refused_requests srv t sent reqs =
    sum_list (map (\<lambda>req. sum_list (request_counts t (hqBody req))) reqs)"
  by (induction reqs arbitrary: sent) (auto simp: algebra_simps)

lemma nothing_refused: "(\<And>sent. acknowledged srv sent) \<Longrightarrow> refused_requests srv t sent reqs = 0"
  by (induction reqs arbitrary: sent) auto

lemma request_counts_payload:
  assumes "plain_id (snTestID s)"
  shows "request_counts t (snapshot_payload ts s) = (if snTestID s = t then [snRequests s] else [])"
  by (simp add: request_counts_def payload_read [OF assms] metric_names_def snapshot_values_def atoi_itoa)

lemma offered_snapshots:
  assumes "list_all (\<lambda>s. plain_id (snTestID s)) (map snd stamps)"
  shows "sum_list (map (\<lambda>req. sum_list (request_counts t (hqBody req))) (map (\<lambda>(ts, s). \<lparr>hqMethod = m, hqURL = u,
      hqContentType = ct, hqBody = snapshot_payload ts s\<rparr>) stamps)) =
    sum_list (map snRequests (filter (\<lambda>s. snTestID s = t) (map snd stamps)))"
  using assms by (induction stamps) (auto simp: request_counts_payload)

text \<open>The buckets handed to the publisher that the aggregator has not merged: their publication failed, they
  were lost on the way, or they are still under way.\<close>

definition undelivered :: "MetricBucket list \<Rightarrow> MetricBucket list \<Rightarrow> MetricBucket multiset" where
  "undelivered published merged = mset published - mset merged"

lemma delivered_sum:
  fixes f :: "MetricBucket \<Rightarrow> int"
  assumes "mset merged \<subseteq># mset published"
  shows "sum_list (map f published) = sum_list (map f merged) + sum_mset (image_mset f (undelivered published merged))"
proof -
  have "mset published = mset merged + undelivered published merged"
    using assms by (simp add: undelivered_def)
  then have "image_mset f (mset published) = image_mset f (mset merged) + image_mset f (undelivered published merged)"
    by simp
  then have "sum_mset (mset (map f published)) =
      sum_mset (mset (map f merged)) + sum_mset (image_mset f (undelivered published merged))"
    by (simp only: mset_map sum_mset.union)
  then show ?thesis by (simp only: sum_mset_sum_list)
qed


section \<open>An example\<close>

text \<open>Two requests, in two buckets; a report after each.\<close>

definition ex_actions :: "MetricBucket \<Rightarrow> MetricBucket \<Rightarrow> action list" where
  "ex_actions b1 b2 = [Receive b1, Find, Create, Merge, Lock [''A''], Sweep, Unlock,
     Receive b2, Find, Merge, Lock [''A''], Sweep, Unlock]"

definition ex_accepting :: server where
  "ex_accepting sent = Inr \<lparr>hrStatusCode = 204, hrStatus = [], hrBody = []\<rparr>"


end
