(* ===== verification/Reporting.thy ===== *)
theory Reporting
  imports Victoria
begin

text \<open>
  \<open>internal/aggregator/reporter.go\<close>: the report loop. A report is the sequence of critical sections of
  \<open>Aggregator\<close> followed by the delivery of its snapshots (\<open>Victoria\<close>); between two ticks the subscription
  callback runs. What a whole report does is stated of the windows that the store finds.
\<close>

section \<open>A report\<close>

text \<open>\<open>order\<close> is the order in which the map iteration visits the tests, \<open>clock\<close> the times the payloads read.\<close>

definition report_actions :: "string list \<Rightarrow> action list" where
  "report_actions order = Lock order # replicate (length order) Sweep @ [Unlock]"

definition Aggregator_report ::
    "(string \<Rightarrow> go_error option) \<Rightarrow> server \<Rightarrow> Writer \<Rightarrow> string list \<Rightarrow> (nat \<Rightarrow> int) \<Rightarrow>
     aggregator \<times> http_request list \<Rightarrow> (aggregator \<times> http_request list) option" where
  "Aggregator_report url_ok srv w order clock = (\<lambda>(s, sent).
     case agg_run (report_actions order) s of
       None \<Rightarrow> None
     | Some s' \<Rightarrow>
         (let snapshots = drop (length (agReports s)) (agReports s')
          in Some (s', deliver_snapshots url_ok srv w (stamped clock snapshots) sent)))"

text \<open>What wakes the loop, and the callbacks that run while it waits.\<close>

datatype report_event = Done | TickerFired "string list" "nat \<Rightarrow> int" | Callback "action list"

fun reportLoop ::
    "(string \<Rightarrow> go_error option) \<Rightarrow> server \<Rightarrow> Writer \<Rightarrow> report_event list \<Rightarrow>
     aggregator \<times> http_request list \<Rightarrow> (aggregator \<times> http_request list) option" where
  "reportLoop url_ok srv w [] st = Some st"
| "reportLoop url_ok srv w (Done # evs) st = Some st"
| "reportLoop url_ok srv w (TickerFired order clock # evs) st =
     (case Aggregator_report url_ok srv w order clock st of
        None \<Rightarrow> None | Some st' \<Rightarrow> reportLoop url_ok srv w evs st')"
| "reportLoop url_ok srv w (Callback as # evs) (s, sent) =
     (case agg_run as s of None \<Rightarrow> None | Some s' \<Rightarrow> reportLoop url_ok srv w evs (s', sent))"

section \<open>The windows the store finds\<close>

definition window_of :: "aggregator \<Rightarrow> string \<Rightarrow> GlobalWindow option" where
  "window_of s t = map_option (agHeap s) (map_of (agTests s) t)"

definition busy :: "GlobalWindow \<Rightarrow> bool" where
  "busy w \<longleftrightarrow> gwRequests w \<noteq> 0"

text \<open>What a report makes of a window: it resets a busy one and forgets an idle one.\<close>

definition swept :: "GlobalWindow option \<Rightarrow> GlobalWindow option" where
  "swept x = (case x of None \<Rightarrow> None | Some w \<Rightarrow> if busy w then Some (reset_window w) else None)"

definition busy_windows :: "aggregator \<Rightarrow> string list \<Rightarrow> GlobalWindow list" where
  "busy_windows s order = filter busy (map (\<lambda>t. the (window_of s t)) order)"

lemma swept_twice: "swept (swept x) = None"
  by (cases x) (simp_all add: swept_def busy_def reset_window_def)

lemma report_window_swept:
  assumes "agg_ok s" "agReporter s = Sweeping (t # rest) snaps"
  shows "window_of (report_window t rest snaps s) u = (if u = t then swept (window_of s t) else window_of s u)"
    (is ?window)
    and "agReporter (report_window t rest snaps s) =
      Sweeping rest (snaps @ map take_snapshot (busy_windows s [t]))" (is ?reporter)
proof -
  from assms have "?window \<and> ?reporter"
  proof (cases rule: report_window_cases)
    case (empty r)
    then show ?thesis by (simp add: window_of_def swept_def busy_def busy_windows_def delete_conv)
  next
    case (full r)
    have "r' \<noteq> r" if "map_of (agTests s) u = Some r'" "u \<noteq> t" for r'
      using that agg_ok_find [OF assms(1) that(1)] agg_ok_find [OF assms(1) full(1)] by auto
    with full show ?thesis
      by (cases "map_of (agTests s) u") (auto simp: window_of_def swept_def busy_def busy_windows_def)
  qed
  then show ?window ?reporter by blast+
qed

lemma report_window_frame [simp]:
  "agReports (report_window t rest snaps s) = agReports s" "agMerged (report_window t rest snaps s) = agMerged s"
  "agSubscriber (report_window t rest snaps s) = agSubscriber s"
  by (simp_all add: report_window_def Let_def split: option.split)

lemma sweeps:
  assumes "agg_ok s" "agReporter s = Sweeping order snaps"
  shows "\<exists>s'. agg_run (replicate (length order) Sweep) s = Some s' \<and>
    agReporter s' = Sweeping [] (snaps @ map take_snapshot (busy_windows s order)) \<and>
    (\<forall>u. window_of s' u = (if u \<in> set order then swept (window_of s u) else window_of s u)) \<and>
    agReports s' = agReports s \<and> agMerged s' = agMerged s \<and> agSubscriber s' = agSubscriber s \<and> agg_ok s'"
  using assms
proof (induction order arbitrary: s snaps)
  case Nil
  then show ?case by (simp add: busy_windows_def)
next
  case (Cons t rest)
  let ?s = "report_window t rest snaps s"
  note w = report_window_swept [OF Cons.prems]
  have step: "agg_step Sweep s = Some ?s" using Cons.prems(2) by simp
  have t: "t \<notin> set rest" using agg_okD(4) [OF Cons.prems] by simp
  then have "map (\<lambda>u. the (window_of ?s u)) rest = map (\<lambda>u. the (window_of s u)) rest"
    by (intro map_cong) (auto simp: w(1))
  then have rest: "busy_windows ?s rest = busy_windows s rest" by (simp only: busy_windows_def)
  obtain s' where s': "agg_run (replicate (length rest) Sweep) ?s = Some s'"
      "agReporter s' = Sweeping [] ((snaps @ map take_snapshot (busy_windows s [t])) @
         map take_snapshot (busy_windows ?s rest))"
      "\<forall>u. window_of s' u = (if u \<in> set rest then swept (window_of ?s u) else window_of ?s u)"
      "agReports s' = agReports ?s" "agMerged s' = agMerged ?s" "agSubscriber s' = agSubscriber ?s" "agg_ok s'"
    using Cons.IH [OF agg_ok_step [OF Cons.prems(1) step] w(2)] by blast
  moreover have "busy_windows s (t # rest) = busy_windows s [t] @ busy_windows s rest"
    by (simp add: busy_windows_def)
  moreover have "agg_run (replicate (length (t # rest)) Sweep) s = Some s'"
    using step s'(1) by simp
  moreover have "window_of s' u = (if u \<in> set (t # rest) then swept (window_of s u) else window_of s u)" for u
    using s'(3) t w(1) by simp
  ultimately show ?case using rest by (intro exI [of _ s']) simp
qed

text \<open>A whole report, from a state in which none is under way.\<close>

lemma report_effect:
  assumes "agg_ok s" "agReporter s = Resting" "distinct order" "set order = fst ` set (agTests s)"
  obtains s' where "agg_run (report_actions order) s = Some s'" "agg_ok s'" "agReporter s' = Resting"
    and "agReports s' = agReports s @ map take_snapshot (busy_windows s order)"
    and "\<And>u. window_of s' u = swept (window_of s u)"
    and "agMerged s' = agMerged s" "agSubscriber s' = agSubscriber s"
proof -
  let ?s = "s\<lparr>agReporter := Sweeping order []\<rparr>"
  have lock: "agg_step (Lock order) s = Some ?s" using assms(2-4) by simp
  have same: "window_of ?s = window_of s" "busy_windows ?s = busy_windows s"
    by (simp_all add: window_of_def busy_windows_def fun_eq_iff)
  obtain s1 where s1: "agg_run (replicate (length order) Sweep) ?s = Some s1"
      "agReporter s1 = Sweeping [] (map take_snapshot (busy_windows s order))"
      "\<And>u. window_of s1 u = (if u \<in> set order then swept (window_of s u) else window_of s u)"
      "agReports s1 = agReports s" "agMerged s1 = agMerged s" "agSubscriber s1 = agSubscriber s" "agg_ok s1"
    using sweeps [OF agg_ok_step [OF assms(1) lock], of order "[]"] by (auto simp: same)
  let ?t = "s1\<lparr>agReporter := Resting, agReports := agReports s1 @ map take_snapshot (busy_windows s order)\<rparr>"
  have unlock: "agg_step Unlock s1 = Some ?t" using s1(2) by simp
  have "window_of s1 u = swept (window_of s u)" for u
  proof (cases "u \<in> set order")
    case False
    then have "window_of s u = None"
      using assms(4) by (simp add: window_of_def map_of_eq_None_iff)
    with False s1(3) show ?thesis by (simp add: swept_def)
  qed (simp add: s1(3))
  moreover have "window_of ?t = window_of s1" by (simp add: window_of_def fun_eq_iff)
  ultimately show ?thesis
    using that [of ?t] agg_ok_step [OF s1(7) unlock] lock unlock s1
    by (simp add: report_actions_def agg_run_append)
qed

section \<open>Quiet tests are forgotten\<close>

lemma tests_of_windows: "fst ` set (agTests s) = {t. window_of s t \<noteq> None}"
  by (auto simp: window_of_def map_of_eq_None_iff)

lemma no_windows: "(\<And>t. window_of s t = None) \<Longrightarrow> agTests s = []"
  using tests_of_windows [of s] by simp

text \<open>A tick of the loop: the report and its delivery.\<close>

lemma report_tick:
  assumes "agg_ok s" "agReporter s = Resting" "distinct order" "set order = fst ` set (agTests s)"
  obtains s' where
      "Aggregator_report url_ok srv w order clock (s, sent) = Some (s',
         deliver_snapshots url_ok srv w (stamped clock (map take_snapshot (busy_windows s order))) sent)"
      "agg_ok s'" "agReporter s' = Resting" "\<And>u. window_of s' u = swept (window_of s u)"
      "agReports s' = agReports s @ map take_snapshot (busy_windows s order)"
proof -
  from assms obtain s' where "agg_run (report_actions order) s = Some s'" "agg_ok s'" "agReporter s' = Resting"
      "agReports s' = agReports s @ map take_snapshot (busy_windows s order)"
      "\<And>u. window_of s' u = swept (window_of s u)" by (rule report_effect) blast
  then show ?thesis by (intro that [of s']) (simp_all add: Aggregator_report_def)
qed

text \<open>C28: the report loop keeps only tests that send. The first tick resets the windows of the tests that
  sent something and posts one payload for each, in the order in which it visits them, whatever the
  metrics store answers; if nothing is merged before the second tick, that one posts nothing more and
  the store is empty.\<close>

theorem quiet_tests_forgotten:
  assumes "agg_ok s" "agReporter s = Resting" "distinct order" "set order = fst ` set (agTests s)"
    and "distinct order2" "set order2 = {t \<in> set order. busy (the (window_of s t))}"
    and "url_ok (vwURL w @ ''/api/v1/import/prometheus'') = None"
  shows "\<exists>s'. reportLoop url_ok srv w [TickerFired order clock, TickerFired order2 clock2] (s, sent) =
      Some (s', sent @ map (\<lambda>(ts, g). \<lparr>hqMethod = ''POST'', hqURL = vwURL w @ ''/api/v1/import/prometheus'',
        hqContentType = Some ''text/plain'', hqBody = snapshot_payload ts (take_snapshot g)\<rparr>)
          (zip (map clock [0..<length (busy_windows s order)]) (busy_windows s order))) \<and>
    agTests s' = [] \<and> agReporter s' = Resting \<and>
    agReports s' = agReports s @ map take_snapshot (busy_windows s order)"
proof -
  obtain s1 where s1: "Aggregator_report url_ok srv w order clock (s, sent) = Some (s1,
        deliver_snapshots url_ok srv w (stamped clock (map take_snapshot (busy_windows s order))) sent)"
      "agg_ok s1" "agReporter s1 = Resting" "\<And>u. window_of s1 u = swept (window_of s u)"
      "agReports s1 = agReports s @ map take_snapshot (busy_windows s order)"
    using report_tick [OF assms(1-4)] by metis
  let ?sent = "deliver_snapshots url_ok srv w (stamped clock (map take_snapshot (busy_windows s order))) sent"
  have "set order2 = fst ` set (agTests s1)"
    unfolding assms(6) tests_of_windows s1(4) assms(4) by (auto simp: swept_def split: option.splits if_splits)
  then obtain s2 where s2: "Aggregator_report url_ok srv w order2 clock2 (s1, ?sent) = Some (s2,
        deliver_snapshots url_ok srv w (stamped clock2 (map take_snapshot (busy_windows s1 order2))) ?sent)"
      "agReporter s2 = Resting" "\<And>u. window_of s2 u = swept (window_of s1 u)"
      "agReports s2 = agReports s1 @ map take_snapshot (busy_windows s1 order2)"
    using report_tick [OF s1(2,3) assms(5)] by metis
  have "\<not> busy (the (window_of s1 t))" if "t \<in> set order2" for t
    using that unfolding assms(6) s1(4) assms(4) tests_of_windows
    by (auto simp: swept_def busy_def reset_window_def)
  then have "busy_windows s1 order2 = []" by (simp add: busy_windows_def filter_empty_conv)
  moreover have "agTests s2 = []" by (rule no_windows) (simp add: s2(3) s1(4) swept_twice)
  ultimately show ?thesis
    using s1 s2 by (simp add: deliver_each_once [of url_ok w, OF assms(7)] stamped_map case_prod_unfold comp_def)
qed

definition ex_store :: aggregator where
  "ex_store = NewStore\<lparr>agTests := [(''A'', 0), (''B'', 1)], agNext := 2,
     agHeap := (\<lambda>_. NewGlobalWindow ''B'')(0 := (NewGlobalWindow ''A'')\<lparr>gwRequests := 5\<rparr>)\<rparr>"

theorem quiet_tests_forgotten_witness:
  "\<exists>s' reqs. reportLoop (\<lambda>_. None) (\<lambda>_. Inl (PgError ''refused'')) \<lparr>vwURL = ''http://v''\<rparr>
      [TickerFired [''B'', ''A''] (\<lambda>i. 1), TickerFired [''A''] (\<lambda>i. 2)] (ex_store, []) = Some (s', reqs) \<and>
    length reqs = 1 \<and> agTests s' = [] \<and> map snRequests (agReports s') = [5]"
proof -
  have store: "agg_ok ex_store" "agReporter ex_store = Resting" "set [''B'', ''A''] = fst ` set (agTests ex_store)"
    by (auto simp: agg_ok_def ex_store_def NewStore_def NewGlobalWindow_def)
  have windows: "window_of ex_store ''A'' = Some ((NewGlobalWindow ''A'')\<lparr>gwRequests := 5\<rparr>)"
    "window_of ex_store ''B'' = Some (NewGlobalWindow ''B'')" "agReports ex_store = []"
    by (simp_all add: window_of_def ex_store_def NewStore_def)
  have "set [''A''] = {t \<in> set [''B'', ''A'']. busy (the (window_of ex_store t))}"
    by (auto simp: windows busy_def NewGlobalWindow_def)
  from quiet_tests_forgotten [OF store(1,2) _ store(3) _ this, of "\<lambda>_. None" "\<lparr>vwURL = ''http://v''\<rparr>"
      "\<lambda>_. Inl (PgError ''refused'')" "\<lambda>i. 1" "\<lambda>i. 2" "[]"]
  show ?thesis
    by (auto simp: busy_windows_def windows busy_def NewGlobalWindow_def take_snapshot_def)
qed

section \<open>A report between look-up and merge\<close>

text \<open>A sweep leaves an empty window alone on the heap, and once its test was visited nobody finds it.\<close>

lemma sweep_empty_window:
  assumes "agg_ok s" "agReporter s = Sweeping order snaps" "gwRequests (agHeap s r) = 0"
    and "\<And>t. (t, r) \<in> set (agTests s) \<Longrightarrow> t \<in> set order"
    and "agg_run (replicate (length order) Sweep) s = Some s'"
  shows "agHeap s' r = agHeap s r \<and> r \<notin> snd ` set (agTests s') \<and> agNext s' = agNext s"
  using assms
proof (induction order arbitrary: s snaps)
  case Nil
  from Nil.prems(4) have "r \<notin> snd ` set (agTests s)" by auto
  with Nil.prems(5) show ?case by simp
next
  case (Cons u rest)
  let ?s = "report_window u rest snaps s"
  have step: "agg_step Sweep s = Some ?s" using Cons.prems(2) by simp
  with Cons.prems(5) have run: "agg_run (replicate (length rest) Sweep) ?s = Some s'" by simp
  from Cons.prems(1,2) have one: "agHeap ?s r = agHeap s r \<and> agReporter ?s = Sweeping rest (snaps @ map take_snapshot (busy_windows s [u])) \<and>
      agNext ?s = agNext s \<and> (\<forall>t. (t, r) \<in> set (agTests ?s) \<longrightarrow> t \<in> set rest)"
  proof (cases rule: report_window_cases)
    case (empty q)
    then have "\<not> busy (the (window_of s u))" by (simp add: window_of_def busy_def)
    with empty Cons.prems(4) show ?thesis by (auto simp: busy_windows_def set_delete)
  next
    case (full q)
    then have "busy (the (window_of s u))" "r \<noteq> q" using Cons.prems(3) by (auto simp: window_of_def busy_def)
    moreover have "t \<noteq> u" if "(t, r) \<in> set (agTests s)" for t
    proof
      assume "t = u"
      with that agg_okD(1) [OF Cons.prems(1)] full(1) have "r = q" by simp
      with full(2) Cons.prems(3) show False by simp
    qed
    ultimately show ?thesis using full Cons.prems(4) by (auto simp: busy_windows_def window_of_def)
  qed
  with Cons.prems(3) have empty: "gwRequests (agHeap ?s r) = 0" by simp
  have refs: "t \<in> set rest" if "(t, r) \<in> set (agTests ?s)" for t using one that by blast
  from Cons.IH [OF agg_ok_step [OF Cons.prems(1) step] _ empty refs run] one show ?case by simp
qed

text \<open>What the windows but one hold of a test.\<close>

definition other_windows :: "(GlobalWindow \<Rightarrow> int) \<Rightarrow> string \<Rightarrow> nat \<Rightarrow> aggregator \<Rightarrow> int" where
  "other_windows cw t r s = (\<Sum>i\<in>{..<agNext s} - {r}. if gwTestID (agHeap s i) = t then cw (agHeap s i) else 0)"

lemma in_windows_split:
  assumes "r < agNext s" "gwTestID (agHeap s r) = t"
  shows "in_windows cw t s = other_windows cw t r s + cw (agHeap s r)"
proof -
  let ?f = "\<lambda>i. if gwTestID (agHeap s i) = t then cw (agHeap s i) else 0"
  have "sum ?f {..<agNext s} = ?f r + sum ?f ({..<agNext s} - {r})" using assms(1) by (intro sum.remove) auto
  with assms(2) show ?thesis by (simp add: in_windows_def window_sum_def other_windows_def)
qed

text \<open>C36: a bucket can be lost. Take any reachable state in which the callback holds a window that has
  counted nothing since the last report, that of a new or a quiet test, and has not merged its bucket
  yet. Nothing keeps the report loop from running now, whatever the order in which it visits the tests:
  it deletes the window from the store, and the merge that follows goes to a window nobody can find. From
  then on, whatever happens, the bucket is only there: the reports and the other windows of the test hold
  together exactly its requests less than were merged.\<close>

theorem aggregator_loses_bucket:
  assumes "agg_run as NewStore = Some s" "agSubscriber s = Holding b r" "agReporter s = Resting"
    and "gwRequests (agHeap s r) = 0" "distinct order" "set order = fst ` set (agTests s)"
  shows "\<exists>s1. agg_run (report_actions order @ [Merge]) s = Some s1 \<and> agMerged s1 = agMerged s @ [b] \<and>
    (\<forall>bs s2. agg_run bs s1 = Some s2 \<longrightarrow>
       detached r s2 \<and> gwRequests (agHeap s2 r) = wrap64 (mbRequests b) \<and>
       wrap64 (in_merged mbRequests (mbTestID b) s2) =
         wrap64 (in_reports snRequests (mbTestID b) s2 + other_windows gwRequests (mbTestID b) r s2 + mbRequests b))"
proof -
  have ok: "agg_ok s" using assms(1) by (rule agg_ok_run)
  obtain s' where s': "agg_run (report_actions order) s = Some s'" "agg_ok s'" "agMerged s' = agMerged s"
      "agSubscriber s' = agSubscriber s"
    using report_effect [OF ok assms(3,5,6)] by metis
  let ?l = "s\<lparr>agReporter := Sweeping order []\<rparr>"
  have lock: "agg_step (Lock order) s = Some ?l" using assms(3,5,6) by simp
  from s'(1) lock obtain m where m: "agg_run (replicate (length order) Sweep) ?l = Some m" "agg_step Unlock m = Some s'"
    by (auto simp: report_actions_def agg_run_append split: option.splits)
  have "agHeap m r = agHeap ?l r \<and> r \<notin> snd ` set (agTests m) \<and> agNext m = agNext ?l"
    using m(1) assms(4,6) by (intro sweep_empty_window [OF agg_ok_step [OF ok lock]]) force+
  moreover from m(2) have "agHeap s' = agHeap m" "agTests s' = agTests m" "agNext s' = agNext m"
    by (auto split: reporter.splits list.splits)
  ultimately have gone: "agHeap s' r = agHeap s r" "r \<notin> snd ` set (agTests s')" "agNext s' = agNext s" by simp_all
  have r: "r < agNext s" "gwTestID (agHeap s r) = mbTestID b" using agg_okD(3) [OF ok assms(2)] by simp_all
  let ?s1 = "s'\<lparr>agHeap := (agHeap s')(r := GlobalWindow_Merge b (agHeap s' r)), agSubscriber := Waiting,
    agMerged := agMerged s' @ [b]\<rparr>"
  have merge: "agg_step Merge s' = Some ?s1" using s'(4) assms(2) by simp
  have run: "agg_run (report_actions order @ [Merge]) s = Some ?s1" using s'(1) merge by (simp add: agg_run_append)
  have lost: "detached r ?s1" "gwRequests (agHeap ?s1 r) = wrap64 (mbRequests b)" "gwTestID (agHeap ?s1 r) = mbTestID b"
    using gone r assms(4) by (simp_all add: detached_def GlobalWindow_Merge_def)
  have "detached r s2 \<and> gwRequests (agHeap s2 r) = wrap64 (mbRequests b) \<and>
       wrap64 (in_merged mbRequests (mbTestID b) s2) =
         wrap64 (in_reports snRequests (mbTestID b) s2 + other_windows gwRequests (mbTestID b) r s2 + mbRequests b)"
    if "agg_run bs ?s1 = Some s2" for bs s2
  proof -
    have d: "detached r s2" "agHeap s2 r = agHeap ?s1 r"
      using detached_run [OF that agg_ok_step [OF s'(2) merge] lost(1)] by simp_all
    have "agg_run (as @ (report_actions order @ [Merge]) @ bs) NewStore = Some s2"
      by (simp only: agg_run_append [of as] agg_run_append [of "report_actions order @ [Merge]"] assms(1) run that
          option.case)
    from requests.balanced_run [OF this, of "mbTestID b"] have
      "wrap64 (in_merged mbRequests (mbTestID b) s2) =
        wrap64 (in_reports snRequests (mbTestID b) s2 + in_windows gwRequests (mbTestID b) s2)"
      by (simp add: requests.balanced_def)
    moreover have "in_windows gwRequests (mbTestID b) s2 =
        other_windows gwRequests (mbTestID b) r s2 + wrap64 (mbRequests b)"
      using in_windows_split [of r s2 "mbTestID b" gwRequests] d lost by (simp add: detached_def)
    ultimately show ?thesis using d lost(2) by (simp add: add.assoc [symmetric])
  qed
  with run s'(3) show ?thesis by (intro exI [of _ ?s1]) simp
qed

text \<open>The callback has created the window of a test's first bucket when the report comes.\<close>

theorem aggregator_loses_bucket_witness:
  "\<exists>s s1. agg_run [Receive (ex_bucket_of 5), Find, Create] NewStore = Some s \<and>
    agg_run (report_actions [''A''] @ [Merge]) s = Some s1 \<and> map mbRequests (agMerged s1) = [5] \<and>
    gwRequests (agHeap s1 0) = 5 \<and> detached 0 s1"
proof -
  obtain s where s: "agg_run [Receive (ex_bucket_of 5), Find, Create] NewStore = Some s"
    "agSubscriber s = Holding (ex_bucket_of 5) 0" "agReporter s = Resting" "gwRequests (agHeap s 0) = 0"
    "set [''A''] = fst ` set (agTests s)" "agMerged s = []"
    by (simp add: NewStore_def store_find_def store_create_def window_defs ex_bucket_of_def)
  have b: "mbRequests (ex_bucket_of 5) = 5" by (simp add: ex_bucket_of_def)
  from aggregator_loses_bucket [OF s(1-4) _ s(5)] obtain s1 where
    s1: "agg_run (report_actions [''A''] @ [Merge]) s = Some s1" "agMerged s1 = agMerged s @ [ex_bucket_of 5]" and
    after: "\<And>bs s2. agg_run bs s1 = Some s2 \<Longrightarrow> detached 0 s2 \<and> gwRequests (agHeap s2 0) = wrap64 (mbRequests (ex_bucket_of 5))"
    by auto
  with after [of "[]" s1] s b show ?thesis by (auto simp: wrap64_def)
qed

end
