(* ===== verification/Targets.thy ===== *)
theory Targets
  imports Agent Victoria
begin

text \<open>
  The three servers of \<open>scripts/\<close>, targets for load tests by hand, and what the load generator measures
  against them with the client of \<open>worker.New\<close>, which gives up after 30 seconds.
\<close>

section \<open>The servers\<close>

text \<open>Every path and method is answered alike: after a while, with a status and one line.\<close>

record target =
  tgSleep :: int
  tgStatus :: int
  tgBody :: string

definition http200test :: target where
  "http200test = \<lparr>tgSleep = 0, tgStatus = 200, tgBody = ''OK'' @ [newline]\<rparr>"

definition http500test :: target where
  "http500test = \<lparr>tgSleep = 0, tgStatus = 500, tgBody = ''FAIL'' @ [newline]\<rparr>"

definition slowhttptest :: target where
  "slowhttptest = \<lparr>tgSleep = 50000000, tgStatus = 200, tgBody = ''OK'' @ [newline]\<rparr>"

section \<open>Requests to them\<close>

text \<open>
  \<open>latency\<close> is how long the exchange took, at least as long as the server slept; a client with a
  timeout that it exceeds gets no response.
\<close>

definition exchange :: "int \<Rightarrow> target \<Rightarrow> int \<Rightarrow> http_outcome" where
  "exchange timeout tg latency =
     (if 0 < timeout \<and> timeout \<le> max latency (tgSleep tg) then NoResponse DeadlineExceeded
      else Response (tgStatus tg) (int (length (tgBody tg))) None)"

definition worker_timeout :: int where
  "worker_timeout = 30 * 1000000000"

definition measured :: "ExecutionConfig \<Rightarrow> target \<Rightarrow> int \<Rightarrow> RequestResult" where
  "measured cfg tg latency =
     request_result (HTTPExecutor_Execute cfg (exchange worker_timeout tg latency) latency)"

lemma measured_target:
  assumes "tg \<in> {http200test, http500test, slowhttptest}" "latency < worker_timeout"
  shows "rrSuccess (measured cfg tg latency) \<longleftrightarrow> tg \<noteq> http500test"
    and "rrBytesSent (measured cfg tg latency) = int (length (ecBody cfg))"
    and "rrBytesReceived (measured cfg tg latency) = (if tg = http500test then 5 else 3)"
  using assms
  by (auto simp: measured_def request_result_def HTTPExecutor_Execute_def exchange_def worker_timeout_def
      http200test_def http500test_def slowhttptest_def Let_def)

lemma counted_all: "(\<And>x. x \<in> set xs \<Longrightarrow> P x = b) \<Longrightarrow> counted P xs = (if b then int (length xs) else 0)"
  by (induction xs) (auto simp: counted_def)

text \<open>Whatever the flushes, every request to a good target is a success and to the bad one a failure.\<close>

theorem target_totals:
  fixes t w start now
  assumes "tg \<in> {http200test, http500test, slowhttptest}"
    and "list_all (\<lambda>l. l < worker_timeout) latencies" "results_of ops = map (measured cfg tg) latencies"
  defines "bs \<equiv> fst (run_collector (ops @ [FlushOp now]) (NewCollector t w start))"
  shows "bucket_total mbSuccesses bs = (if tg = http500test then 0 else bucket_total mbRequests bs)"
    and "bucket_total mbFailures bs = (if tg = http500test then bucket_total mbRequests bs else 0)"
proof -
  have success: "rrSuccess r \<longleftrightarrow> tg \<noteq> http500test" if "r \<in> set (results_of ops)" for r
    using that assms(2) measured_target(1) [OF assms(1)] unfolding assms(3) by (auto simp: list_all_iff)
  have "counted rrSuccess (results_of ops) = (if tg \<noteq> http500test then int (length (results_of ops)) else 0)"
    "counted (\<lambda>r. \<not> rrSuccess r) (results_of ops) = (if tg = http500test then int (length (results_of ops)) else 0)"
    by (rule counted_all; simp add: success)+
  with collector_conserves [of ops now t w start]
  show "bucket_total mbSuccesses bs = (if tg = http500test then 0 else bucket_total mbRequests bs)"
    "bucket_total mbFailures bs = (if tg = http500test then bucket_total mbRequests bs else 0)"
    by (simp_all add: bs_def wrap64_def)
qed

end
