(* ===== verification/Traffic.thy ===== *)
theory Traffic
  imports Remote Guarantees
begin

text \<open>
  The server under load: any requests of any clients to its HTTP interface, with the two background
  loops in between. A handler keeps of the tables what its service keeps, so what holds of all
  histories of the repositories holds of all traffic, whatever the router and the decoders make of it.
\<close>

section \<open>Handlers\<close>

definition handler_keeps :: "(db \<Rightarrow> db \<Rightarrow> bool) \<Rightarrow> 'p handler \<Rightarrow> bool" where
  "handler_keeps R h \<longleftrightarrow>
     (\<forall>w. env_ok R w \<longrightarrow> R (wdb w) (wdb (snd (h w))) \<and> env_ok R (snd (h w)))"

lemma answer_world: "snd (answer m failed ok w) = snd (m w)"
  by (cases "m w"; cases "fst (m w)") (simp_all add: answer_def)

lemma handler_keeps_answer: "keeps R m \<Longrightarrow> handler_keeps R (answer m failed ok)"
  by (simp add: handler_keeps_def keeps_def answer_world)

context release_relation
begin

lemma handler_keeps_reply: "handler_keeps R (Pair rep)"
  by (simp add: handler_keeps_def R_refl)

lemma handler_keeps_decoded:
  "(\<And>req. handler_keeps R (k req)) \<Longrightarrow> handler_keeps R (decoded body bad k)"
  by (cases body) (simp_all add: handler_keeps_def decoded_def R_refl)

lemma keeps_service_reads:
  "keeps R TestService_GetTests" "keeps R (TestService_GetTestByID tid)"
  "keeps R WorkerService_GetWorkers" "keeps R (WorkerService_GetWorkerByID wid)"
  unfolding TestService_GetTests_def TestService_GetTestByID_def WorkerService_GetWorkers_def
    WorkerService_GetWorkerByID_def
  by (rule keeps_TestRepo keeps_WorkerRepo)+

lemma keeps_handlers:
  "handler_keeps R (TestHandler_CreateTest s i now body1)" "handler_keeps R TestHandler_GetTests"
  "handler_keeps R (TestHandler_GetTestByID tid)" "handler_keeps R (TestHandler_StopTest tid)"
  "handler_keeps R (TestHandler_StartTest (cpService (vulcan c)) pat tid)"
  "handler_keeps R (WorkerHandler_RegisterWorker i now body2)" "handler_keeps R WorkerHandler_GetWorkers"
  "handler_keeps R (WorkerHandler_GetWorkerByID wid)" "handler_keeps R (WorkerHandler_Heartbeat now wid body3)"
  "handler_keeps R (WorkerHandler_GetWorkerAssignment wid)"
  "handler_keeps R (WorkerHandler_StartAssignment wid body3)"
  "handler_keeps R (WorkerHandler_CompleteAssignment wid body3)"
  "handler_keeps R (WorkerHandler_FailAssignment wid body3)"
  unfolding handler_defs
  by (intro handler_keeps_decoded handler_keeps_answer keeps_service_reads keeps_WorkerService
      keeps_CreateTest keeps_StopTest keeps_vulcan_StartTest)+

lemma keeps_serve:
  "apService a = cpService (vulcan c) \<Longrightarrow> handler_keeps R (serve a r i req)"
  using keeps_handlers by (cases r) (simp_all add: handler_keeps_def R_refl)

end

section \<open>Traffic\<close>

text \<open>
  A request comes with the identifier and the time its handler will draw and the polls it may wait
  for; the health sweep and the autoscaler run in loops of their own.
\<close>

datatype activity =
    Request http_request string time patience
  | HealthSweep time
  | AutoscalerCycle

fun act :: "ProcessProvisioner api \<Rightarrow> string \<Rightarrow> control_plane \<Rightarrow> activity \<Rightarrow> ProcessProvisioner world \<Rightarrow> ProcessProvisioner world" where
  "act a base cp (Request req i now pat) w =
     snd (api_transport (a\<lparr>apNewID := i, apNow := now, apPatience := pat\<rparr>) base req w)"
| "act a base cp (HealthSweep now) w = snd (WorkerReconciler_reconcile now w)"
| "act a base cp AutoscalerCycle w = snd (Reconciler_runOnce (cpReconciler cp) w)"

definition run_traffic ::
    "ProcessProvisioner api \<Rightarrow> string \<Rightarrow> control_plane \<Rightarrow> activity list \<Rightarrow> ProcessProvisioner world \<Rightarrow>
     ProcessProvisioner world" where
  "run_traffic a base cp = fold (act a base cp)"

context release_relation
begin

lemma R_act:
  assumes "apService a = cpService (vulcan c)" "env_ok R w"
  shows "R (wdb w) (wdb (act a base (vulcan c) x w)) \<and> env_ok R (act a base (vulcan c) x w)"
proof (cases x)
  case (Request req i now pat)
  have "handler_keeps R (serve (a\<lparr>apNewID := i, apNow := now, apPatience := pat\<rparr>) r j req)" for r j
    by (rule keeps_serve [of _ c]) (simp add: assms(1))
  then show ?thesis
    using assms(2) by (simp add: Request api_transport_def handler_keeps_def R_refl split_beta split: option.split)
next
  case (HealthSweep now)
  have "keeps R (run_operation (vulcan c) (HealthSweepOp now))" by (rule keeps_operation)
  then show ?thesis using assms(2) by (simp add: HealthSweep keeps_def)
next
  case AutoscalerCycle
  have "keeps R (run_operation (vulcan c) ReconcileOp)" by (rule keeps_operation)
  then show ?thesis using assms(2) by (simp add: AutoscalerCycle keeps_def)
qed

lemma R_traffic:
  assumes "apService a = cpService (vulcan c)" "env_ok R w"
  shows "R (wdb w) (wdb (run_traffic a base (vulcan c) xs w)) \<and> env_ok R (run_traffic a base (vulcan c) xs w)"
  using assms(2)
proof (induction xs arbitrary: w)
  case Nil
  then show ?case by (simp add: run_traffic_def R_refl)
next
  case (Cons x xs)
  with R_act [OF assms(1), of w base x] Cons.IH [of "act a base (vulcan c) x w"] show ?case
    by (auto simp: run_traffic_def intro: R_trans)
qed

end

text \<open>C5: whatever requests arrive at the server, well-formed or not, and whatever the background loops
  and the other clients of the database do in between, the tables keep their integrity, and the rows
  only move forward: no row is lost, what was asked of a test stays, an assignment keeps its rate and
  its status only goes up from RESERVED over RUNNING to COMPLETED or FAILED, where the row is frozen,
  and a worker never comes back from DRAINING or OFFLINE.\<close>

theorem traffic_moves_forward:
  assumes "apService a = cpService (vulcan c)" "env_ok reaches w" "integrity (wdb w)"
    and "d = wdb (run_traffic a base (vulcan c) xs w)"
  shows "integrity d \<and>
    (\<forall>t\<in>set (dTests (wdb w)). \<exists>t'\<in>set (dTests d). test_evolves t t') \<and>
    (\<forall>r\<in>set (dAssignments (wdb w)). \<exists>r'\<in>set (dAssignments d). akey r' = akey r \<and> aRPS r' = aRPS r \<and>
       aStatus r \<le> aStatus r' \<and> (r' = r \<or> active_assignment r)) \<and>
    (\<forall>v\<in>set (dWorkers (wdb w)). \<exists>v'\<in>set (dWorkers d). wID v' = wID v \<and> wHostname v' = wHostname v \<and>
       wStatus v \<le> wStatus v')"
proof -
  have "sound_step (wdb w) d"
    unfolding assms(4) by (rule reaches_sound) (use histories.R_traffic [OF assms(1,2)] in blast)
  with assms(3) have "integrity d" "evolves (wdb w) d" by (simp_all add: sound_step_def)
  then show ?thesis
    unfolding evolves_def rows_evolve_def test_evolves_def worker_evolves_def assignment_evolves_def by metis
qed

text \<open>A stop of a test with a finished and a running assignment, a malformed completion, and a sweep.\<close>

definition ex_traffic :: "activity list" where
  "ex_traffic =
     [Request \<lparr>hqMethod = ''POST'', hqURL = ''http://c/api/v1/tests/A/stop'', hqContentType = None, hqBody = []\<rparr>
        ''n'' 5 ex_patience,
      Request \<lparr>hqMethod = ''POST'', hqURL = ''http://c/api/v1/workers/w/assignment/complete'',
        hqContentType = None, hqBody = ''?''\<rparr> ''n'' 6 ex_patience,
      HealthSweep 7, AutoscalerCycle]"

theorem traffic_moves_forward_witness:
  "ex_row ''A'' ''w'' AssignmentStatusCompleted (Some 100) (Some 100) \<in>
   set (dAssignments (wdb (run_traffic ex_api ''http://c'' (vulcan 100) ex_traffic (ex_world ex_half))))"
proof -
  let ?r = "ex_row ''A'' ''w'' AssignmentStatusCompleted (Some 100) (Some 100)"
  have "?r \<in> set (dAssignments (wdb (ex_world ex_half)))" "\<not> active_assignment ?r"
    by (simp_all add: ex_db_defs ex_row_def active_assignment_def)
  moreover have "apService ex_api = cpService (vulcan 100)" "env_ok reaches (ex_world ex_half)"
    "integrity (wdb (ex_world ex_half))"
    by (simp_all add: ex_api_def ex_integrity)
  ultimately show ?thesis
    using traffic_moves_forward [OF _ _ _ refl, of ex_api 100 "ex_world ex_half" "''http://c''" ex_traffic] by metis
qed

end
