(* ===== verification/Durations.thy ===== *)
theory Durations
  imports GoFloat Validation
begin

text \<open>
  The two readers of numbers that the configuration uses, as the standard library defines them:
  \<open>fmt.Sscanf(s, "%d", &n)\<close> and \<open>time.ParseDuration\<close>. Both read the bytes of a Go string.
\<close>

section \<open>Digits\<close>

definition is_digit :: "char \<Rightarrow> bool" where
  "is_digit c \<longleftrightarrow> 48 \<le> (of_char c :: nat) \<and> (of_char c :: nat) \<le> 57"

lemma is_digit_nat_digits: "c \<in> set (nat_digits n) \<Longrightarrow> is_digit c"
proof -
  have "list_all is_digit ''0123456789''" by code_simp
  then show "c \<in> set (nat_digits n) \<Longrightarrow> is_digit c"
    using nat_digits_set [of n] unfolding list_all_iff by blast
qed

lemma nat_digits_nonempty [simp]: "nat_digits n \<noteq> []"
  by (subst nat_digits.simps) simp

lemma nat_digits_all: "list_all is_digit (nat_digits n)"
  using is_digit_nat_digits by (simp add: list_all_iff)

lemma digits_prefix:
  assumes "list_all is_digit ds" "s = [] \<or> \<not> is_digit (hd s)"
  shows "takeWhile is_digit (ds @ s) = ds" "dropWhile is_digit (ds @ s) = s"
  using assms by (cases s; induction ds; simp)+

definition digits_value :: "string \<Rightarrow> int" where
  "digits_value ds = foldl (\<lambda>acc c. acc * 10 + int (digit_of c)) 0 ds"

lemma foldl_digits:
  "foldl (\<lambda>acc c. acc * 10 + int (digit_of c)) (int x) ds = int (foldl (\<lambda>acc c. 10 * acc + digit_of c) x ds)"
proof (induction ds arbitrary: x)
  case (Cons c ds)
  have "int x * 10 + int (digit_of c) = int (10 * x + digit_of c)" by simp
  then show ?case by (simp only: foldl_Cons Cons.IH)
qed simp

lemma digits_value_nat_digits: "digits_value (nat_digits n) = int n"
  using foldl_digits [of 0 "nat_digits n"] atoi_nat_digits [of n]
  by (simp add: digits_value_def atoi_nat_def)

section \<open>Sscanf\<close>

text \<open>
  The verb \<open>%d\<close>: white space (a newline in it is an error), a sign, digits; what follows is not
  looked at. The number must fit into 64 bits.
\<close>

definition skip_space :: "string \<Rightarrow> string option" where
  "skip_space s =
     (let t = strip_all space_runes s
      in if CHR 0x0A \<in> set (take (length s - length t) s) then None else Some t)"

definition accept_sign :: "string \<Rightarrow> bool \<times> string" where
  "accept_sign s =
     (case s of [] \<Rightarrow> (False, [])
      | c # cs \<Rightarrow> if c = CHR ''-'' then (True, cs) else if c = CHR ''+'' then (False, cs) else (False, s))"

definition Sscanf_d :: "string \<Rightarrow> int option" where
  "Sscanf_d s =
     (case skip_space s of
        None \<Rightarrow> None
      | Some t \<Rightarrow>
          (case accept_sign t of (neg, u) \<Rightarrow>
            (let ds = takeWhile is_digit u; n = digits_value ds; v = (if neg then - n else n)
             in if ds = [] \<or> \<not> in_int64 v then None else Some v)))"

section \<open>ParseDuration\<close>

text \<open>The units, with the micro sign and the Greek letter mu as UTF-8.\<close>

definition duration_units :: "(string \<times> int) list" where
  "duration_units =
     [(''ns'', 1), (''us'', 1000), (bytes [194, 181, 115], 1000), (bytes [206, 188, 115], 1000),
      (''ms'', 1000000), (''s'', 1000000000), (''m'', 60000000000), (''h'', 3600000000000)]"

text \<open>
  \<open>leadingInt\<close> fails above \<open>2 ^ 63\<close>; \<open>leadingFraction\<close> ignores the digits that do not fit and
  returns the number and its scale.
\<close>

fun leadingInt :: "int \<Rightarrow> string \<Rightarrow> (int \<times> string) option" where
  "leadingInt x [] = Some (x, [])"
| "leadingInt x (c # cs) =
     (if \<not> is_digit c then Some (x, c # cs)
      else if x > 922337203685477580 then None
      else let y = x * 10 + int (digit_of c) in if y > 9223372036854775808 then None else leadingInt y cs)"

fun leadingFraction :: "int \<Rightarrow> float64 \<Rightarrow> bool \<Rightarrow> string \<Rightarrow> int \<times> float64 \<times> string" where
  "leadingFraction x scale overflow [] = (x, scale, [])"
| "leadingFraction x scale overflow (c # cs) =
     (if \<not> is_digit c then (x, scale, c # cs)
      else if overflow then leadingFraction x scale True cs
      else if x > 922337203685477580 then leadingFraction x scale True cs
      else let y = x * 10 + int (digit_of c)
           in if y > 9223372036854775808 then leadingFraction x scale True cs
              else leadingFraction y (fmul scale 10) False cs)"

text \<open>The part after the whole number: what was read, and whether there was a digit.\<close>

definition fraction :: "string \<Rightarrow> (int \<times> float64 \<times> bool) \<times> string" where
  "fraction s =
     (case s of
        c # cs \<Rightarrow>
          if c = CHR ''.'' then
            (case leadingFraction 0 1 False cs of (f, scale, t) \<Rightarrow> ((f, scale, length t \<noteq> length cs), t))
          else ((0, 1, False), s)
      | [] \<Rightarrow> ((0, 1, False), []))"

definition unit_char :: "char \<Rightarrow> bool" where
  "unit_char c \<longleftrightarrow> c \<noteq> CHR ''.'' \<and> \<not> is_digit c"

text \<open>One round of the loop: a number, a fraction and a unit, in nanoseconds.\<close>

definition duration_item :: "string \<Rightarrow> (int \<times> string) option" where
  "duration_item s =
     (if \<not> (hd s = CHR ''.'' \<or> is_digit (hd s)) then None
      else case leadingInt 0 s of
        None \<Rightarrow> None
      | Some (v, t) \<Rightarrow>
          (let pre = (length t \<noteq> length s) in
           case fraction t of ((f, scale, post), u) \<Rightarrow>
             if \<not> pre \<and> \<not> post then None
             else let name = takeWhile unit_char u; rest = dropWhile unit_char u in
               if name = [] then None
               else case map_of duration_units name of
                 None \<Rightarrow> None
               | Some unit_ns \<Rightarrow>
                   if v > 9223372036854775808 div unit_ns then None
                   else let w = v * unit_ns +
                         (if f > 0 then \<lfloor>fmul (float_of_int f) (fdiv (float_of_int unit_ns) scale)\<rfloor> else 0)
                     in if f > 0 \<and> w > 9223372036854775808 then None else Some (w, rest)))"

lemma leadingInt_length: "leadingInt x s = Some (v, t) \<Longrightarrow> length t \<le> length s"
  by (induction x s rule: leadingInt.induct) (auto simp: Let_def split: if_splits)

lemma leadingFraction_length: "leadingFraction x sc ov s = (f, sc', t) \<Longrightarrow> length t \<le> length s"
  by (induction x sc ov s rule: leadingFraction.induct) (auto simp: Let_def split: if_splits)

lemma fraction_length: "fraction s = (r, t) \<Longrightarrow> length t \<le> length s"
  by (auto simp: fraction_def split: list.splits if_splits prod.splits dest: leadingFraction_length)

lemma duration_item_shorter:
  assumes "duration_item s = Some (w, rest)"
  shows "length rest < length s"
proof -
  from assms obtain v t where t: "leadingInt 0 s = Some (v, t)"
    by (auto simp: duration_item_def split: if_splits option.splits)
  obtain f scale post u where u: "fraction t = ((f, scale, post), u)" by (metis surj_pair)
  from assms t u have "takeWhile unit_char u \<noteq> []" "rest = dropWhile unit_char u"
    by (auto simp: duration_item_def Let_def split: if_splits option.splits)
  then have "length rest < length u"
    by (metis length_append length_greater_0_conv less_add_same_cancel2 takeWhile_dropWhile_id)
  also have "\<dots> \<le> length t" using u by (rule fraction_length)
  also have "\<dots> \<le> length s" using t by (rule leadingInt_length)
  finally show ?thesis .
qed

text \<open>The loop adds in 64 unsigned bits.\<close>

function duration_loop :: "int \<Rightarrow> string \<Rightarrow> int option" where
  "duration_loop d s =
     (if s = [] then Some d
      else case duration_item s of
        None \<Rightarrow> None
      | Some (w, rest) \<Rightarrow>
          (let d' = (d + w) mod 18446744073709551616
           in if d' > 9223372036854775808 then None else duration_loop d' rest))"
  by pat_completeness auto
termination
  by (relation "measure (\<lambda>(d, s). length s)") (auto dest: duration_item_shorter)

declare duration_loop.simps [simp del]

definition ParseDuration :: "string \<Rightarrow> int option" where
  "ParseDuration s0 =
     (case accept_sign s0 of (neg, s) \<Rightarrow>
        if s = ''0'' then Some 0
        else if s = [] then None
        else case duration_loop 0 s of
          None \<Rightarrow> None
        | Some d \<Rightarrow>
            if neg then Some (wrap64 (- wrap64 d))
            else if d > 9223372036854775807 then None else Some d)"

section \<open>What they read back\<close>

lemma leadingInt_digits:
  assumes "list_all is_digit ds" "s = [] \<or> \<not> is_digit (hd s)" "0 \<le> x"
    and "foldl (\<lambda>acc c. acc * 10 + int (digit_of c)) x ds \<le> 9223372036854775807"
  shows "leadingInt x (ds @ s) = Some (foldl (\<lambda>acc c. acc * 10 + int (digit_of c)) x ds, s)"
  using assms
proof (induction ds arbitrary: x)
  case Nil
  then show ?case by (cases s) auto
next
  case (Cons c ds)
  let ?f = "\<lambda>acc c. acc * 10 + int (digit_of c)"
  have mono: "y \<le> foldl ?f y es" if "0 \<le> y" for y es
    using that
  proof (induction es arbitrary: y)
    case (Cons e es)
    from Cons.prems have "0 \<le> ?f y e" "y \<le> ?f y e" by simp_all
    with Cons.IH [of "?f y e"] show ?case by simp
  qed simp
  from Cons.prems(3) have "0 \<le> ?f x c" by simp
  with mono [OF this, of ds] Cons.prems(4) have "?f x c \<le> 9223372036854775807" by simp
  with \<open>0 \<le> ?f x c\<close> Cons show ?case by simp
qed

lemma leadingInt_nat_digits:
  assumes "s = [] \<or> \<not> is_digit (hd s)" "int n \<le> 9223372036854775807"
  shows "leadingInt 0 (nat_digits n @ s) = Some (int n, s)"
  using leadingInt_digits [OF nat_digits_all assms(1), of 0 n] assms(2) digits_value_nat_digits [of n]
  by (simp add: digits_value_def)

text \<open>A whole number of seconds.\<close>

lemma ParseDuration_seconds:
  assumes "int n \<le> 9223372036"
  shows "ParseDuration (nat_digits n @ ''s'') = Some (int n * 1000000000)"
proof -
  obtain c cs where ds: "nat_digits n = c # cs" by (cases "nat_digits n") simp_all
  have c: "is_digit c" using is_digit_nat_digits [of c n] ds by simp
  have chars: "\<not> is_digit CHR ''s''" "unit_char CHR ''s''" "\<not> is_digit CHR ''-''" "\<not> is_digit CHR ''+''"
    by code_simp+
  have seconds: "map_of duration_units ''s'' = Some 1000000000"
    by (simp add: duration_units_def bytes_def)
  have sign: "accept_sign (nat_digits n @ ''s'') = (False, nat_digits n @ ''s'')"
    using c chars ds by (auto simp: accept_sign_def)
  have "leadingInt 0 (nat_digits n @ ''s'') = Some (int n, ''s'')"
    by (rule leadingInt_nat_digits) (use assms chars in simp_all)
  then have "duration_item (nat_digits n @ ''s'') = Some (int n * 1000000000, [])"
    using c ds chars assms seconds
    by (simp add: duration_item_def fraction_def Let_def del: leadingInt.simps)
  moreover have "(int n * 1000000000) mod 18446744073709551616 = int n * 1000000000" using assms by simp
  ultimately have "duration_loop 0 (nat_digits n @ ''s'') = Some (int n * 1000000000)"
    using assms by (simp add: duration_loop.simps Let_def)
  with sign ds assms show ?thesis by (simp add: ParseDuration_def)
qed

lemma digit_visible: "is_digit c \<Longrightarrow> visible c"
  by (simp add: is_digit_def visible_def)

lemma Sscanf_d_digits:
  assumes "int n \<le> 9223372036854775807" "s = [] \<or> \<not> is_digit (hd s)"
  shows "Sscanf_d (nat_digits n @ s) = Some (int n)"
proof -
  obtain c cs where ds: "nat_digits n = c # cs" by (cases "nat_digits n") simp_all
  have c: "is_digit c" using is_digit_nat_digits [of c n] ds by simp
  have chars: "\<not> is_digit CHR ''-''" "\<not> is_digit CHR ''+''" by code_simp+
  have "strip_one space_runes (c # cs @ s) = None"
    by (rule strip_one_first [OF visible_no_space(1) [OF digit_visible [OF c]]])
  then have skip: "skip_space (nat_digits n @ s) = Some (nat_digits n @ s)"
    by (simp add: skip_space_def ds strip_all_id)
  have sign: "accept_sign (nat_digits n @ s) = (False, nat_digits n @ s)"
    using c chars ds by (auto simp: accept_sign_def)
  from assms(1) have "in_int64 (int n)" by (simp add: in_int64_def max_int_def)
  with skip sign show ?thesis
    by (simp add: Sscanf_d_def digits_prefix [OF nat_digits_all assms(2)] digits_value_nat_digits)
qed

end
