(* ===== verification/Config.thy ===== *)
theory Config
  imports Durations Requests AgentRuns Remote Provisioner
begin

text \<open>
  \<open>internal/config/config.go\<close> and \<open>internal/worker/config.go\<close>: the configuration of the three programs
  from the environment and from the worker's file, its defaults and its checks, and how a process of the
  provisioner gets its configuration. The environment is what \<open>os.Getenv\<close> answers; reading the file and
  the YAML decoder are arguments.
\<close>

section \<open>The environment\<close>

type_synonym environment = "string \<Rightarrow> string"

record Config =
  cfPort :: string
  cfDatabaseURL :: string
  cfVictoriaMetricsURL :: string
  cfNATSURL :: string
  cfWorkerCapacityRPS :: int
  cfWorkerBinaryPath :: string
  cfWorkerWorkingDir :: string
  cfControlPlaneURL :: string
  cfAutoscalerInterval :: int

definition parsePositiveInt :: "string \<Rightarrow> int \<Rightarrow> int" where
  "parsePositiveInt val fallback =
     (case Sscanf_d val of
        None \<Rightarrow> fallback
      | Some n \<Rightarrow> if n \<le> 0 then fallback else n)"

definition parsePositiveDuration :: "string \<Rightarrow> int \<Rightarrow> int" where
  "parsePositiveDuration val fallback =
     (if val = [] then fallback
      else case ParseDuration val of
        None \<Rightarrow> fallback
      | Some d \<Rightarrow> if d \<le> 0 then fallback else d)"

definition load :: "environment \<Rightarrow> Config" where
  "load env =
     \<lparr>cfPort = env ''PORT'',
      cfDatabaseURL = env ''DB_URL'',
      cfVictoriaMetricsURL = env ''VICTORIA_METRICS_URL'',
      cfNATSURL = env ''NATS_URL'',
      cfWorkerCapacityRPS = parsePositiveInt (env ''WORKER_CAPACITY_RPS'') 100,
      cfWorkerBinaryPath = env ''WORKER_BINARY_PATH'',
      cfWorkerWorkingDir = env ''VULCAN_PROJECT_ROOT'',
      cfControlPlaneURL = env ''CONTROL_PLANE_URL'',
      cfAutoscalerInterval = parsePositiveDuration (env ''AUTOSCALER_INTERVAL'') 5000000000\<rparr>"

definition required :: "string \<Rightarrow> go_error" where
  "required name = Errorf (name @ '' environment variable is required'')"

text \<open>\<open>if s == "" { s = def }\<close>.\<close>

definition or_default :: "string \<Rightarrow> string \<Rightarrow> string" where
  "or_default s def_val = (if s = [] then def_val else s)"

definition LoadServerConfig :: "environment \<Rightarrow> go_error + Config" where
  "LoadServerConfig env =
     (let cfg = load env in
      if cfPort cfg = [] then Inl (required ''PORT'')
      else if cfDatabaseURL cfg = [] then Inl (required ''DB_URL'')
      else if cfNATSURL cfg = [] then Inl (required ''NATS_URL'')
      else let cfg' = cfg\<lparr>cfControlPlaneURL := or_default (cfControlPlaneURL cfg) (''http://localhost:'' @ cfPort cfg),
                          cfWorkerBinaryPath := or_default (cfWorkerBinaryPath cfg) ''./worker'',
                          cfWorkerWorkingDir := or_default (cfWorkerWorkingDir cfg) ''.''\<rparr>
      in if cfVictoriaMetricsURL cfg' = [] then Inl (required ''VICTORIA_METRICS_URL'') else Inr cfg')"

definition LoadAggregatorConfig :: "environment \<Rightarrow> go_error + Config" where
  "LoadAggregatorConfig env =
     (let cfg = load env in
      if cfNATSURL cfg = [] then Inl (required ''NATS_URL'')
      else if cfVictoriaMetricsURL cfg = [] then Inl (required ''VICTORIA_METRICS_URL'')
      else Inr cfg)"

text \<open>\<open>internal/aggregator/config.go\<close> reads the same two addresses unchecked; no program calls it.\<close>

record aggregator_Config =
  acNATSURL :: string
  acVictoriaMetricsURL :: string

definition aggregator_DefaultConfig :: "environment \<Rightarrow> aggregator_Config" where
  "aggregator_DefaultConfig env =
     \<lparr>acNATSURL = env ''NATS_URL'', acVictoriaMetricsURL = env ''VICTORIA_METRICS_URL''\<rparr>"

lemma aggregator_configs_agree:
  "LoadAggregatorConfig env = Inr cfg \<Longrightarrow> aggregator_DefaultConfig env =
     \<lparr>acNATSURL = cfNATSURL cfg, acVictoriaMetricsURL = cfVictoriaMetricsURL cfg\<rparr>"
  by (auto simp: LoadAggregatorConfig_def aggregator_DefaultConfig_def load_def Let_def split: if_splits)

definition LoadWorkerConfig :: "environment \<Rightarrow> go_error + Config" where
  "LoadWorkerConfig env =
     (let cfg = load env in
      if cfNATSURL cfg = [] then Inl (required ''NATS_URL'') else Inr cfg)"

section \<open>The worker's file\<close>

text \<open>The sections of the file, flattened.\<close>

record WorkerConfig =
  wcHostname :: string
  wcVersion :: string
  wcURL :: string
  wcHeartbeatInterval :: int
  wcPollingInterval :: int
  wcCPUCount :: int
  wcMemoryMB :: int
  wcLevel :: string
  wcOverrideHostname :: string

definition WorkerConfig_Validate :: "WorkerConfig \<Rightarrow> go_error option" where
  "WorkerConfig_Validate c =
     (if wcHostname c = [] then Some (Errorf ''worker.hostname is required'')
      else if wcURL c = [] then Some (Errorf ''control_plane.url is required'')
      else if wcHeartbeatInterval c \<le> 0 then Some (Errorf ''heartbeat.interval must be > 0'')
      else if wcPollingInterval c \<le> 0 then Some (Errorf ''polling.interval must be > 0'')
      else if wcCPUCount c \<le> 0 then Some (Errorf ''resources.cpu_count must be > 0'')
      else if wcMemoryMB c \<le> 0 then Some (Errorf ''resources.memory_mb must be > 0'')
      else None)"

definition LoadConfig ::
    "(string \<Rightarrow> go_error + string) \<Rightarrow> (string \<Rightarrow> go_error + WorkerConfig) \<Rightarrow> environment \<Rightarrow> string \<Rightarrow>
     go_error + WorkerConfig" where
  "LoadConfig read_file unmarshal env path =
     (case read_file path of
        Inl err \<Rightarrow> Inl (Wrapf ''read config'' err)
      | Inr data \<Rightarrow>
          (case unmarshal data of
             Inl err \<Rightarrow> Inl (Wrapf ''parse yaml'' err)
           | Inr cfg \<Rightarrow>
               (let cfg1 = cfg\<lparr>wcOverrideHostname := env ''WORKER_HOSTNAME''\<rparr>;
                    cfg2 = cfg1\<lparr>wcHostname := or_default (wcOverrideHostname cfg1) (wcHostname cfg1)\<rparr>;
                    cfg3 = cfg2\<lparr>wcURL := or_default (env ''CONTROL_PLANE_URL'') (wcURL cfg2)\<rparr>
                in case WorkerConfig_Validate cfg3 of Some err \<Rightarrow> Inl err | None \<Rightarrow> Inr cfg3)))"

text \<open>The worker of a configuration: no identifier yet, and IDLE.\<close>

definition Worker_New :: "WorkerConfig \<Rightarrow> agent" where
  "Worker_New cfg =
     \<lparr>agID = [], agHostname = wcHostname cfg, agVersion = wcVersion cfg,
      agStatus = worker_status_string WorkerStatusIdle, agCPUCount = wcCPUCount cfg,
      agMemoryMB = wcMemoryMB cfg\<rparr>"

section \<open>The environment of a process\<close>

text \<open>\<open>os.Getenv\<close> on the list of settings of \<open>exec.Cmd\<close>: the last setting of a name counts.\<close>

definition Getenv :: "string list \<Rightarrow> environment" where
  "Getenv settings name =
     (case List.find (\<lambda>e. strip_prefix (name @ ''='') e \<noteq> None) (rev settings) of
        None \<Rightarrow> []
      | Some e \<Rightarrow> the (strip_prefix (name @ ''='') e))"

section \<open>The server's configuration\<close>

lemma parsePositiveInt_range:
  assumes "0 < fallback" "fallback \<le> max_int"
  shows "0 < parsePositiveInt s fallback" "parsePositiveInt s fallback \<le> max_int"
proof -
  have "n \<le> max_int" if "Sscanf_d s = Some n" for n
    using that by (auto simp: Sscanf_d_def Let_def in_int64_def split: option.splits prod.splits if_splits)
  with assms show "0 < parsePositiveInt s fallback" "parsePositiveInt s fallback \<le> max_int"
    by (auto simp: parsePositiveInt_def split: option.splits)
qed

lemma ParseDuration_range: "ParseDuration s = Some d \<Longrightarrow> d \<le> max_int"
  using wrap64_in [unfolded in_int64_def]
  by (auto simp: ParseDuration_def max_int_def split: prod.splits if_splits option.splits)

lemma parsePositiveDuration_range:
  assumes "0 < fallback" "fallback \<le> max_int"
  shows "0 < parsePositiveDuration s fallback" "parsePositiveDuration s fallback \<le> max_int"
  using assms ParseDuration_range [of s]
  by (auto simp: parsePositiveDuration_def split: option.splits)

lemma load_ranges:
  "0 < cfWorkerCapacityRPS (load env)" "cfWorkerCapacityRPS (load env) \<le> max_int"
  "0 < cfAutoscalerInterval (load env)" "cfAutoscalerInterval (load env) \<le> max_int"
  using parsePositiveInt_range [of 100 "env ''WORKER_CAPACITY_RPS''"]
    parsePositiveDuration_range [of 5000000000 "env ''AUTOSCALER_INTERVAL''"]
  by (simp_all add: load_def max_int_def)

lemma or_default_nonempty: "d \<noteq> [] \<Longrightarrow> or_default s d \<noteq> []"
  by (simp add: or_default_def)

text \<open>C31: the configuration of the control plane. It loads exactly when the four required variables are set,
  NATS_URL among them, and an error names the first one that is not; a configuration that loads has a
  worker capacity and an autoscaler interval that are positive and fit their types, whatever text the
  environment holds, and no empty path or address.\<close>

theorem server_configuration:
  "case LoadServerConfig env of
     Inl err \<Rightarrow> (\<exists>name. find (\<lambda>n. env n = []) [''PORT'', ''DB_URL'', ''NATS_URL'', ''VICTORIA_METRICS_URL''] = Some name \<and>
       err = required name)
   | Inr cfg \<Rightarrow>
       find (\<lambda>n. env n = []) [''PORT'', ''DB_URL'', ''NATS_URL'', ''VICTORIA_METRICS_URL''] = None \<and>
       0 < cfWorkerCapacityRPS cfg \<and> cfWorkerCapacityRPS cfg \<le> max_int \<and>
       0 < cfAutoscalerInterval cfg \<and> cfAutoscalerInterval cfg \<le> max_int \<and>
       cfPort cfg = env ''PORT'' \<and> cfDatabaseURL cfg = env ''DB_URL'' \<and> cfNATSURL cfg = env ''NATS_URL'' \<and>
       cfVictoriaMetricsURL cfg = env ''VICTORIA_METRICS_URL'' \<and>
       cfWorkerBinaryPath cfg \<noteq> [] \<and> cfWorkerWorkingDir cfg \<noteq> [] \<and> cfControlPlaneURL cfg \<noteq> []"
proof -
  have fields: "cfPort (load env) = env ''PORT''" "cfDatabaseURL (load env) = env ''DB_URL''"
    "cfNATSURL (load env) = env ''NATS_URL''" "cfVictoriaMetricsURL (load env) = env ''VICTORIA_METRICS_URL''"
    by (simp_all add: load_def)
  show ?thesis
    using load_ranges [of env] by (simp add: LoadServerConfig_def Let_def fields or_default_nonempty)
qed

section \<open>A process of the provisioner\<close>

text \<open>What was started: a hostname of the autoscaler's own, and the command for it.\<close>

lemma provision_loop_commands:
  assumes "provision_loop binary is p = (r, p')" "\<forall>i\<in>set is. 0 \<le> i"
  shows "\<exists>started. ppStarted p' = ppStarted p @ started \<and>
    (\<forall>(h, c)\<in>set started. \<exists>nano i. 0 \<le> i \<and> h = auto_hostname nano i \<and> c = worker_cmd p binary h)"
  using assms
proof (induction "is" arbitrary: p)
  case Nil
  then show ?case by simp
next
  case (Cons i rest)
  obtain e p1 where e: "next_os p = (e, p1)" by fastforce
  have frame: "ppStarted p1 = ppStarted p" "worker_cmd p1 = worker_cmd p"
    using e by (auto simp: next_os_def reap_def worker_cmd_def fun_eq_iff split: list.splits)
  show ?case
  proof (cases "os_ctx e = None \<and> (\<exists>pid. os_start e = Inr pid)")
    case False
    with Cons.prems(1) e have "ppStarted p' = ppStarted p1"
      by (auto simp: Let_def split: option.splits sum.splits)
    with frame show ?thesis by simp
  next
    case True
    then obtain pid where pid: "os_ctx e = None" "os_start e = Inr pid" by auto
    let ?h = "auto_hostname (os_nano e) i"
    let ?p = "p1\<lparr>ppProcesses := (ppProcesses p1)(?h \<mapsto> pid),
                ppStarted := ppStarted p1 @ [(?h, worker_cmd p1 binary ?h)]\<rparr>"
    have cmd: "worker_cmd ?p = worker_cmd p" by (simp add: frame(2) [symmetric] worker_cmd_def fun_eq_iff)
    from Cons.prems(1) e pid have "provision_loop binary rest ?p = (r, p')" by (simp add: Let_def)
    from Cons.IH [OF this] Cons.prems(2) obtain started where started: "ppStarted p' = ppStarted ?p @ started"
      "\<forall>(h, c)\<in>set started. \<exists>nano i. 0 \<le> i \<and> h = auto_hostname nano i \<and> c = worker_cmd p binary h"
      unfolding cmd by auto
    with frame Cons.prems(2) show ?thesis
      by (intro exI [of _ "(?h, worker_cmd p1 binary ?h) # started"]) auto
  qed
qed

lemma Provision_commands:
  assumes "ProcessProvisioner_Provision n p = (r, p')" "ppStarted p' = ppStarted p @ started" "(h, cmd) \<in> set started"
  obtains nano i binary where "0 \<le> i" "h = auto_hostname nano i" "cmd = worker_cmd p binary h"
proof -
  show ?thesis
  proof (cases "n \<le> 0 \<or> ppBinaryPath p = []")
    case True
    with assms show ?thesis by (auto simp: ProcessProvisioner_Provision_def split: if_splits)
  next
    case False
    with assms(1) obtain binary where "provision_loop binary [0..n - 1] p = (r, p')"
      by (auto simp: ProcessProvisioner_Provision_def)
    from provision_loop_commands [OF this] assms(2,3) that show ?thesis by fastforce
  qed
qed

text \<open>The settings of the command, as the process reads them.\<close>

lemma worker_cmd_env:
  "Getenv (cmdEnv (worker_cmd p binary h)) ''WORKER_HOSTNAME'' = h"
  "Getenv (cmdEnv (worker_cmd p binary h)) ''NATS_URL'' = ppNatsURL p"
  "Getenv (cmdEnv (worker_cmd p binary h)) ''CONTROL_PLANE_URL'' = ppControlPlaneURL p"
  by (simp_all add: Getenv_def worker_cmd_def)

lemma itoa_visible: "itoa i \<noteq> []" "visible (last (itoa i))"
proof -
  have "itoa i \<noteq> [] \<and> is_digit (last (itoa i))"
    by (simp add: itoa_def is_digit_nat_digits [OF last_in_set [OF nat_digits_nonempty]])
  then show "itoa i \<noteq> []" "visible (last (itoa i))" by (simp_all add: digit_visible)
qed

lemma auto_hostname_trimmed: "TrimSpace (auto_hostname nano i) = auto_hostname nano i"
proof (rule TrimSpace_visible)
  show "auto_hostname nano i \<noteq> []" by (simp add: auto_hostname_def)
  show "visible (hd (auto_hostname nano i))" by (simp add: auto_hostname_def auto_prefix_def visible_def)
  show "visible (last (auto_hostname nano i))" using itoa_visible [of i] by (simp add: auto_hostname_def)
qed

lemma LoadConfig_fields:
  assumes "LoadConfig read_file unmarshal env path = Inr cfg"
  shows "wcHostname cfg \<noteq> []" "wcURL cfg \<noteq> []" "0 < wcHeartbeatInterval cfg" "0 < wcPollingInterval cfg"
    "0 < wcCPUCount cfg" "0 < wcMemoryMB cfg"
    "env ''WORKER_HOSTNAME'' \<noteq> [] \<Longrightarrow> wcHostname cfg = env ''WORKER_HOSTNAME''"
    "env ''CONTROL_PLANE_URL'' \<noteq> [] \<Longrightarrow> wcURL cfg = env ''CONTROL_PLANE_URL''"
  using assms
  by (auto simp: LoadConfig_def WorkerConfig_Validate_def or_default_def Let_def split: sum.splits option.splits if_splits)

end
