(* ===== verification/Deployment.thy ===== *)
theory Deployment
  imports Config EndToEnd Histories
begin

text \<open>
  The programs of \<open>cmd/\<close> as they are put together: the server's collaborators from its configuration,
  the worker process from its configuration and its connections. The parts meet here: the provisioner
  starts a process, the process registers, and the autoscaler recognises the row.
\<close>

section \<open>The server\<close>

text \<open>The provisioner of the server, and the services around it (\<open>vulcan\<close>); nothing runs yet.\<close>

definition NewProcessProvisioner :: "string \<Rightarrow> string \<Rightarrow> string \<Rightarrow> string \<Rightarrow> string list \<Rightarrow> os_event list \<Rightarrow> ProcessProvisioner" where
  "NewProcessProvisioner binaryPath workingDir natsURL controlPlaneURL environ os =
     \<lparr>ppBinaryPath = binaryPath, ppWorkingDir = workingDir, ppNatsURL = natsURL,
      ppControlPlaneURL = controlPlaneURL, ppEnviron = environ, ppProcesses = (\<lambda>_. None), ppStarted = [],
      ppKilled = [], ppScript = os\<rparr>"

definition server_main ::
    "environment \<Rightarrow> (string \<Rightarrow> go_error option) \<Rightarrow> string list \<Rightarrow> os_event list \<Rightarrow>
     go_error + Config \<times> ProcessProvisioner \<times> control_plane" where
  "server_main env new_pool environ os =
     (case LoadServerConfig env of
        Inl err \<Rightarrow> Inl err
      | Inr cfg \<Rightarrow>
          (case new_pool (cfDatabaseURL cfg) of
             Some err \<Rightarrow> Inl err
           | None \<Rightarrow> Inr (cfg,
               NewProcessProvisioner (cfWorkerBinaryPath cfg) (cfWorkerWorkingDir cfg) (cfNATSURL cfg)
                 (cfControlPlaneURL cfg) environ os,
               vulcan (cfWorkerCapacityRPS cfg))))"

text \<open>\<open>db.New\<close>: the pool, and one ping over it.\<close>

definition db_New :: "(string \<Rightarrow> go_error option) \<Rightarrow> (string \<Rightarrow> go_error option) \<Rightarrow> string \<Rightarrow> go_error option" where
  "db_New new_pool ping url =
     (case new_pool url of
        Some err \<Rightarrow> Some (Wrapf ''failed to create database pool'' err)
      | None \<Rightarrow>
          (case ping url of
             Some err \<Rightarrow> Some (Wrapf ''failed to connect to database'' err)
           | None \<Rightarrow> None))"

section \<open>The worker\<close>

datatype level = LevelDebug | LevelInfo | LevelWarn | LevelError

definition log_level :: "string \<Rightarrow> level" where
  "log_level s =
     (if s = ''debug'' then LevelDebug else if s = ''warn'' then LevelWarn
      else if s = ''error'' then LevelError else LevelInfo)"

datatype exit = Panic go_error | Fatal go_error | Exit1 go_error

definition worker_main ::
    "(string \<Rightarrow> go_error + string) \<Rightarrow> (string \<Rightarrow> go_error + WorkerConfig) \<Rightarrow> environment \<Rightarrow>
     (string \<Rightarrow> go_error option) \<Rightarrow> exit + level \<times> WorkerConfig \<times> agent" where
  "worker_main read_file unmarshal env connect =
     (case LoadConfig read_file unmarshal env ''configs/worker.yaml'' of
        Inl err \<Rightarrow> Inl (Panic err)
      | Inr cfg \<Rightarrow>
          (case LoadWorkerConfig env of
             Inl err \<Rightarrow> Inl (Fatal err)
           | Inr envCfg \<Rightarrow>
               (case connect (cfNATSURL envCfg) of
                  Some err \<Rightarrow> Inl (Exit1 err)
                | None \<Rightarrow> Inr (log_level (wcLevel cfg), cfg, Worker_New cfg))))"

text \<open>\<open>aggregator.New\<close>: a connection, an empty store and a writer for the metrics store.\<close>

definition Writer_New :: "string \<Rightarrow> Writer" where
  "Writer_New url = \<lparr>vwURL = url\<rparr>"

definition Aggregator_New :: "(string \<Rightarrow> go_error option) \<Rightarrow> Config \<Rightarrow> go_error + aggregator \<times> Writer" where
  "Aggregator_New connect cfg =
     (case connect (cfNATSURL cfg) of
        Some err \<Rightarrow> Inl err
      | None \<Rightarrow> Inr (NewStore, Writer_New (cfVictoriaMetricsURL cfg)))"

definition aggregator_main :: "environment \<Rightarrow> (string \<Rightarrow> go_error option) \<Rightarrow> exit + Config \<times> aggregator \<times> Writer" where
  "aggregator_main env connect =
     (case LoadAggregatorConfig env of
        Inl err \<Rightarrow> Inl (Fatal err)
      | Inr cfg \<Rightarrow>
          (case Aggregator_New connect cfg of
             Inl err \<Rightarrow> Inl (Fatal err)
           | Inr (store, writer) \<Rightarrow> Inr (cfg, store, writer)))"

section \<open>From the provisioner to the fleet\<close>

lemma worker_main_config:
  assumes "worker_main read_file unmarshal env connect = Inr (lv, cfg, ag)"
  shows "LoadConfig read_file unmarshal env ''configs/worker.yaml'' = Inr cfg" "ag = Worker_New cfg"
  using assms by (auto simp: worker_main_def split: sum.splits option.splits)

lemma remote_registration:
  assumes "agreed_apis x c" "plain_base base"
    and "Worker_Register (connected x base c) (Worker_New cfg, w) = (Inr (), (ag, w'))"
  obtains v where "WorkerService_RegisterWorker (apNewID x) (apNow x)
      \<lparr>rqHostname = wcHostname cfg, rqVersion = wcVersion cfg, rqCPUCount = wcCPUCount cfg,
       rqMemoryMB = wcMemoryMB cfg\<rparr> w = (Inr v, w')" "agID ag = wID v"
proof -
  let ?r = "\<lparr>rwHostname = wcHostname cfg, rwVersion = wcVersion cfg, rwCPUCount = wcCPUCount cfg,
    rwMemoryMB = wcMemoryMB cfg\<rparr>"
  have "id_ok ''w''" by code_simp
  from assms(3) obtain resp where call: "Client_RegisterWorker (connected x base c) ?r w = (Inr resp, w')"
    and id: "agID ag = rrID resp"
    by (auto simp: Worker_Register_def Worker_New_def Let_def split: prod.splits sum.splits)
  from same_callD [OF remote_query(3) [OF assms(1,2) \<open>id_ok ''w''\<close>] call] obtain v where
    "WorkerService_RegisterWorker (apNewID x) (apNow x) (registration_request ?r) w = (Inr v, w')"
    "resp = registration_of v" by metis
  with that id show ?thesis by (simp add: registration_request_def registration_of_def)
qed

text \<open>C15: from the provisioner to the fleet. Whatever process the provisioner starts, when it comes up with
  the environment it was given, reads any file that loads, and registers over HTTP, then it registers at
  the provisioner's control plane, and the workers table gains exactly one row, an IDLE one, under
  exactly the hostname the provisioner knows the process by, which the autoscaler recognises as its own.\<close>

theorem provisioned_worker_is_managed:
  assumes "agreed_apis x c" "plain_base (ppControlPlaneURL p)"
    and "ProcessProvisioner_Provision n p = (r, p')"
    and "ppStarted p' = ppStarted p @ started" "(h, cmd) \<in> set started"
    and "worker_main read_file unmarshal (Getenv (cmdEnv cmd)) connect = Inr (lv, cfg, ag)"
    and "Worker_Register (connected x (wcURL cfg) c) (ag, w) = (Inr (), (ag', w'))"
  shows "wcURL cfg = ppControlPlaneURL p \<and>
    (\<exists>v. wdb w' = (db_seen w)\<lparr>dWorkers := dWorkers (db_seen w) @ [v]\<rparr> \<and> wID v = agID ag' \<and>
       wStatus v = WorkerStatusIdle \<and> wHostname v = h \<and> isAutoscalerManagedWorker (wHostname v))"
proof -
  from Provision_commands [OF assms(3-5)] obtain nano i binary where
    h: "h = auto_hostname nano i" and cmd: "cmd = worker_cmd p binary h" by blast
  note config = worker_main_config [OF assms(6)]
  have "h \<noteq> []" "ppControlPlaneURL p \<noteq> []"
    using assms(2) by (simp_all add: h auto_hostname_def auto_prefix_def plain_base_def)
  with LoadConfig_fields(7,8) [OF config(1)]
  have fields: "wcHostname cfg = h" "wcURL cfg = ppControlPlaneURL p" by (simp_all add: cmd worker_cmd_env)
  from assms(2) fields(2) have "plain_base (wcURL cfg)" by simp
  from remote_registration [OF assms(1) this assms(7) [unfolded config(2)]] obtain v where
    reg: "WorkerService_RegisterWorker (apNewID x) (apNow x)
      \<lparr>rqHostname = wcHostname cfg, rqVersion = wcVersion cfg, rqCPUCount = wcCPUCount cfg,
       rqMemoryMB = wcMemoryMB cfg\<rparr> w = (Inr v, w')" "agID ag' = wID v" .
  from RegisterWorker_stored(2) [OF reg(1)] have "wHostname v = h" "wStatus v = WorkerStatusIdle"
    by (simp_all add: fields(1) h auto_hostname_trimmed)
  with RegisterWorker_stored(4) [OF reg(1)] reg(2) fields(2) show ?thesis
    using auto_hostname_prefix [of nano i]
    by (auto simp: isAutoscalerManagedWorker_def h auto_prefix_def)
qed


section \<open>Examples\<close>

definition ex_file :: WorkerConfig where
  "ex_file = \<lparr>wcHostname = ''v'', wcVersion = ''1'', wcURL = ''http://x'', wcHeartbeatInterval = 5000000000,
     wcPollingInterval = 3000000000, wcCPUCount = 2, wcMemoryMB = 1024, wcLevel = ''info'',
     wcOverrideHostname = []\<rparr>"

definition ex_provisioner :: ProcessProvisioner where
  "ex_provisioner = NewProcessProvisioner ''/w'' ''/d'' ''nats'' ''http://c'' [] [quiet_os\<lparr>os_nano := 7\<rparr>]"

definition ex_hostname :: string where
  "ex_hostname = auto_hostname 7 0"

definition ex_config :: WorkerConfig where
  "ex_config = ex_file\<lparr>wcOverrideHostname := ex_hostname, wcHostname := ex_hostname, wcURL := ''http://c''\<rparr>"

lemma ex_provisioned:
  obtains r p' where "ProcessProvisioner_Provision 1 ex_provisioner = (r, p')"
    "ppStarted p' = ppStarted ex_provisioner @ [(ex_hostname, worker_cmd ex_provisioner ''/w'' ex_hostname)]"
  by (simp add: ProcessProvisioner_Provision_def ex_provisioner_def NewProcessProvisioner_def path_is_abs_def
      next_os_def quiet_os_def reap_def worker_cmd_def ex_hostname_def Let_def)

lemma ex_worker_main:
  "worker_main (\<lambda>_. Inr []) (\<lambda>_. Inr ex_file) (Getenv (cmdEnv (worker_cmd ex_provisioner ''/w'' ex_hostname)))
     (\<lambda>_. None) = Inr (LevelInfo, ex_config, Worker_New ex_config)"
proof -
  have "ppNatsURL ex_provisioner = ''nats''" "ppControlPlaneURL ex_provisioner = ''http://c''"
    by (simp_all add: ex_provisioner_def NewProcessProvisioner_def)
  moreover have "ex_hostname \<noteq> []" by (simp add: ex_hostname_def auto_hostname_def auto_prefix_def)
  ultimately show ?thesis
    by (simp add: worker_main_def LoadConfig_def LoadWorkerConfig_def load_def WorkerConfig_Validate_def worker_cmd_env
        or_default_def Let_def ex_config_def ex_file_def log_level_def)
qed

lemma ex_registration:
  obtains ag w' where "Worker_Register (connected ex_api ''http://c'' ex_codec) (Worker_New ex_config, ex_world ex_fleet) =
    (Inr (), (ag, w'))"
proof -
  let ?r = "\<lparr>rwHostname = ex_hostname, rwVersion = ''1'', rwCPUCount = 2, rwMemoryMB = 1024\<rparr>"
  have ids: "id_ok ''w''" "plain_base ''http://c''" by code_simp+
  have hostname: "TrimSpace ex_hostname = ex_hostname" "ex_hostname \<noteq> []"
    by (simp_all add: ex_hostname_def auto_hostname_trimmed) (simp add: auto_hostname_def auto_prefix_def)
  obtain v w' where "WorkerService_RegisterWorker (apNewID ex_api) (apNow ex_api) (registration_request ?r)
      (ex_world ex_fleet) = (Inr v, w')"
    by (simp add: ex_eval ex_service hostname registration_request_def ex_api_def Required_def
        WorkerService_RegisterWorker_def WorkerRepo_CreateWorker_def sql_insert_worker_def ex_db_defs)
  from same_call_ok [OF remote_query(3) [OF ex_agreed ids(2,1)] this]
  have "Client_RegisterWorker (connected ex_api ''http://c'' ex_codec) ?r (ex_world ex_fleet) =
    (Inr (registration_of v), w')" .
  then show ?thesis
    by (intro that) (simp add: Worker_Register_def Worker_New_def ex_config_def ex_file_def Let_def)
qed

theorem provisioned_worker_is_managed_witness:
  "\<exists>ag w' v. Worker_Register (connected ex_api ''http://c'' ex_codec) (Worker_New ex_config, ex_world ex_fleet) =
      (Inr (), (ag, w')) \<and>
    dWorkers (wdb w') = dWorkers ex_fleet @ [v] \<and> wHostname v = ''vulcan-auto-worker-7-0''"
proof -
  have base: "plain_base (ppControlPlaneURL ex_provisioner)"
    by (simp add: ex_provisioner_def NewProcessProvisioner_def plain_base_def)
  obtain r p' where prov: "ProcessProvisioner_Provision 1 ex_provisioner = (r, p')"
    "ppStarted p' = ppStarted ex_provisioner @ [(ex_hostname, worker_cmd ex_provisioner ''/w'' ex_hostname)]"
    by (rule ex_provisioned)
  obtain ag w' where reg: "Worker_Register (connected ex_api ''http://c'' ex_codec)
      (Worker_New ex_config, ex_world ex_fleet) = (Inr (), (ag, w'))" by (rule ex_registration)
  have url: "wcURL ex_config = ''http://c''" by (simp add: ex_config_def)
  have name: "ex_hostname = ''vulcan-auto-worker-7-0''"
    by (simp add: ex_hostname_def auto_hostname_def auto_prefix_def itoa_def nat_digits.simps digit_char_def)
  from provisioned_worker_is_managed [OF ex_agreed base prov(1) prov(2) list.set_intros(1) ex_worker_main, unfolded url, OF reg]
  obtain v where "wdb w' = (db_seen (ex_world ex_fleet))\<lparr>dWorkers := dWorkers (db_seen (ex_world ex_fleet)) @ [v]\<rparr>"
    "wHostname v = ex_hostname" by blast
  with reg name show ?thesis by (intro exI [of _ ag] exI [of _ w'] exI [of _ v]) simp
qed


end
