(* ===== verification/Runtime.thy ===== *)
theory Runtime
  imports EndToEnd Assignments
begin

text \<open>
  \<open>internal/worker/runtime.go\<close>: the running worker process. After the registration two goroutines share
  the worker's status, the heartbeat loop and the poll loop. The poll loop is a machine that takes one
  step per access to the status and per call to the control plane, so that heartbeats can fall between
  any two of them.
\<close>

section \<open>The two goroutines\<close>

text \<open>Where the poll loop is: between two polls, holding an assignment, with its status set to RUNNING,
  executing, about to report, and about to set its status back.\<close>

datatype poller =
    Polling
  | Fetched AssignmentResponse
  | Announced AssignmentResponse
  | Executing AssignmentResponse Collector bool
  | Ended AssignmentResponse "go_error option"
  | Leaving "go_error + unit"

text \<open>\<open>prBeats\<close> records the status of each heartbeat and whether the poll loop was busy; the program does
  not keep it.\<close>

record 's process =
  prAgent :: agent
  prServer :: 's
  prPoller :: poller
  prPublished :: "MetricBucket list"
  prBeats :: "(string \<times> bool) list"

definition busy :: "poller \<Rightarrow> bool" where
  "busy p = (case p of Polling \<Rightarrow> False | Fetched a \<Rightarrow> False | _ \<Rightarrow> True)"

datatype runtime_event =
    HeartbeatTick
  | PollTick
  | Announce
  | CallStart time
  | ExecStep exec_event
  | CallReport bool
  | Leave

text \<open>One round of the select loop of \<open>execute\<close>.\<close>

fun exec_step ::
    "'s Client \<Rightarrow> string \<Rightarrow> exec_event \<Rightarrow> Collector \<Rightarrow> bool \<Rightarrow> MetricBucket list \<Rightarrow> 's \<Rightarrow>
     (go_error option + Collector \<times> bool) \<times> MetricBucket list \<times> 's" where
  "exec_step k testID (Recorded r) c stopped published s =
     (Inr (Collector_Record (request_result r) c, stopped), published, s)"
| "exec_step k testID (FlushTick now) c stopped published s =
     (case check_stopped k testID stopped s of
        (stopped', s') \<Rightarrow>
          (case Collector_Flush now c of
             (bucket, c') \<Rightarrow> (Inr (c', stopped'), offer bucket published, s')))"
| "exec_step k testID (ParentDone err) c stopped published s = (Inl (Some err), published, s)"
| "exec_step k testID (EngineDone err now) c stopped published s =
     (case Collector_Flush now c of
        (bucket, c') \<Rightarrow> (Inl (if stopped then Some ErrAssignmentStopped else err), offer_final bucket published, s))"

fun runtime_step :: "'s Client \<Rightarrow> runtime_event \<Rightarrow> 's process \<Rightarrow> 's process option" where
  "runtime_step k HeartbeatTick pr =
     (case Worker_sendHeartbeat k (prAgent pr, prServer pr) of
        (r, (ag, s)) \<Rightarrow>
          Some (pr\<lparr>prAgent := ag, prServer := s,
                  prBeats := prBeats pr @ [(agStatus (prAgent pr), busy (prPoller pr))]\<rparr>))"
| "runtime_step k PollTick pr =
     (case prPoller pr of
        Polling \<Rightarrow>
          (case Client_GetAssignment k (agID (prAgent pr)) (prServer pr) of
             (Inl err, s) \<Rightarrow> Some (pr\<lparr>prServer := s\<rparr>)
           | (Inr a, s) \<Rightarrow> Some (pr\<lparr>prServer := s, prPoller := (if arAssigned a then Fetched a else Polling)\<rparr>))
      | _ \<Rightarrow> None)"
| "runtime_step k Announce pr =
     (case prPoller pr of
        Fetched a \<Rightarrow> Some (pr\<lparr>prAgent := set_status WorkerStatusRunning (prAgent pr), prPoller := Announced a\<rparr>)
      | _ \<Rightarrow> None)"
| "runtime_step k (CallStart now) pr =
     (case prPoller pr of
        Announced a \<Rightarrow>
          (case Client_StartAssignment k (agID (prAgent pr)) (arTestID a) (prServer pr) of
             (Inl err, s) \<Rightarrow> Some (pr\<lparr>prServer := s, prPoller := Leaving (Inl err)\<rparr>)
           | (Inr u, s) \<Rightarrow> Some (pr\<lparr>prServer := s,
               prPoller := Executing a (NewCollector (arTestID a) (agID (prAgent pr)) now) False\<rparr>))
      | _ \<Rightarrow> None)"
| "runtime_step k (ExecStep ev) pr =
     (case prPoller pr of
        Executing a c stopped \<Rightarrow>
          (case exec_step k (arTestID a) ev c stopped (prPublished pr) (prServer pr) of
             (Inl err, published, s) \<Rightarrow>
               Some (pr\<lparr>prServer := s, prPublished := published, prPoller := Ended a err\<rparr>)
           | (Inr (c', stopped'), published, s) \<Rightarrow>
               Some (pr\<lparr>prServer := s, prPublished := published, prPoller := Executing a c' stopped'\<rparr>))
      | _ \<Rightarrow> None)"
| "runtime_step k (CallReport shutdown) pr =
     (case prPoller pr of
        Ended a (Some err) \<Rightarrow>
          (if errors_is err WorkerErrAssignmentStopped then Some (pr\<lparr>prPoller := Leaving (Inr ())\<rparr>)
           else if shutdown then Some (pr\<lparr>prPoller := Leaving (Inl err)\<rparr>)
           else Some (pr\<lparr>prServer := snd (Client_FailAssignment k (agID (prAgent pr)) (arTestID a) (prServer pr)),
                        prPoller := Leaving (Inl err)\<rparr>))
      | Ended a None \<Rightarrow>
          (case Client_CompleteAssignment k (agID (prAgent pr)) (arTestID a) (prServer pr) of
             (r, s) \<Rightarrow> Some (pr\<lparr>prServer := s, prPoller := Leaving r\<rparr>))
      | _ \<Rightarrow> None)"
| "runtime_step k Leave pr =
     (case prPoller pr of
        Leaving r \<Rightarrow> Some (pr\<lparr>prAgent := set_status WorkerStatusIdle (prAgent pr), prPoller := Polling\<rparr>)
      | _ \<Rightarrow> None)"

fun runtime_run :: "'s Client \<Rightarrow> runtime_event list \<Rightarrow> 's process \<Rightarrow> 's process option" where
  "runtime_run k [] pr = Some pr"
| "runtime_run k (e # es) pr =
     (case runtime_step k e pr of None \<Rightarrow> None | Some pr' \<Rightarrow> runtime_run k es pr')"

definition started :: "agent \<Rightarrow> 's \<Rightarrow> 's process" where
  "started ag s = \<lparr>prAgent = ag, prServer = s, prPoller = Polling, prPublished = [], prBeats = []\<rparr>"

text \<open>The process until its context ends: an error of the registration, or the state the two goroutines
  left behind. \<open>None\<close> is a registration that goes on, or a list of events that is no run.\<close>

definition Runtime_Start ::
    "'s Client \<Rightarrow> wake list \<Rightarrow> runtime_event list \<Rightarrow> agent \<times> 's \<Rightarrow> (go_error + 's process) option" where
  "Runtime_Start k wakes es st =
     (case Runtime_registerWithRetry k wakes st of
        ((None, waits), st') \<Rightarrow> None
      | ((Some (Inl err), waits), st') \<Rightarrow> Some (Inl err)
      | ((Some (Inr u), waits), (ag, s)) \<Rightarrow> map_option Inr (runtime_run k es (started ag s)))"

lemma runtime_run_append:
  "runtime_run k (es @ fs) pr = (case runtime_run k es pr of None \<Rightarrow> None | Some pr' \<Rightarrow> runtime_run k fs pr')"
  by (induction es arbitrary: pr) (simp_all split: option.split)

lemma runtime_run_invariant:
  assumes "runtime_run k es pr = Some pr'" "P pr"
    and "\<And>e pr pr'. P pr \<Longrightarrow> e \<in> set es \<Longrightarrow> runtime_step k e pr = Some pr' \<Longrightarrow> P pr'"
  shows "P pr'"
  using assms
proof (induction es arbitrary: pr)
  case (Cons e es)
  from Cons.prems(1) obtain q where q: "runtime_step k e pr = Some q" "runtime_run k es q = Some pr'"
    by (auto split: option.splits)
  have "P q" by (rule Cons.prems(3) [OF Cons.prems(2) _ q(1)]) simp
  with q(2) show ?case by (rule Cons.IH) (rule Cons.prems(3); simp)
qed simp

section \<open>The poll loop alone\<close>

text \<open>The select loop is the iteration of its rounds.\<close>

lemma execute_loop_step:
  "execute_loop k tid (e # evs) c stopped published s =
     (case exec_step k tid e c stopped published s of
        (Inl r, published', s') \<Rightarrow> (Some r, published', s')
      | (Inr (c', stopped'), published', s') \<Rightarrow> execute_loop k tid evs c' stopped' published' s')"
  by (cases e) (simp_all split: prod.split)

lemma execute_loop_runs:
  assumes "execute_loop k (arTestID a) evs c stopped (prPublished pr) (prServer pr) = (Some r, bs, s')"
    and "prPoller pr = Executing a c stopped"
  shows "\<exists>es. HeartbeatTick \<notin> set es \<and>
    runtime_run k es pr = Some (pr\<lparr>prServer := s', prPublished := bs, prPoller := Ended a r\<rparr>)"
  using assms
proof (induction evs arbitrary: c stopped pr)
  case (Cons e evs)
  obtain q pub s1 where step: "exec_step k (arTestID a) e c stopped (prPublished pr) (prServer pr) = (q, pub, s1)"
    by (metis prod_cases3)
  show ?case
  proof (cases q)
    case (Inl r1)
    with Cons.prems step show ?thesis
      by (intro exI [of _ "[ExecStep e]"]) (simp add: execute_loop_step del: execute_loop.simps)
  next
    case (Inr y)
    obtain c' stopped' where y: "y = (c', stopped')" by fastforce
    let ?pr = "pr\<lparr>prServer := s1, prPublished := pub, prPoller := Executing a c' stopped'\<rparr>"
    from Cons.prems step Inr y
    have "execute_loop k (arTestID a) evs c' stopped' (prPublished ?pr) (prServer ?pr) = (Some r, bs, s')"
      by (simp add: execute_loop_step del: execute_loop.simps)
    from Cons.IH [OF this] obtain es where "HeartbeatTick \<notin> set es"
      "runtime_run k es ?pr = Some (?pr\<lparr>prServer := s', prPublished := bs, prPoller := Ended a r\<rparr>)" by auto
    with Cons.prems(2) step Inr y show ?thesis by (intro exI [of _ "ExecStep e # es"]) simp
  qed
qed simp

text \<open>From the announcement on, the poll loop without heartbeats is \<open>processAssignment\<close>.\<close>

lemma processAssignment_runs:
  assumes "Worker_processAssignment k a evs now shutdown (ag, s) = (Some r, bs, (ag', s'))"
  shows "\<exists>es. HeartbeatTick \<notin> set es \<and>
    runtime_run k es \<lparr>prAgent = set_status WorkerStatusRunning ag, prServer = s, prPoller = Announced a,
      prPublished = [], prBeats = []\<rparr> = Some ((started ag' s')\<lparr>prPublished := bs\<rparr>)"
    (is "\<exists>es. _ \<and> runtime_run k es ?pr = _")
proof -
  obtain q2 s2 where start: "Client_StartAssignment k (agID ag) (arTestID a) s = (q2, s2)" by fastforce
  show ?thesis
  proof (cases q2)
    case (Inl err)
    with assms start have "ag' = set_status WorkerStatusIdle (set_status WorkerStatusRunning ag)" "s' = s2" "bs = []"
      by (auto simp: Worker_processAssignment_def idle_agent Let_def)
    with Inl start show ?thesis
      by (intro exI [of _ "[CallStart now, Leave]"]) (simp add: idle_agent started_def)
  next
    case (Inr u)
    let ?c = "NewCollector (arTestID a) (agID ag) now"
    obtain res pub s3 where exec: "execute_loop k (arTestID a) evs ?c False [] s2 = (res, pub, s3)"
      by (metis prod_cases3)
    note proc = processAssignment_executed [OF start [unfolded Inr] exec]
    from assms obtain e where res: "res = Some e" by (cases res) (auto simp: proc Let_def)
    let ?ex = "?pr\<lparr>prServer := s2, prPoller := Executing a ?c False\<rparr>"
    from execute_loop_runs [of k a evs ?c False ?ex e pub s3] exec res obtain es where es:
      "HeartbeatTick \<notin> set es"
      "runtime_run k es ?ex = Some (?ex\<lparr>prServer := s3, prPublished := pub, prPoller := Ended a e\<rparr>)" by auto
    have "runtime_run k (CallStart now # es @ [CallReport shutdown, Leave]) ?pr =
        Some ((started ag' s')\<lparr>prPublished := bs\<rparr>)"
      using assms start Inr res es
      by (cases e) (auto simp: proc idle_agent Let_def runtime_run_append started_def
          split: prod.splits sum.splits if_splits)
    with es(1) show ?thesis by (intro exI [of _ "CallStart now # es @ [CallReport shutdown, Leave]"]) simp
  qed
qed

text \<open>The poll loop between heartbeats is \<open>poll\<close>. When a poll comes to its end in the coarse model, which
  runs it as one function, the machine has a run without heartbeats from the same state to the same
  state: the same status and server, the same buckets published, ready for the next poll. What is proved of
  \<open>processAssignment\<close> therefore holds of the running process.\<close>

theorem runtime_refines_poll:
  assumes "Worker_poll k evs now shutdown (ag, s) = (Some r, bs, (ag', s'))"
  shows "\<exists>es. HeartbeatTick \<notin> set es \<and>
    runtime_run k es (started ag s) = Some ((started ag' s')\<lparr>prPublished := bs\<rparr>)"
proof -
  obtain q s1 where fetch: "Client_GetAssignment k (agID ag) s = (q, s1)" by fastforce
  show ?thesis
  proof (cases "\<exists>a. q = Inr a \<and> arAssigned a")
    case False
    with assms fetch have "ag' = ag" "s' = s1" "bs = []"
      by (auto simp: Worker_poll_def split: sum.splits)
    with False fetch show ?thesis
      by (intro exI [of _ "[PollTick]"]) (auto simp: started_def split: sum.splits)
  next
    case True
    then obtain a where a: "q = Inr a" "arAssigned a" by blast
    with assms fetch have "Worker_processAssignment k a evs now shutdown (ag, s1) = (Some r, bs, (ag', s'))"
      by (simp add: Worker_poll_def)
    from processAssignment_runs [OF this] fetch a show ?thesis
      by (elim exE) (rule exI [of _ "PollTick # Announce # _"], simp add: started_def)
  qed
qed

section \<open>Heartbeats in between\<close>

definition told :: "bool \<Rightarrow> string" where
  "told b = (if b then ''RUNNING'' else ''IDLE'')"

definition truthful :: "string \<Rightarrow> 's process \<Rightarrow> bool" where
  "truthful wid pr \<longleftrightarrow> agID (prAgent pr) = wid \<and> agStatus (prAgent pr) = told (busy (prPoller pr)) \<and>
     list_all (\<lambda>(st, b). st = told b) (prBeats pr)"

lemma heartbeat_agent:
  "Worker_sendHeartbeat k (ag, s) = (r, (ag', s')) \<Longrightarrow> ag' = ag \<and> s' = snd (Client_Heartbeat k (agID ag) (agStatus ag) s)"
  by (auto simp: Worker_sendHeartbeat_def remote_def split: prod.splits)

lemma heartbeat_step:
  "runtime_step k HeartbeatTick pr =
     Some (pr\<lparr>prServer := snd (Client_Heartbeat k (agID (prAgent pr)) (agStatus (prAgent pr)) (prServer pr)),
             prBeats := prBeats pr @ [(agStatus (prAgent pr), busy (prPoller pr))]\<rparr>)"
  by (simp add: Worker_sendHeartbeat_def remote_def split_beta)

lemma set_status_told:
  "agStatus (set_status WorkerStatusRunning ag) = told True" "agStatus (set_status WorkerStatusIdle ag) = told False"
  "agID (set_status st ag) = agID ag"
  by (simp_all add: set_status_def told_def)

lemma busy_simps [simp]:
  "\<not> busy Polling" "\<not> busy (Fetched a)" "busy (Announced a)" "busy (Executing a c st)" "busy (Ended a e)" "busy (Leaving r)"
  by (simp_all add: busy_def)

lemma truthful_step:
  assumes "truthful wid pr" "runtime_step k e pr = Some pr'"
  shows "truthful wid pr'"
proof (cases e)
  case HeartbeatTick
  with assms show ?thesis by (auto simp: truthful_def heartbeat_step simp del: runtime_step.simps(1))
next
  case PollTick
  with assms show ?thesis by (cases "prPoller pr") (auto simp: truthful_def split: prod.splits sum.splits)
next
  case Announce
  with assms show ?thesis by (cases "prPoller pr") (auto simp: truthful_def set_status_told)
next
  case (CallStart now)
  with assms show ?thesis by (cases "prPoller pr") (auto simp: truthful_def split: prod.splits sum.splits)
next
  case (ExecStep ev)
  show ?thesis
  proof (cases "prPoller pr")
    case (Executing a c st)
    obtain q pub s where "exec_step k (arTestID a) ev c st (prPublished pr) (prServer pr) = (q, pub, s)"
      by (metis prod_cases3)
    with assms ExecStep Executing show ?thesis by (cases q) (auto simp: truthful_def)
  qed (use assms ExecStep in simp_all)
next
  case (CallReport sd)
  show ?thesis
  proof (cases "prPoller pr")
    case (Ended a err)
    with assms CallReport show ?thesis
      by (cases err) (auto simp: truthful_def split: prod.splits if_splits)
  qed (use assms CallReport in simp_all)
next
  case Leave
  with assms show ?thesis by (cases "prPoller pr") (auto simp: truthful_def set_status_told)
qed

lemma truthful_run:
  "runtime_run k es pr = Some pr' \<Longrightarrow> truthful wid pr \<Longrightarrow> truthful wid pr'"
  by (erule runtime_run_invariant) (auto intro: truthful_step)

text \<open>Heartbeats tell the truth about the worker. From the registration on, in every interleaving of the
  two loops and whatever the control plane answers, every heartbeat carries RUNNING while the poll loop
  is busy with an assignment and IDLE otherwise, and always the identifier of the registration.\<close>

theorem heartbeats_tell_truth:
  assumes "runtime_run k es (started ag s) = Some pr" "agStatus ag = ''IDLE''"
  shows "list_all (\<lambda>(st, b). st = (if b then ''RUNNING'' else ''IDLE'')) (prBeats pr) \<and>
    agStatus (prAgent pr) = (if busy (prPoller pr) then ''RUNNING'' else ''IDLE'') \<and> agID (prAgent pr) = agID ag"
proof -
  have "truthful (agID ag) (started ag s)"
    using assms(2) by (simp add: truthful_def started_def told_def)
  from truthful_run [OF assms(1) this] show ?thesis by (simp add: truthful_def told_def)
qed

section \<open>The row of an executing worker\<close>

definition row_status :: "string \<Rightarrow> WorkerStatus \<Rightarrow> db \<Rightarrow> bool" where
  "row_status wid st d \<longleftrightarrow> wid \<in> wID ` set (dWorkers d) \<and> (\<forall>v\<in>set (dWorkers d). wID v = wid \<longrightarrow> wStatus v = st)"

definition holds_assignment :: "string \<Rightarrow> string \<Rightarrow> AssignmentStatus \<Rightarrow> db \<Rightarrow> bool" where
  "holds_assignment tid wid st d \<longleftrightarrow>
     (\<exists>a\<in>set (dAssignments d). aTestID a = tid \<and> aWorkerID a = wid \<and> aStatus a = st)"

lemma row_status_update:
  assumes "row_status wid old d" "dWorkers d' = update_where (\<lambda>w. wID w = wid \<and> wStatus w = old) (worker_to new t) (dWorkers d)"
  shows "row_status wid new d'"
proof -
  from assms(1) obtain v where v: "v \<in> set (dWorkers d)" "wID v = wid" "wStatus v = old"
    by (auto simp: row_status_def)
  then have "worker_to new t v \<in> set (dWorkers d')"
    unfolding assms(2) by (intro in_update_where_hit) simp_all
  moreover have "wID (worker_to new t v) = wid" using v(2) by simp
  ultimately have "wid \<in> wID ` set (dWorkers d')" by (metis image_eqI)
  moreover have "wStatus u = new" if "u \<in> set (dWorkers d')" "wID u = wid" for u
    using that(1) unfolding assms(2)
  proof (cases rule: in_update_whereE)
    case (1 y)
    then show ?thesis by simp
  next
    case 2
    with that(2) assms(1) show ?thesis by (auto simp: row_status_def)
  qed
  ultimately show ?thesis by (simp add: row_status_def)
qed

text \<open>A heartbeat of a worker whose row is IDLE or RUNNING sets the row to what it says.\<close>

lemma heartbeat_row:
  assumes "quiet w" "row_status wid old (wdb w)" "old = WorkerStatusIdle \<or> old = WorkerStatusRunning"
    and "snd (WorkerService_Heartbeat now wid (told b) w) = w'"
  shows "quiet w' \<and> row_status wid (if b then WorkerStatusRunning else WorkerStatusIdle) (wdb w') \<and>
    dAssignments (wdb w') = dAssignments (wdb w)"
proof -
  have "wid \<in> wID ` set (dWorkers (wdb w))" using assms(2) by (simp add: row_status_def)
  with Heartbeat_effect [OF assms(1), of now wid "told b"] assms(1,4) have
    w': "w' = w\<lparr>wdb := (wdb w)\<lparr>dWorkers := map (\<lambda>v.
        if wID v \<noteq> wid then v
        else if wStatus v = WorkerStatusIdle \<or> wStatus v = WorkerStatusRunning
        then v\<lparr>wStatus := (if b then WorkerStatusRunning else WorkerStatusIdle), wLastHeartbeat := now, wUpdatedAt := now\<rparr>
        else v\<lparr>wLastHeartbeat := now, wUpdatedAt := now\<rparr>) (dWorkers (wdb w))\<rparr>\<rparr>"
    by (cases b) (auto simp: told_def)
  have "map wID (dWorkers (wdb w')) = map wID (dWorkers (wdb w))"
    by (simp add: w' comp_def if_distrib [of wID] cong: if_cong)
  then have "wID ` set (dWorkers (wdb w')) = wID ` set (dWorkers (wdb w))" by (metis list.set_map)
  then have "row_status wid (if b then WorkerStatusRunning else WorkerStatusIdle) (wdb w')"
    using assms(2,3) unfolding row_status_def by (auto simp: w')
  then show ?thesis using assms(1) by (simp add: w')
qed

lemma remote_heartbeat:
  assumes "agreed_apis x c" "plain_base base" "id_ok wid"
  shows "snd (Client_Heartbeat (connected x base c) wid st w) = snd (WorkerService_Heartbeat (apNow x) wid st w)"
  using remote_transition(4) [OF assms] unfolding same_call_def by blast

lemma exec_step_quiet:
  assumes "agreed_apis x c" "plain_base base" "id_ok tid" "quiet w"
    and "exec_step (connected x base c) tid ev co stopped published w = (r, bs, w')"
  shows "w' = w"
  using assms(5) status_query_quiet [OF assms(1-4)]
  by (cases ev) (auto simp: check_stopped_def split: if_splits prod.splits sum.splits)

definition executing :: "string \<Rightarrow> string \<Rightarrow> 'p world process \<Rightarrow> bool" where
  "executing tid wid pr \<longleftrightarrow> truthful wid pr \<and> quiet (prServer pr) \<and>
     (case prPoller pr of Executing a co st \<Rightarrow> arTestID a = tid | Ended a e \<Rightarrow> arTestID a = tid | _ \<Rightarrow> False) \<and>
     row_status wid WorkerStatusRunning (wdb (prServer pr)) \<and>
     holds_assignment tid wid AssignmentStatusRunning (wdb (prServer pr))"

definition beat_or_exec :: "runtime_event \<Rightarrow> bool" where
  "beat_or_exec e = (case e of HeartbeatTick \<Rightarrow> True | ExecStep ev \<Rightarrow> True | _ \<Rightarrow> False)"

lemma executing_step:
  assumes "agreed_apis x c" "plain_base base" "id_ok tid" "id_ok wid"
    and "executing tid wid pr" "beat_or_exec e" "runtime_step (connected x base c) e pr = Some pr'"
  shows "executing tid wid pr'"
proof -
  have truth: "truthful wid pr'" using assms(5,7) truthful_step by (auto simp: executing_def)
  show ?thesis
  proof (cases e)
    case HeartbeatTick
    obtain r ag s where beat: "Worker_sendHeartbeat (connected x base c) (prAgent pr, prServer pr) = (r, (ag, s))"
      by (metis prod_cases3)
    have busy: "busy (prPoller pr)" using assms(5) by (cases "prPoller pr") (auto simp: executing_def)
    with assms(5) have who: "agID (prAgent pr) = wid" "agStatus (prAgent pr) = told True"
      by (auto simp: executing_def truthful_def)
    with heartbeat_agent [OF beat] remote_heartbeat [OF assms(1,2,4)]
    have s: "snd (WorkerService_Heartbeat (apNow x) wid (told True) (prServer pr)) = s" by metis
    from assms(5) have "quiet (prServer pr)" "row_status wid WorkerStatusRunning (wdb (prServer pr))"
      by (simp_all add: executing_def)
    from heartbeat_row [OF this disjI2 [OF refl] s] have
      "quiet s" "row_status wid WorkerStatusRunning (wdb s)" "dAssignments (wdb s) = dAssignments (wdb (prServer pr))"
      by simp_all
    with beat HeartbeatTick assms(5,7) truth show ?thesis
      by (auto simp: executing_def holds_assignment_def)
  next
    case (ExecStep ev)
    from assms(5) have quiet: "quiet (prServer pr)" by (simp add: executing_def)
    show ?thesis
    proof (cases "prPoller pr")
      case (Executing a co st)
      with assms(5) have tid: "arTestID a = tid" by (simp add: executing_def)
      obtain q pub s where step: "exec_step (connected x base c) tid ev co st (prPublished pr) (prServer pr) = (q, pub, s)"
        by (metis prod_cases3)
      from exec_step_quiet [OF assms(1-3) quiet step] have "s = prServer pr" .
      with step assms(5,7) ExecStep Executing tid truth show ?thesis
        by (cases q) (auto simp: executing_def)
    qed (use assms(7) ExecStep in simp_all)
  qed (use assms(6) in \<open>simp_all add: beat_or_exec_def\<close>)
qed

lemma started_row:
  assumes "mark_running_post tid wid d d' u" "row_status wid WorkerStatusReserved d"
  shows "row_status wid WorkerStatusRunning d'" "holds_assignment tid wid AssignmentStatusRunning d'"
proof -
  let ?P = "\<lambda>a. aTestID a = tid \<and> aWorkerID a = wid \<and> aStatus a = AssignmentStatusReserved"
  from assms(1) have post: "\<exists>a\<in>set (dAssignments d). ?P a"
    "dAssignments d' = update_where ?P (assignment_started (dNow d)) (dAssignments d)"
    "dWorkers d' = update_where (\<lambda>w. wID w = wid \<and> wStatus w = WorkerStatusReserved)
      (worker_to WorkerStatusRunning (dNow d)) (dWorkers d)"
    by (simp_all add: mark_running_post_def Let_def)
  from assms(2) post(3) show "row_status wid WorkerStatusRunning d'" by (rule row_status_update)
  from post(1) obtain a where "a \<in> set (dAssignments d)" "?P a" by blast
  then have "assignment_started (dNow d) a \<in> set (dAssignments d')"
    unfolding post(2) by (rule in_update_where_hit)
  with \<open>?P a\<close> show "holds_assignment tid wid AssignmentStatusRunning d'"
    unfolding holds_assignment_def by (intro bexI [of _ "assignment_started (dNow d) a"]) simp_all
qed

lemma completed_row:
  assumes "mark_completed_post tid wid d d' u" "row_status wid WorkerStatusRunning d"
  shows "row_status wid WorkerStatusIdle d'" "holds_assignment tid wid AssignmentStatusCompleted d'"
    "\<not> holds_assignment tid wid AssignmentStatusRunning d'"
proof -
  let ?P = "\<lambda>a. aTestID a = tid \<and> aWorkerID a = wid \<and> aStatus a = AssignmentStatusRunning"
  from assms(1) have post: "\<exists>a\<in>set (dAssignments d). ?P a"
    "dAssignments d' = update_where ?P (assignment_done AssignmentStatusCompleted (dNow d)) (dAssignments d)"
    "dWorkers d' = update_where (\<lambda>w. wID w = wid \<and> wStatus w = WorkerStatusRunning)
      (worker_to WorkerStatusIdle (dNow d)) (dWorkers d)"
    by (simp_all add: mark_completed_post_def Let_def)
  from assms(2) post(3) show "row_status wid WorkerStatusIdle d'" by (rule row_status_update)
  from post(1) obtain a where "a \<in> set (dAssignments d)" "?P a" by blast
  then have "assignment_done AssignmentStatusCompleted (dNow d) a \<in> set (dAssignments d')"
    unfolding post(2) by (rule in_update_where_hit)
  with \<open>?P a\<close> show "holds_assignment tid wid AssignmentStatusCompleted d'"
    unfolding holds_assignment_def
    by (intro bexI [of _ "assignment_done AssignmentStatusCompleted (dNow d) a"]) simp_all
  show "\<not> holds_assignment tid wid AssignmentStatusRunning d'"
  proof
    assume "holds_assignment tid wid AssignmentStatusRunning d'"
    then obtain a where "a \<in> set (dAssignments d')" and a: "?P a" by (auto simp: holds_assignment_def)
    from this(1) show False unfolding post(2)
      by (cases rule: in_update_whereE) (use a in simp_all)
  qed
qed

lemma start_executes:
  assumes "agreed_apis x c" "plain_base base" "id_ok wid"
    and "truthful wid pr" "quiet (prServer pr)" "row_status wid WorkerStatusReserved (wdb (prServer pr))"
    and "runtime_step (connected x base c) (CallStart now) pr = Some pr'"
    and "prPoller pr = Announced a" "\<forall>err. prPoller pr' \<noteq> Leaving (Inl err)"
  shows "executing (arTestID a) wid pr'"
proof -
  let ?k = "connected x base c"
  have truth: "truthful wid pr'" using assms(4,7) by (rule truthful_step)
  have id: "agID (prAgent pr) = wid" using assms(4) by (simp add: truthful_def)
  obtain q s where call: "Client_StartAssignment ?k wid (arTestID a) (prServer pr) = (q, s)" by fastforce
  with assms(7-9) id obtain u where q: "q = Inr u" and
    pr': "prServer pr' = s" "prPoller pr' = Executing a (NewCollector (arTestID a) wid now) False"
    by (cases q) auto
  from same_callD [OF remote_transition(1) [OF assms(1-3)] call [unfolded q]]
  have local: "WorkerService_StartAssignment (arTestID a) wid (prServer pr) = (Inr u, s)" by metis
  have "quiet s" using frame_services(1) assms(5) local by (rule quiet_after)
  with started_row [OF start_success [OF assms(5) local] assms(6)] truth pr' show ?thesis
    by (simp add: executing_def)
qed

lemma executing_run:
  assumes "agreed_apis x c" "plain_base base" "id_ok tid" "id_ok wid"
    and "runtime_run (connected x base c) es pr = Some pr'" "executing tid wid pr" "list_all beat_or_exec es"
  shows "executing tid wid pr'"
  using assms(5,6)
proof (rule runtime_run_invariant)
  fix e q q'
  assume "executing tid wid q" "e \<in> set es" "runtime_step (connected x base c) e q = Some q'"
  with executing_step [OF assms(1-4)] assms(7) show "executing tid wid q'" by (auto simp: list_all_iff)
qed

text \<open>C13: an executing worker stays RUNNING in the tables. The worker process is connected to a control
  plane nobody else is using and has announced an assignment it is RESERVED for. Once the start call has
  succeeded, whatever the execution does and however many heartbeats fall in between, the row of the
  worker stays RUNNING and its assignment stays RUNNING, so neither a start nor the autoscaler takes it.\<close>

theorem executing_worker_stays_running:
  assumes "agreed_apis x c" "plain_base base" "id_ok (arTestID a)" "id_ok (agID (prAgent pr))"
    and "prPoller pr = Announced a" "agStatus (prAgent pr) = ''RUNNING''" "prBeats pr = []"
    and "quiet (prServer pr)" "row_status (agID (prAgent pr)) WorkerStatusReserved (wdb (prServer pr))"
    and "runtime_run (connected x base c) (CallStart now # es) pr = Some pr'" "list_all beat_or_exec es"
    and "\<forall>err. prPoller pr' \<noteq> Leaving (Inl err)"
  shows "row_status (agID (prAgent pr)) WorkerStatusRunning (wdb (prServer pr')) \<and>
    holds_assignment (arTestID a) (agID (prAgent pr)) AssignmentStatusRunning (wdb (prServer pr'))"
proof -
  let ?k = "connected x base c"
  have truth: "truthful (agID (prAgent pr)) pr" using assms(5-7) by (simp add: truthful_def told_def)
  from assms(10) obtain q where q: "runtime_step ?k (CallStart now) pr = Some q" "runtime_run ?k es q = Some pr'"
    by (auto split: option.splits simp del: runtime_step.simps)
  have "\<forall>err. prPoller q \<noteq> Leaving (Inl err)"
  proof (intro allI notI)
    fix err
    assume "prPoller q = Leaving (Inl err)"
    with q(2) have "prPoller pr' = Leaving (Inl err)"
    proof (rule runtime_run_invariant)
      fix e z z'
      assume "prPoller z = Leaving (Inl err)" "e \<in> set es" "runtime_step ?k e z = Some z'"
      with assms(11) show "prPoller z' = Leaving (Inl err)"
        by (cases e) (auto simp: list_all_iff beat_or_exec_def split: prod.splits)
    qed
    with assms(12) show False by blast
  qed
  from start_executes [OF assms(1,2,4) truth assms(8,9) q(1) assms(5) this]
  have "executing (arTestID a) (agID (prAgent pr)) q" .
  from executing_run [OF assms(1-4) q(2) this assms(11)] show ?thesis by (simp add: executing_def)
qed

text \<open>C37: a late heartbeat. A completed assignment sets the worker's row IDLE, but the process sets its own
  status back only when the answer has arrived. A heartbeat in between still says RUNNING, and the row
  of the worker, which has no assignment left, is RUNNING again: no start finds the worker, and the
  capacity looks occupied, until the next heartbeat, a whole interval later, says IDLE.\<close>

theorem late_heartbeat_marks_running:
  assumes "agreed_apis x c" "plain_base base" "id_ok tid" "id_ok wid"
    and "executing tid wid pr" "prPoller pr = Ended a None"
    and "runtime_run (connected x base c) [CallReport shutdown, HeartbeatTick] pr = Some pr1"
    and "runtime_run (connected x base c) [CallReport shutdown, Leave, HeartbeatTick] pr = Some pr2"
    and "prPoller pr1 = Leaving (Inr ())"
  shows "row_status wid WorkerStatusRunning (wdb (prServer pr1)) \<and>
    row_status wid WorkerStatusIdle (wdb (prServer pr2)) \<and>
    \<not> holds_assignment tid wid AssignmentStatusRunning (wdb (prServer pr1)) \<and>
    holds_assignment tid wid AssignmentStatusCompleted (wdb (prServer pr1))"
proof -
  let ?k = "connected x base c"
  from assms(5,6) have tid: "arTestID a = tid" and quiet: "quiet (prServer pr)" and truth: "truthful wid pr"
    and row: "row_status wid WorkerStatusRunning (wdb (prServer pr))" by (simp_all add: executing_def)
  have id: "agID (prAgent pr) = wid" and status: "agStatus (prAgent pr) = told True"
    using truth assms(6) by (simp_all add: truthful_def)
  obtain q s where call: "Client_CompleteAssignment ?k wid tid (prServer pr) = (q, s)" by fastforce
  have beat: "prServer pr' = snd (Client_Heartbeat ?k (agID (prAgent z)) (agStatus (prAgent z)) (prServer z)) \<and>
      prPoller pr' = prPoller z" if "runtime_step ?k HeartbeatTick z = Some pr'" for z pr'
    using that by (auto split: prod.splits dest!: heartbeat_agent)
  let ?z1 = "pr\<lparr>prServer := s, prPoller := Leaving q\<rparr>"
  let ?z2 = "?z1\<lparr>prAgent := set_status WorkerStatusIdle (prAgent pr), prPoller := Polling\<rparr>"
  have steps: "runtime_step ?k HeartbeatTick ?z1 = Some pr1" "runtime_step ?k HeartbeatTick ?z2 = Some pr2"
    using assms(6-8) call id tid by (auto split: option.splits simp del: runtime_step.simps(1))
  from beat [OF steps(1)] assms(9) have q: "q = Inr ()" by simp
  from same_callD [OF remote_transition(2) [OF assms(1,2,4)] call [unfolded q]]
  have local: "WorkerService_CompleteAssignment tid wid (prServer pr) = (Inr (), s)" by metis
  have quiet': "quiet s" using frame_services(2) quiet local by (rule quiet_after)
  note completed = completed_row [OF complete_success [OF quiet local] row]
  have s1: "snd (WorkerService_Heartbeat (apNow x) wid (told True) s) = prServer pr1"
    using beat [OF steps(1)] id status remote_heartbeat [OF assms(1,2,4)] by simp
  have s2: "snd (WorkerService_Heartbeat (apNow x) wid (told False) s) = prServer pr2"
    using beat [OF steps(2)] id remote_heartbeat [OF assms(1,2,4)] by (simp add: set_status_told)
  from heartbeat_row [OF quiet' completed(1) disjI1 [OF refl] s1]
    heartbeat_row [OF quiet' completed(1) disjI1 [OF refl] s2] completed(2,3)
  show ?thesis by (simp add: holds_assignment_def)
qed

section \<open>Examples\<close>

definition ex_polling :: "http_request list Client" where
  "ex_polling = ex_wire ex_stopping (plain_codec\<lparr>decAssignment := \<lambda>s. Inr ex_assignment\<rparr>)"

theorem runtime_refines_poll_witness:
  "\<exists>es ag' s' bs. runtime_run ex_polling es (started ex_agent []) = Some ((started ag' s')\<lparr>prPublished := bs\<rparr>) \<and>
    HeartbeatTick \<notin> set es \<and> length s' = 4"
proof -
  obtain r bs ag' s' where poll: "Worker_poll ex_polling [FlushTick 1, EngineDone None 2] 0 False (ex_agent, []) =
      (Some r, bs, (ag', s'))" "length s' = 4"
    by (simp add: Worker_poll_def ex_polling_def ex_client_eval ex_assignment_def ex_agent_def set_status_def
        split_beta)
  from runtime_refines_poll [OF poll(1)] poll(2) show ?thesis by blast
qed

theorem heartbeats_tell_truth_witness:
  "\<exists>pr. runtime_run ex_client [HeartbeatTick] (started ex_agent []) = Some pr \<and> length (prBeats pr) = 1 \<and>
    list_all (\<lambda>(st, b). st = (if b then ''RUNNING'' else ''IDLE'')) (prBeats pr) \<and>
    agStatus (prAgent pr) = (if busy (prPoller pr) then ''RUNNING'' else ''IDLE'')"
proof -
  obtain pr where run: "runtime_run ex_client [HeartbeatTick] (started ex_agent []) = Some pr" "length (prBeats pr) = 1"
    by (simp add: started_def heartbeat_step del: runtime_step.simps(1))
  have "agStatus ex_agent = ''IDLE''" by (simp add: ex_agent_def)
  from heartbeats_tell_truth [OF run(1) this] run show ?thesis by blast
qed

definition ex_process :: "ProcessProvisioner world process" where
  "ex_process = \<lparr>prAgent = set_status WorkerStatusRunning ex_agent, prServer = ex_world ex_started,
     prPoller = Announced ex_assignment, prPublished = [], prBeats = []\<rparr>"

lemma ex_process_facts:
  "agID (prAgent ex_process) = ''w''" "agStatus (prAgent ex_process) = ''RUNNING''" "arTestID ex_assignment = ''A''"
  "prPoller ex_process = Announced ex_assignment" "prBeats ex_process = []" "quiet (prServer ex_process)"
  "row_status ''w'' WorkerStatusReserved (wdb (prServer ex_process))"
  by (simp_all add: ex_process_def set_status_def ex_agent_def ex_assignment_def)
     (simp add: row_status_def ex_db_defs ex_worker_def)

lemma ex_remote_calls:
  obtains w1 w2 where
    "Client_StartAssignment (connected ex_api ''http://c'' ex_codec) ''w'' ''A'' (ex_world ex_started) = (Inr (), w1)"
    "Client_CompleteAssignment (connected ex_api ''http://c'' ex_codec) ''w'' ''A'' w1 = (Inr (), w2)"
proof -
  have ids: "id_ok ''w''" "plain_base ''http://c''" by code_simp+
  obtain w1 w2 where "WorkerService_StartAssignment ''A'' ''w'' (ex_world ex_started) = (Inr (), w1)"
    "WorkerService_CompleteAssignment ''A'' ''w'' w1 = (Inr (), w2)" by (rule ex_local_calls)
  with that show ?thesis
    using same_call_ok [OF remote_transition(1) [OF ex_agreed ids(2,1)]]
      same_call_ok [OF remote_transition(2) [OF ex_agreed ids(2,1)]] by blast
qed

lemma ex_ids: "plain_base ''http://c''" "id_ok ''A''" "id_ok ''w''"
  by code_simp+

theorem executing_worker_stays_running_witness:
  "\<exists>pr. runtime_run (connected ex_api ''http://c'' ex_codec)
      [CallStart 0, HeartbeatTick, ExecStep (EngineDone None 2)] ex_process = Some pr \<and>
    row_status ''w'' WorkerStatusRunning (wdb (prServer pr)) \<and>
    holds_assignment ''A'' ''w'' AssignmentStatusRunning (wdb (prServer pr))"
proof -
  let ?k = "connected ex_api ''http://c'' ex_codec"
  obtain w1 w2 where start: "Client_StartAssignment ?k ''w'' ''A'' (ex_world ex_started) = (Inr (), w1)"
    by (rule ex_remote_calls)
  obtain pr where run: "runtime_run ?k (CallStart 0 # [HeartbeatTick, ExecStep (EngineDone None 2)]) ex_process = Some pr"
    "\<forall>err. prPoller pr \<noteq> Leaving (Inl err)"
    using start by (simp add: ex_process_def set_status_def ex_agent_def ex_assignment_def heartbeat_step split_beta
        del: runtime_step.simps(1))
  have "list_all beat_or_exec [HeartbeatTick, ExecStep (EngineDone None 2)]" by (simp add: beat_or_exec_def)
  moreover have "id_ok (arTestID ex_assignment)" "id_ok (agID (prAgent ex_process))"
    "row_status (agID (prAgent ex_process)) WorkerStatusReserved (wdb (prServer ex_process))"
    unfolding ex_process_facts(1,3) by (fact ex_ids ex_process_facts)+
  ultimately have "row_status ''w'' WorkerStatusRunning (wdb (prServer pr)) \<and>
    holds_assignment ''A'' ''w'' AssignmentStatusRunning (wdb (prServer pr))"
    using executing_worker_stays_running [OF ex_agreed ex_ids(1) _ _ ex_process_facts(4,2,5,6) _ run(1) _ run(2)]
    unfolding ex_process_facts(1,3) by blast
  with run(1) show ?thesis by blast
qed

theorem late_heartbeat_marks_running_witness:
  "\<exists>pr1 pr2. runtime_run (connected ex_api ''http://c'' ex_codec)
      [CallStart 0, ExecStep (EngineDone None 2), CallReport False, HeartbeatTick] ex_process = Some pr1 \<and>
    runtime_run (connected ex_api ''http://c'' ex_codec)
      [CallStart 0, ExecStep (EngineDone None 2), CallReport False, Leave, HeartbeatTick] ex_process = Some pr2 \<and>
    row_status ''w'' WorkerStatusRunning (wdb (prServer pr1)) \<and> row_status ''w'' WorkerStatusIdle (wdb (prServer pr2))"
proof -
  let ?k = "connected ex_api ''http://c'' ex_codec"
  obtain w1 w2 where calls: "Client_StartAssignment ?k ''w'' ''A'' (ex_world ex_started) = (Inr (), w1)"
    "Client_CompleteAssignment ?k ''w'' ''A'' w1 = (Inr (), w2)"
    by (rule ex_remote_calls)
  obtain q where q: "runtime_step ?k (CallStart 0) ex_process = Some q" "\<forall>err. prPoller q \<noteq> Leaving (Inl err)"
    "prPoller q = Executing ex_assignment (NewCollector ''A'' ''w'' 0) False" "prServer q = w1"
    "agID (prAgent q) = ''w''" "prPublished q = []"
    using calls by (simp add: ex_process_def set_status_def ex_agent_def ex_assignment_def)
  obtain pr where pr: "runtime_run ?k [ExecStep (EngineDone None 2)] q = Some pr" "prPoller pr = Ended ex_assignment None"
    "prServer pr = w1" "agID (prAgent pr) = ''w''"
    using q by (simp add: split_beta)
  have "truthful ''w'' ex_process" using ex_process_facts by (simp add: truthful_def told_def)
  from start_executes [OF ex_agreed ex_ids(1,3) this ex_process_facts(6,7) q(1) ex_process_facts(4) q(2)]
  have "executing ''A'' ''w'' q" by (simp add: ex_process_facts(3))
  from executing_run [OF ex_agreed ex_ids(1,2,3) pr(1) this] have exec: "executing ''A'' ''w'' pr"
    by (simp add: beat_or_exec_def)
  obtain pr1 pr2 where runs: "runtime_run ?k [CallReport False, HeartbeatTick] pr = Some pr1"
    "runtime_run ?k [CallReport False, Leave, HeartbeatTick] pr = Some pr2" "prPoller pr1 = Leaving (Inr ())"
    using calls(2) pr ex_process_facts(3) by (simp add: heartbeat_step del: runtime_step.simps(1))
  have "runtime_run ?k ([CallStart 0, ExecStep (EngineDone None 2)] @ es) ex_process = runtime_run ?k es pr" for es
    unfolding runtime_run_append using q(1) pr(1) by (simp del: runtime_step.simps split: option.splits)
  from this [of "[CallReport False, HeartbeatTick]"] this [of "[CallReport False, Leave, HeartbeatTick]"]
  show ?thesis
    using late_heartbeat_marks_running [OF ex_agreed ex_ids(1,2,3) exec pr(2) runs] runs(1,2) by auto
qed

end
