(* ===== verification/Campaign.thy ===== *)
theory Campaign
  imports EndToEnd Assignments
begin

text \<open>
  A test from its start to its completion: the workers that a start reserved begin, send heartbeats and
  finish, over HTTP and in any order among each other. A heartbeat may say anything at any moment: the
  heartbeat loop runs beside the assignment, so what it says can be ahead of the server or behind it.
  Every call is accepted, and with the last completion the test is COMPLETED; a worker is IDLE then,
  unless the last that was heard of it is a heartbeat saying RUNNING, and nothing else has changed.
\<close>

section \<open>The calls of the workers\<close>

text \<open>\<open>Beat v True\<close> is a heartbeat of \<open>v\<close> that says RUNNING, \<open>Beat v False\<close> one that says IDLE.\<close>

datatype progress = Began string | Finished string | Beat string bool

abbreviation said :: "bool \<Rightarrow> WorkerStatus" where
  "said b \<equiv> (if b then WorkerStatusRunning else WorkerStatusIdle)"

fun campaign :: "'s Client \<Rightarrow> string \<Rightarrow> progress list \<Rightarrow> ('s, unit) stateful" where
  "campaign k tid [] = http_ret ()"
| "campaign k tid (Began v # ps) = http_try (Client_StartAssignment k v tid) (\<lambda>_. campaign k tid ps)"
| "campaign k tid (Finished v # ps) = http_try (Client_CompleteAssignment k v tid) (\<lambda>_. campaign k tid ps)"
| "campaign k tid (Beat v b # ps) =
     http_try (Client_Heartbeat k v (worker_status_string (said b))) (\<lambda>_. campaign k tid ps)"

text \<open>What the workers do by themselves: each of \<open>ws\<close> begins once and then finishes once.\<close>

fun schedule :: "string list \<Rightarrow> string list \<Rightarrow> string list \<Rightarrow> progress list \<Rightarrow> bool" where
  "schedule ws waiting running [] \<longleftrightarrow> waiting = [] \<and> running = []"
| "schedule ws waiting running (Began v # ps) \<longleftrightarrow>
     v \<in> set waiting \<and> schedule ws (removeAll v waiting) (v # running) ps"
| "schedule ws waiting running (Finished v # ps) \<longleftrightarrow>
     v \<in> set running \<and> schedule ws waiting (removeAll v running) ps"
| "schedule ws waiting running (Beat v b # ps) \<longleftrightarrow> v \<in> set ws \<and> schedule ws waiting running ps"

fun whose :: "progress \<Rightarrow> string" where
  "whose (Began v) = v"
| "whose (Finished v) = v"
| "whose (Beat v b) = v"

text \<open>The status of the worker rows: a heartbeat overwrites IDLE and RUNNING only.\<close>

fun row_statuses :: "(string \<Rightarrow> WorkerStatus) \<Rightarrow> progress list \<Rightarrow> string \<Rightarrow> WorkerStatus" where
  "row_statuses f [] = f"
| "row_statuses f (Began v # ps) = row_statuses (f(v := WorkerStatusRunning)) ps"
| "row_statuses f (Finished v # ps) = row_statuses (f(v := WorkerStatusIdle)) ps"
| "row_statuses f (Beat v b # ps) = row_statuses (f(v := heartbeat_status (said b) (f v))) ps"

text \<open>RESERVED until the worker begins, IDLE or RUNNING from then on.\<close>

definition row_statuses_ok :: "string list \<Rightarrow> string list \<Rightarrow> (string \<Rightarrow> WorkerStatus) \<Rightarrow> bool" where
  "row_statuses_ok ws waiting f \<longleftrightarrow>
     (\<forall>v\<in>set waiting. f v = WorkerStatusReserved) \<and>
     (\<forall>v\<in>set ws. v \<notin> set waiting \<longrightarrow> f v = WorkerStatusIdle \<or> f v = WorkerStatusRunning)"

lemma row_statuses_ok_step:
  assumes "row_statuses_ok ws waiting f"
  shows "row_statuses_ok ws (removeAll v waiting) (f(v := WorkerStatusRunning))"
    and "v \<notin> set waiting \<Longrightarrow> row_statuses_ok ws waiting (f(v := WorkerStatusIdle))"
    and "row_statuses_ok ws waiting (f(v := heartbeat_status (said b) (f v)))"
  using assms by (auto simp: row_statuses_ok_def heartbeat_status_def)

lemma schedule_heard:
  "schedule ws waiting running ps \<Longrightarrow> v \<in> set waiting \<or> v \<in> set running \<Longrightarrow> filter (\<lambda>p. whose p = v) ps \<noteq> []"
  by (induction ws waiting running ps rule: schedule.induct) auto

lemma row_statuses_last:
  assumes "schedule ws waiting running ps" "row_statuses_ok ws waiting f" "set waiting \<inter> set running = {}"
    and "v \<in> set ws"
  shows "row_statuses f ps v = (let es = filter (\<lambda>p. whose p = v) ps in
    if es = [] then f v else said (last es = Beat v True))"
  using assms(1-3)
proof (induction ps arbitrary: waiting running f)
  case Nil
  then show ?case by simp
next
  case (Cons p ps)
  show ?case
  proof (cases p)
    case (Began u)
    with Cons.prems(1) have u: "u \<in> set waiting" "schedule ws (removeAll u waiting) (u # running) ps" by simp_all
    have "set (removeAll u waiting) \<inter> set (u # running) = {}" using Cons.prems(3) by auto
    then have "row_statuses f (p # ps) v = (let es = filter (\<lambda>p. whose p = v) ps in
        if es = [] then (f(u := WorkerStatusRunning)) v else said (last es = Beat v True))"
      unfolding Began row_statuses.simps by (rule Cons.IH [OF u(2) row_statuses_ok_step(1) [OF Cons.prems(2)]])
    then show ?thesis using schedule_heard [OF u(2), of v] by (auto simp: Began Let_def)
  next
    case (Finished u)
    with Cons.prems(1,3) have u: "u \<notin> set waiting" "schedule ws waiting (removeAll u running) ps" by auto
    have "set waiting \<inter> set (removeAll u running) = {}" using Cons.prems(3) by auto
    then have "row_statuses f (p # ps) v = (let es = filter (\<lambda>p. whose p = v) ps in
        if es = [] then (f(u := WorkerStatusIdle)) v else said (last es = Beat v True))"
      unfolding Finished row_statuses.simps by (rule Cons.IH [OF u(2) row_statuses_ok_step(2) [OF Cons.prems(2) u(1)]])
    then show ?thesis by (auto simp: Finished Let_def)
  next
    case (Beat u b)
    with Cons.prems(1) have u: "schedule ws waiting running ps" by simp
    have "row_statuses f (p # ps) v = (let es = filter (\<lambda>p. whose p = v) ps in
        if es = [] then (f(u := heartbeat_status (said b) (f u))) v else said (last es = Beat v True))"
      unfolding Beat row_statuses.simps by (rule Cons.IH [OF u row_statuses_ok_step(3) [OF Cons.prems(2)] Cons.prems(3)])
    moreover have "f v = WorkerStatusIdle \<or> f v = WorkerStatusRunning" if "filter (\<lambda>p. whose p = v) ps = []"
      using schedule_heard [OF u, of v] that assms(4) Cons.prems(2) by (auto simp: row_statuses_ok_def)
    ultimately show ?thesis by (auto simp: Beat Let_def heartbeat_status_def)
  qed
qed

section \<open>The tables meanwhile\<close>

definition stage_of :: "'a \<Rightarrow> 'a \<Rightarrow> 'a \<Rightarrow> string list \<Rightarrow> string list \<Rightarrow> string \<Rightarrow> 'a" where
  "stage_of before during after waiting running v =
     (if v \<in> set waiting then before else if v \<in> set running then during else after)"

abbreviation assignment_stage :: "string list \<Rightarrow> string list \<Rightarrow> string \<Rightarrow> AssignmentStatus" where
  "assignment_stage \<equiv> stage_of AssignmentStatusReserved AssignmentStatusRunning AssignmentStatusCompleted"

definition at_stage :: "string \<Rightarrow> string list \<Rightarrow> string list \<Rightarrow> string list \<Rightarrow> (string \<Rightarrow> WorkerStatus) \<Rightarrow> db \<Rightarrow> bool" where
  "at_stage tid ws waiting running f d \<longleftrightarrow>
     set waiting \<subseteq> set ws \<and> set running \<subseteq> set ws \<and> set waiting \<inter> set running = {} \<and>
     test_status tid d = Some (if waiting = [] \<and> running = [] then StatusCompleted else StatusRunning) \<and>
     aWorkerID ` {a \<in> set (dAssignments d). aTestID a = tid} = set ws \<and>
     (\<forall>a\<in>set (dAssignments d). aTestID a = tid \<longrightarrow> aStatus a = assignment_stage waiting running (aWorkerID a)) \<and>
     set ws \<subseteq> wID ` set (dWorkers d) \<and> row_statuses_ok ws waiting f \<and>
     (\<forall>w\<in>set (dWorkers d). wID w \<in> set ws \<longrightarrow> wStatus w = f (wID w))"

text \<open>The rows of other tests, of their assignments and of other workers.\<close>

definition elsewhere :: "string \<Rightarrow> string list \<Rightarrow> db \<Rightarrow> Test list \<times> Worker list \<times> TestWorker list" where
  "elsewhere tid ws d =
     (filter (\<lambda>t. tID t \<noteq> tid) (dTests d), filter (\<lambda>w. wID w \<notin> set ws) (dWorkers d),
      filter (\<lambda>a. aTestID a \<noteq> tid) (dAssignments d))"

lemma filter_update_where:
  "(\<And>x. P x \<Longrightarrow> \<not> Q x \<and> \<not> Q (f x)) \<Longrightarrow> filter Q (update_where P f xs) = filter Q xs"
  by (induction xs) (auto simp: update_where_def)

lemma ball_update_where:
  "(\<forall>y\<in>set (update_where P f xs). Q y) \<longleftrightarrow> (\<forall>x\<in>set xs. if P x then Q (f x) else Q x)"
  by (auto simp: update_where_def)

lemma image_filter_update_where:
  assumes "\<And>x. k (f x) = k x" "\<And>x. Q (f x) = Q x"
  shows "k ` {x \<in> set (update_where P f xs). Q x} = k ` {x \<in> set xs. Q x}"
proof -
  have "map k (filter Q (update_where P f xs)) = map k (filter Q xs)"
    using assms by (induction xs) (simp_all add: update_where_def)
  then have "k ` set (filter Q (update_where P f xs)) = k ` set (filter Q xs)" by (metis set_map)
  then show ?thesis by simp
qed

section \<open>Every call succeeds\<close>

lemma at_stage_row:
  assumes "at_stage tid ws waiting running f d" "v \<in> set ws"
  obtains a where "a \<in> set (dAssignments d)" "aTestID a = tid" "aWorkerID a = v"
    "aStatus a = assignment_stage waiting running v"
proof -
  from assms have "v \<in> aWorkerID ` {a \<in> set (dAssignments d). aTestID a = tid}" by (simp add: at_stage_def)
  then obtain a where "a \<in> set (dAssignments d)" "aTestID a = tid" "aWorkerID a = v" by auto
  with assms(1) that show ?thesis unfolding at_stage_def by auto
qed

lemma start_quiet:
  assumes "quiet w" "a \<in> set (dAssignments (wdb w))" "aTestID a = tid" "aWorkerID a = v"
    "aStatus a = AssignmentStatusReserved"
  shows "\<exists>w'. WorkerService_StartAssignment tid v w = (Inr (), w')"
proof -
  have "count_where (\<lambda>a. aTestID a = tid \<and> aWorkerID a = v \<and> aStatus a = AssignmentStatusReserved)
      (dAssignments (wdb w)) \<noteq> 0" using assms(2-) by (auto simp: count_where_zero)
  with assms(1) show ?thesis
    by (simp add: WorkerService_StartAssignment_def WorkerRepo_MarkAssignmentRunning_def in_tx_def
        next_event_quiet quiet_event_def mark_running_body_def io_defs quiet_simps
        sql_assignment_running_def set_assignment_def sql_worker_running_def set_worker_status_def Let_def)
qed

lemma complete_quiet:
  assumes "quiet w" "tid \<in> tID ` set (dTests (wdb w))"
    and "a \<in> set (dAssignments (wdb w))" "aTestID a = tid" "aWorkerID a = v" "aStatus a = AssignmentStatusRunning"
  shows "\<exists>w'. WorkerService_CompleteAssignment tid v w = (Inr (), w')"
proof -
  have "count_where (\<lambda>a. aTestID a = tid \<and> aWorkerID a = v \<and> aStatus a = AssignmentStatusRunning)
      (dAssignments (wdb w)) \<noteq> 0" using assms(3-) by (auto simp: count_where_zero)
  with assms(1,2) show ?thesis
    by (simp add: WorkerService_CompleteAssignment_def WorkerRepo_MarkAssignmentCompleted_def in_tx_def
        next_event_quiet quiet_event_def mark_completed_body_def io_defs quiet_simps sql_lock_test_def
        sql_assignment_completed_def set_assignment_def sql_worker_idle_def set_worker_status_def
        sql_has_incomplete_def sql_complete_test_def set_running_tests_def Let_def)
qed

lemma heartbeat_quiet:
  assumes "quiet w" "v \<in> wID ` set (dWorkers (wdb w))" "st = WorkerStatusRunning \<or> st = WorkerStatusIdle"
  shows "WorkerService_Heartbeat now v (worker_status_string st) w =
    (Inr (), w\<lparr>wdb := (wdb w)\<lparr>dWorkers := update_where (\<lambda>u. wID u = v)
       (\<lambda>u. u\<lparr>wStatus := heartbeat_status st (wStatus u), wLastHeartbeat := now, wUpdatedAt := now\<rparr>)
       (dWorkers (wdb w))\<rparr>\<rparr>)"
proof -
  have "count_where (\<lambda>u. wID u = v) (dWorkers (wdb w)) \<noteq> 0" using assms(2) by (auto simp: count_where_zero)
  moreover have "List.find (\<lambda>s. worker_status_string s = worker_status_string st) accepted_heartbeats = Some st"
    using assms(3) by (auto simp: accepted_heartbeats_def)
  ultimately show ?thesis
    using assms(1) by (simp add: WorkerService_Heartbeat_def WorkerRepo_UpdateHeartbeat_def io_defs quiet_simps
        sql_heartbeat_def)
qed

section \<open>From stage to stage\<close>

lemma test_status_find: "dTests d' = dTests d \<Longrightarrow> test_status tid d' = test_status tid d"
  by (simp add: test_status_def)

text \<open>Rows of either table whose status is a stage, and the row of \<open>v\<close> moves on.\<close>

lemma rows_began:
  assumes "\<forall>x\<in>set xs. I x \<longrightarrow> s x = stage_of b m e waiting running (k x)" "v \<in> set waiting"
    and "\<And>x. I x \<Longrightarrow> k x = v \<Longrightarrow> s x = b \<Longrightarrow> P x" "\<And>x. P x \<Longrightarrow> k x = v"
    and "\<And>x. k (f x) = k x" "\<And>x. s (f x) = m"
  shows "\<forall>x\<in>set (update_where P f xs). I x \<longrightarrow> s x = stage_of b m e (removeAll v waiting) (v # running) (k x)"
  unfolding ball_update_where
proof (intro ballI)
  fix x assume x: "x \<in> set xs"
  show "if P x then I (f x) \<longrightarrow> s (f x) = stage_of b m e (removeAll v waiting) (v # running) (k (f x))
    else I x \<longrightarrow> s x = stage_of b m e (removeAll v waiting) (v # running) (k x)"
  proof (cases "P x")
    case True
    with assms(4) have "k x = v" by blast
    with True show ?thesis by (simp add: assms(5,6) stage_of_def)
  next
    case False
    from assms(1) x have st: "I x \<Longrightarrow> s x = stage_of b m e waiting running (k x)" by blast
    have "k x \<noteq> v" if "I x" using assms(3) [OF that] False st [OF that] assms(2) by (auto simp: stage_of_def)
    with st False show ?thesis by (simp add: stage_of_def)
  qed
qed

lemma rows_finished:
  assumes "\<forall>x\<in>set xs. I x \<longrightarrow> s x = stage_of b m e waiting running (k x)" "v \<in> set running" "v \<notin> set waiting"
    and "\<And>x. I x \<Longrightarrow> k x = v \<Longrightarrow> s x = m \<Longrightarrow> P x" "\<And>x. P x \<Longrightarrow> k x = v"
    and "\<And>x. k (f x) = k x" "\<And>x. s (f x) = e"
  shows "\<forall>x\<in>set (update_where P f xs). I x \<longrightarrow> s x = stage_of b m e waiting (removeAll v running) (k x)"
  unfolding ball_update_where
proof (intro ballI)
  fix x assume x: "x \<in> set xs"
  show "if P x then I (f x) \<longrightarrow> s (f x) = stage_of b m e waiting (removeAll v running) (k (f x))
    else I x \<longrightarrow> s x = stage_of b m e waiting (removeAll v running) (k x)"
  proof (cases "P x")
    case True
    with assms(5) have "k x = v" by blast
    with True assms(3) show ?thesis by (simp add: assms(6,7) stage_of_def)
  next
    case False
    from assms(1) x have st: "I x \<Longrightarrow> s x = stage_of b m e waiting running (k x)" by blast
    have "k x \<noteq> v" if "I x" using assms(4) [OF that] False st [OF that] assms(2,3) by (auto simp: stage_of_def)
    with st False show ?thesis by (simp add: stage_of_def)
  qed
qed

lemma rows_moved:
  fixes f :: "string \<Rightarrow> 'a"
  assumes "\<forall>x\<in>set xs. I x \<longrightarrow> s x = f (k x)" "\<And>x. P x \<Longrightarrow> k x = v" "\<And>x. k (g x) = k x"
    and "\<And>x. I x \<Longrightarrow> P x \<Longrightarrow> s x = f v \<Longrightarrow> s (g x) = m"
    and "\<And>x. I x \<Longrightarrow> \<not> P x \<Longrightarrow> k x = v \<Longrightarrow> s x = f v \<Longrightarrow> s x = m" "\<And>x. I (g x) = I x"
  shows "\<forall>x\<in>set (update_where P g xs). I x \<longrightarrow> s x = (f(v := m)) (k x)"
  unfolding ball_update_where using assms by (metis fun_upd_apply)

lemma at_stageD:
  assumes "at_stage tid ws waiting running f d"
  shows "set waiting \<subseteq> set ws" "set running \<subseteq> set ws" "set waiting \<inter> set running = {}"
    "test_status tid d = Some (if waiting = [] \<and> running = [] then StatusCompleted else StatusRunning)"
    "aWorkerID ` {a \<in> set (dAssignments d). aTestID a = tid} = set ws"
    "\<forall>a\<in>set (dAssignments d). aTestID a = tid \<longrightarrow> aStatus a = assignment_stage waiting running (aWorkerID a)"
    "set ws \<subseteq> wID ` set (dWorkers d)" "row_statuses_ok ws waiting f"
    "\<forall>w\<in>set (dWorkers d). wID w \<in> set ws \<longrightarrow> wStatus w = f (wID w)"
  using assms unfolding at_stage_def by blast+

lemma began_stage:
  assumes "at_stage tid ws waiting running f d" "v \<in> set waiting" "mark_running_post tid v d d' u"
  shows "at_stage tid ws (removeAll v waiting) (v # running) (f(v := WorkerStatusRunning)) d' \<and> elsewhere tid ws d' = elsewhere tid ws d"
proof -
  from assms(3) have d': "dAssignments d' = update_where
        (\<lambda>a. aTestID a = tid \<and> aWorkerID a = v \<and> aStatus a = AssignmentStatusReserved)
        (assignment_started (dNow d)) (dAssignments d)"
      "dWorkers d' = update_where (\<lambda>w. wID w = v \<and> wStatus w = WorkerStatusReserved)
        (worker_to WorkerStatusRunning (dNow d)) (dWorkers d)" "dTests d' = dTests d"
    by (simp_all add: mark_running_post_def Let_def)
  from assms(1,2) have v: "v \<in> set ws" "v \<notin> set running" "waiting \<noteq> []" by (auto simp: at_stage_def)
  have status: "test_status tid d' = test_status tid d" by (rule test_status_find) (simp add: d')
  have ids: "aWorkerID ` {a \<in> set (dAssignments d'). aTestID a = tid} = set ws"
    using assms(1) by (simp add: d' at_stage_def image_filter_update_where)
  have "\<forall>a\<in>set (dAssignments d'). aTestID a = tid \<longrightarrow>
      aStatus a = assignment_stage (removeAll v waiting) (v # running) (aWorkerID a)"
    unfolding d' by (rule rows_began [OF at_stageD(6) [OF assms(1)] assms(2)]) simp_all
  moreover have "\<forall>w\<in>set (dWorkers d'). wID w \<in> set ws \<longrightarrow>
      wStatus w = (f(v := WorkerStatusRunning)) (wID w)"
    unfolding d' by (rule rows_moved [where k = wID, OF at_stageD(9) [OF assms(1)]])
      (use at_stageD(8) [OF assms(1)] assms(2) in \<open>auto simp: row_statuses_ok_def\<close>)
  moreover have "elsewhere tid ws d' = elsewhere tid ws d"
    using v(1) by (auto simp: elsewhere_def d' intro!: filter_update_where)
  moreover have "set ws \<subseteq> wID ` set (dWorkers d')" using at_stageD(7) [OF assms(1)] by (simp add: d' keys_update_where)
  ultimately show ?thesis
    using at_stageD(1-4) [OF assms(1)] v ids row_statuses_ok_step(1) [OF at_stageD(8) [OF assms(1)], of v]
    unfolding at_stage_def status by auto
qed

lemma all_outside: "A \<subseteq> S \<Longrightarrow> B \<subseteq> S \<Longrightarrow> (\<forall>i\<in>S. i \<notin> A \<and> i \<notin> B) \<longleftrightarrow> A = {} \<and> B = {}"
  by auto

lemma finished_stage:
  assumes "at_stage tid ws waiting running f d" "v \<in> set running" "mark_completed_post tid v d d' u"
  shows "at_stage tid ws waiting (removeAll v running) (f(v := WorkerStatusIdle)) d' \<and> elsewhere tid ws d' = elsewhere tid ws d"
proof -
  from assms(1,2) have v: "v \<in> set ws" "v \<notin> set waiting" "running \<noteq> []" by (auto simp: at_stage_def)
  from assms(3) have d': "dAssignments d' = update_where
        (\<lambda>a. aTestID a = tid \<and> aWorkerID a = v \<and> aStatus a = AssignmentStatusRunning)
        (assignment_done AssignmentStatusCompleted (dNow d)) (dAssignments d)"
      "dWorkers d' = update_where (\<lambda>w. wID w = v \<and> wStatus w = WorkerStatusRunning)
        (worker_to WorkerStatusIdle (dNow d)) (dWorkers d)"
    by (simp_all add: mark_completed_post_def Let_def)
  from assms(3) obtain P where "dTests d' = update_where (\<lambda>t. P \<and> tID t = tid \<and> tStatus t = StatusRunning)
      (test_to StatusCompleted (dNow d)) (dTests d)" by (auto simp: mark_completed_post_def Let_def)
  then have tests: "filter (\<lambda>t. tID t \<noteq> tid) (dTests d') = filter (\<lambda>t. tID t \<noteq> tid) (dTests d)"
    by (simp only:) (rule filter_update_where, simp)
  have ids: "aWorkerID ` {a \<in> set (dAssignments d'). aTestID a = tid} = set ws"
    using assms(1) by (simp add: d' at_stage_def image_filter_update_where)
  have stages: "\<forall>a\<in>set (dAssignments d'). aTestID a = tid \<longrightarrow>
      aStatus a = assignment_stage waiting (removeAll v running) (aWorkerID a)"
    unfolding d' by (rule rows_finished [OF at_stageD(6) [OF assms(1)] assms(2) v(2)]) simp_all
  have "(\<forall>a\<in>set (dAssignments d'). aTestID a = tid \<longrightarrow> aStatus a = AssignmentStatusCompleted) \<longleftrightarrow>
      (\<forall>i\<in>set ws. assignment_stage waiting (removeAll v running) i = AssignmentStatusCompleted)"
    using stages by (auto simp: ids [symmetric])
  also have "\<dots> \<longleftrightarrow> (\<forall>i\<in>set ws. i \<notin> set waiting \<and> i \<notin> set (removeAll v running))"
    by (auto simp: stage_of_def)
  also have "\<dots> \<longleftrightarrow> set waiting = {} \<and> set (removeAll v running) = {}"
    by (rule all_outside) (use at_stageD(1,2) [OF assms(1)] in auto)
  also have "\<dots> \<longleftrightarrow> waiting = [] \<and> removeAll v running = []" by (simp only: set_empty)
  finally have all: "(\<forall>a\<in>set (dAssignments d'). aTestID a = tid \<longrightarrow> aStatus a = AssignmentStatusCompleted) \<longleftrightarrow>
      waiting = [] \<and> removeAll v running = []" .
  have "test_status tid d' = Some (if waiting = [] \<and> removeAll v running = [] then StatusCompleted else StatusRunning)"
    using mark_completed_tests [OF assms(3), of tid] assms(1) v(3) by (simp add: all at_stage_def)
  moreover have "\<forall>w\<in>set (dWorkers d'). wID w \<in> set ws \<longrightarrow>
      wStatus w = (f(v := WorkerStatusIdle)) (wID w)"
    unfolding d' by (rule rows_moved [where k = wID, OF at_stageD(9) [OF assms(1)]])
      (use at_stageD(8) [OF assms(1)] v in \<open>auto simp: row_statuses_ok_def\<close>)
  moreover have "elsewhere tid ws d' = elsewhere tid ws d"
    using v(1) tests by (auto simp: elsewhere_def d' intro!: filter_update_where)
  moreover have "set ws \<subseteq> wID ` set (dWorkers d')" using at_stageD(7) [OF assms(1)] by (simp add: d' keys_update_where)
  ultimately show ?thesis
    using at_stageD(1-3) [OF assms(1)] ids stages row_statuses_ok_step(2) [OF at_stageD(8) [OF assms(1)] v(2)]
    unfolding at_stage_def by auto
qed

lemma beat_stage:
  assumes "at_stage tid ws waiting running f d" "v \<in> set ws"
    and "d' = d\<lparr>dWorkers := update_where (\<lambda>u. wID u = v)
       (\<lambda>u. u\<lparr>wStatus := heartbeat_status (said b) (wStatus u), wLastHeartbeat := now, wUpdatedAt := now\<rparr>) (dWorkers d)\<rparr>"
  shows "at_stage tid ws waiting running (f(v := heartbeat_status (said b) (f v))) d' \<and>
    elsewhere tid ws d' = elsewhere tid ws d"
proof -
  have workers: "dWorkers d' = update_where (\<lambda>u. wID u = v)
       (\<lambda>u. u\<lparr>wStatus := heartbeat_status (said b) (wStatus u), wLastHeartbeat := now, wUpdatedAt := now\<rparr>) (dWorkers d)"
    by (simp add: assms(3))
  have "\<forall>w\<in>set (dWorkers d'). wID w \<in> set ws \<longrightarrow>
      wStatus w = (f(v := heartbeat_status (said b) (f v))) (wID w)"
    unfolding workers by (rule rows_moved [where k = wID, OF at_stageD(9) [OF assms(1)]]) simp_all
  moreover have "test_status tid d' = test_status tid d" by (rule test_status_find) (simp add: assms(3))
  moreover have "elsewhere tid ws d' = elsewhere tid ws d"
    using assms(2) by (auto simp: elsewhere_def assms(3) intro!: filter_update_where)
  moreover have "set ws \<subseteq> wID ` set (dWorkers d')" "dAssignments d' = dAssignments d"
    using at_stageD(7) [OF assms(1)] by (simp_all add: assms(3) keys_update_where)
  ultimately show ?thesis
    using at_stageD(1-6) [OF assms(1)] row_statuses_ok_step(3) [OF at_stageD(8) [OF assms(1)], of v b]
    unfolding at_stage_def by simp
qed

section \<open>From the start to the completion\<close>

lemma campaign_runs:
  assumes "agreed_apis x c" "plain_base base" "list_all id_ok ws"
    and "schedule ws waiting running ps" "quiet w" "at_stage tid ws waiting running f (wdb w)"
  shows "\<exists>w'. campaign (connected x base c) tid ps w = (Inr (), w') \<and> quiet w' \<and>
    at_stage tid ws [] [] (row_statuses f ps) (wdb w') \<and> elsewhere tid ws (wdb w') = elsewhere tid ws (wdb w)"
  using assms(4-6)
proof (induction ps arbitrary: waiting running f w)
  case Nil
  then show ?case by (simp add: http_ret_def)
next
  case (Cons p ps)
  note D = at_stageD [OF Cons.prems(3)]
  have id: "id_ok v" if "v \<in> set ws" for v using that assms(3) by (simp add: list_all_iff)
  show ?case
  proof (cases p)
    case (Began v)
    with Cons.prems(1) D(1) have v: "v \<in> set waiting" "v \<in> set ws"
      "schedule ws (removeAll v waiting) (v # running) ps" by auto
    from at_stage_row [OF Cons.prems(3) v(2)] v(1) obtain w1 where
      local: "WorkerService_StartAssignment tid v w = (Inr (), w1)"
      using start_quiet [OF Cons.prems(2)] by (metis stage_of_def)
    have call: "Client_StartAssignment (connected x base c) v tid w = (Inr (), w1)"
      using same_call_ok [OF remote_transition(1) [OF assms(1,2) id [OF v(2)]] local] .
    have quiet: "quiet w1" using frame_services(1) Cons.prems(2) local by (rule quiet_after)
    from began_stage [OF Cons.prems(3) v(1) start_success [OF Cons.prems(2) local]]
      Cons.IH [OF v(3) quiet] call Began show ?thesis by (auto simp: http_try_def)
  next
    case (Finished v)
    with Cons.prems(1) D(2) have v: "v \<in> set running" "v \<in> set ws"
      "schedule ws waiting (removeAll v running) ps" by auto
    have "v \<notin> set waiting" using v(1) D(3) by blast
    moreover have "tid \<in> tID ` set (dTests (wdb w))"
      using D(4) by (auto simp: test_status_def dest: find_row_Some)
    ultimately obtain w1 where local: "WorkerService_CompleteAssignment tid v w = (Inr (), w1)"
      using at_stage_row [OF Cons.prems(3) v(2)] v(1) complete_quiet [OF Cons.prems(2)] by (metis stage_of_def)
    have call: "Client_CompleteAssignment (connected x base c) v tid w = (Inr (), w1)"
      using same_call_ok [OF remote_transition(2) [OF assms(1,2) id [OF v(2)]] local] .
    have quiet: "quiet w1" using frame_services(2) Cons.prems(2) local by (rule quiet_after)
    from finished_stage [OF Cons.prems(3) v(1) complete_success [OF Cons.prems(2) local]]
      Cons.IH [OF v(3) quiet] call Finished show ?thesis by (auto simp: http_try_def)
  next
    case (Beat v b)
    with Cons.prems(1) have v: "v \<in> set ws" "schedule ws waiting running ps" by simp_all
    let ?w1 = "w\<lparr>wdb := (wdb w)\<lparr>dWorkers := update_where (\<lambda>u. wID u = v)
       (\<lambda>u. u\<lparr>wStatus := heartbeat_status (said b) (wStatus u), wLastHeartbeat := apNow x, wUpdatedAt := apNow x\<rparr>)
       (dWorkers (wdb w))\<rparr>\<rparr>"
    have "WorkerService_Heartbeat (apNow x) v (worker_status_string (said b)) w = (Inr (), ?w1)"
      using v(1) D(7) by (intro heartbeat_quiet [OF Cons.prems(2)]) auto
    from same_call_ok [OF remote_transition(4) [OF assms(1,2) id [OF v(1)]] this]
    have call: "Client_Heartbeat (connected x base c) v (worker_status_string (said b)) w = (Inr (), ?w1)" .
    have quiet: "quiet ?w1" using Cons.prems(2) by simp
    have stage: "at_stage tid ws waiting running (f(v := heartbeat_status (said b) (f v))) (wdb ?w1)"
      "elsewhere tid ws (wdb ?w1) = elsewhere tid ws (wdb w)"
      using beat_stage [OF Cons.prems(3) v(1), of "wdb ?w1" "apNow x" b] by simp_all
    from Cons.IH [OF v(2) quiet stage(1)] obtain w' where
      "campaign (connected x base c) tid ps ?w1 = (Inr (), w')" "quiet w'"
      "at_stage tid ws [] [] (row_statuses (f(v := heartbeat_status (said b) (f v))) ps) (wdb w')"
      "elsewhere tid ws (wdb w') = elsewhere tid ws (wdb ?w1)" by blast
    with call stage(2) show ?thesis unfolding Beat
      by (intro exI [of _ w']) (simp only: campaign.simps http_try_def row_statuses.simps prod.case sum.case simp_thms)
  qed
qed

lemma started_stage:
  assumes "set sel \<subseteq> set (dWorkers d)" "length allocs = length sel" "sel \<noteq> []"
    and "test_status tid d \<noteq> None" "tid \<notin> aTestID ` set (dAssignments d)"
  shows "at_stage tid (map wID sel) (map wID sel) [] (\<lambda>_. WorkerStatusReserved) (started_db tid sel allocs d)"
    and "elsewhere tid (map wID sel) (started_db tid sel allocs d) = elsewhere tid (map wID sel) d"
proof -
  let ?d = "started_db tid sel allocs d" and ?ws = "map wID sel"
  have parts: "dWorkers ?d = update_where (\<lambda>w. wID w \<in> wID ` set sel) (worker_to WorkerStatusReserved (dNow d)) (dWorkers d)"
    "dAssignments ?d = dAssignments d @ map (assignment_row tid (dNow d)) (zip sel allocs)"
    "dTests ?d = update_where (\<lambda>t. tID t = tid) (started_test (int (length sel)) (dNow d)) (dTests d)"
    by (simp_all add: started_db_def reserved_db_def)
  have old: "filter (\<lambda>a. aTestID a = tid) (dAssignments d) = []" using assms(5) by (auto simp: filter_empty_conv)
  have "{a \<in> set (dAssignments ?d). aTestID a = tid} = assignment_row tid (dNow d) ` set (zip sel allocs)"
    using assms(5) by (auto simp: parts assignment_row_def)
  moreover have "aWorkerID ` assignment_row tid (dNow d) ` set (zip sel allocs) = wID ` fst ` set (zip sel allocs)"
    by (simp add: image_image assignment_row_def split_beta)
  moreover have "fst ` set (zip sel allocs) = set sel" using assms(2) by (metis map_fst_zip set_map)
  ultimately have ids: "aWorkerID ` {a \<in> set (dAssignments ?d). aTestID a = tid} = set ?ws" by simp
  from assms(4) obtain t where t: "find_row tID tid (dTests d) = Some t" by (auto simp: test_status_def)
  then have "test_status tid ?d = Some StatusRunning"
    using find_row_key [OF t] by (simp add: test_status_def parts find_row_update_where started_test_def)
  moreover have "\<forall>a\<in>set (dAssignments ?d). aTestID a = tid \<longrightarrow> aStatus a = assignment_stage ?ws [] (aWorkerID a)"
    using assms(5) by (auto simp: parts stage_of_def assignment_row_def dest: set_zip_leftD)
  moreover have "\<forall>w\<in>set (dWorkers ?d). wID w \<in> set ?ws \<longrightarrow> wStatus w = WorkerStatusReserved"
    by (auto simp: parts ball_update_where)
  moreover have "set ?ws \<subseteq> wID ` set (dWorkers ?d)" using assms(1) by (auto simp: parts keys_update_where)
  moreover have "row_statuses_ok ?ws ?ws (\<lambda>_. WorkerStatusReserved)" by (simp add: row_statuses_ok_def)
  ultimately show "at_stage tid ?ws ?ws [] (\<lambda>_. WorkerStatusReserved) ?d"
    using assms(3) ids unfolding at_stage_def by auto
  show "elsewhere tid ?ws ?d = elsewhere tid ?ws d"
    by (auto simp: elsewhere_def parts assignment_row_def filter_empty_conv started_test_def intro!: filter_update_where)
qed

text \<open>C2: a test runs to its end. On a server that only these clients use, a test that is CREATED is
  started with enough idle workers; then each of the workers it got begins and finishes over HTTP, in any
  order among each other, and all of them send heartbeats at any moment, before they begin, meanwhile and
  after they finished, that say RUNNING or IDLE whether or not this is what the server has of them. The
  start and every one of these calls succeeds, and in the end the test is COMPLETED and all its
  assignments are COMPLETED; a worker is RUNNING if the last call it made is a heartbeat that says so and
  IDLE otherwise, in particular if it said nothing after its completion; and no row of another test, of
  another test's assignment or of another worker has changed.\<close>

theorem test_runs_to_completion:
  assumes "agreed_apis x c" "plain_base base" "list_all id_ok ws"
    and "quiet w" "integrity (wdb w)" "t \<in> set (dTests (wdb w))" "tID t = tid" "tStatus t = StatusCreated"
    and "RequiredWorkers (tRPS t) (tsWorkerCapacityRPS s) = Inr n" "tsWorkerCapacityRPS s \<le> max_int4"
    and "n \<le> int (length (idle_by_heartbeat (wdb w)))" "tid \<notin> aTestID ` set (dAssignments (wdb w))"
    and "ws = map wID (take (nat n) (idle_by_heartbeat (wdb w)))" "schedule ws ws [] ps"
  shows "\<exists>workers w1 w2. TestService_StartTest s pat tid w = (Inr workers, w1) \<and> map wID workers = ws \<and>
    campaign (connected x base c) tid ps w1 = (Inr (), w2) \<and>
    test_status tid (wdb w2) = Some StatusCompleted \<and>
    (\<forall>a\<in>set (dAssignments (wdb w2)). aTestID a \<noteq> tid \<or> aStatus a = AssignmentStatusCompleted) \<and>
    (\<forall>v\<in>set (dWorkers (wdb w2)). wID v \<notin> set ws \<or>
       wStatus v = (if last (filter (\<lambda>p. whose p = wID v) ps) = Beat (wID v) True
         then WorkerStatusRunning else WorkerStatusIdle)) \<and>
    elsewhere tid ws (wdb w2) = elsewhere tid ws (wdb w)"
proof -
  let ?d = "wdb w" and ?sel = "take (nat n) (idle_by_heartbeat (wdb w))"
  from StartTest_exact [OF assms(4-12), of pat] obtain allocs where
    allocs: "length allocs = nat n" "0 < n" and
    start: "TestService_StartTest s pat tid w = (Inr (map (\<lambda>w. w\<lparr>wStatus := WorkerStatusReserved\<rparr>) ?sel),
      w\<lparr>wdb := started_db tid ?sel allocs ?d\<rparr>)" by blast
  let ?w1 = "w\<lparr>wdb := started_db tid ?sel allocs ?d\<rparr>"
  have len: "length ?sel = nat n" using assms(11) by simp
  have "set ?sel \<subseteq> set (dWorkers ?d)" using set_idle_by_heartbeat [of ?d] by (auto dest: in_set_takeD)
  moreover have "?sel \<noteq> []" using len allocs(2) by auto
  moreover have "test_status tid ?d \<noteq> None"
    using assms(6,7) by (auto simp: test_status_def find_row_def find_None_iff)
  ultimately have stage: "at_stage tid ws ws [] (\<lambda>_. WorkerStatusReserved) (wdb ?w1)" "elsewhere tid ws (wdb ?w1) = elsewhere tid ws ?d"
    using started_stage [of ?sel ?d allocs tid] allocs(1) len assms(12) by (simp_all add: assms(13))
  from campaign_runs [OF assms(1-3,14) _ stage(1)] assms(4) obtain w2 where
    run: "campaign (connected x base c) tid ps ?w1 = (Inr (), w2)" and
    finished: "at_stage tid ws [] [] (row_statuses (\<lambda>_. WorkerStatusReserved) ps) (wdb w2)" "elsewhere tid ws (wdb w2) = elsewhere tid ws (wdb ?w1)" by auto
  have said: "row_statuses (\<lambda>_. WorkerStatusReserved) ps v = said (last (filter (\<lambda>p. whose p = v) ps) = Beat v True)"
    if "v \<in> set ws" for v
    using row_statuses_last [OF assms(14) at_stageD(8) [OF stage(1)] _ that] schedule_heard [OF assms(14), of v] that
    by (simp add: Let_def)
  have "map wID (map (\<lambda>w. w\<lparr>wStatus := WorkerStatusReserved\<rparr>) ?sel) = ws" by (simp add: assms(13))
  with start run finished(2) stage(2) at_stageD(4,6,9) [OF finished(1)] said show ?thesis
    by (intro exI [of _ "map (\<lambda>w. w\<lparr>wStatus := WorkerStatusReserved\<rparr>) ?sel"] exI [of _ ?w1] exI [of _ w2])
       (auto simp: stage_of_def)
qed

text \<open>Heartbeats that lag behind and run ahead: \<open>v\<close> still says IDLE after it began and is found IDLE by its
  completion; \<open>w\<close> says RUNNING before it begins, and again after its completion, so that it ends RUNNING.\<close>

definition ex_progress :: "progress list" where
  "ex_progress = [Began ''v'', Beat ''w'' True, Beat ''v'' False, Began ''w'', Finished ''v'', Beat ''v'' False,
     Finished ''w'', Beat ''w'' True]"

theorem test_runs_to_completion_witness:
  "\<exists>w1 w2. TestService_StartTest (cpService (vulcan 100)) ex_patience ''A'' (ex_world ex_created) = (Inr ex_reserved, w1) \<and>
    campaign (connected ex_api ''http://c'' ex_codec) ''A'' ex_progress w1 = (Inr (), w2) \<and>
    test_status ''A'' (wdb w2) = Some StatusCompleted \<and>
    (\<forall>v\<in>set (dWorkers (wdb w2)). wID v \<notin> set [''w'', ''v''] \<or>
       wStatus v = (if last (filter (\<lambda>p. whose p = wID v) ex_progress) = Beat (wID v) True
         then WorkerStatusRunning else WorkerStatusIdle))"
proof -
  let ?t = "ex_test ''A'' 200 2 StatusCreated 3"
  have t: "?t \<in> set (dTests ex_created)" "tID ?t = ''A''" "tStatus ?t = StatusCreated" "tRPS ?t = 200"
    by (simp_all add: ex_db_defs ex_test_def)
  have n: "2 \<le> int (length (idle_by_heartbeat ex_created))" "''A'' \<notin> aTestID ` set (dAssignments ex_created)"
    "[''w'', ''v''] = map wID (take (nat 2) (idle_by_heartbeat ex_created))"
    by (simp_all add: idle_by_heartbeat_def ex_db_defs ex_row_defs)
  have ids: "list_all id_ok [''w'', ''v'']" "plain_base ''http://c''" by code_simp+
  have "schedule [''w'', ''v''] [''w'', ''v''] [] ex_progress" by (simp add: ex_progress_def)
  from test_runs_to_completion [OF ex_agreed ids(2,1), of "ex_world ex_created" ?t "''A''"
      "cpService (vulcan 100)" 2 ex_progress ex_patience] this t n ex_integrity(1)
  show ?thesis by (auto simp: vulcan_capacity ex_required max_int4_def ex_start_step)
qed

end
