(* ===== verification/Polling.thy ===== *)
theory Polling
  imports Campaign
begin

text \<open>
  What the workers of a started test are told when they poll: the description of the test and the share
  of its rate that was written for them, so that together they are told to send exactly the rate asked
  for. It rests on exclusive reservation: an idle worker has no reservation left over.
\<close>

lemma set_singleton: "set xs = {x} \<Longrightarrow> \<exists>rest. xs = x # rest"
  by (cases xs) auto

lemma reserved_found:
  assumes "a0 \<in> set (dAssignments d)" "aWorkerID a0 = v" "aStatus a0 = AssignmentStatusReserved"
    and "t0 \<in> set (dTests d)" "tID t0 = aTestID a0"
    and "\<And>a. a \<in> set (dAssignments d) \<Longrightarrow> aWorkerID a = v \<Longrightarrow> aStatus a = AssignmentStatusReserved \<Longrightarrow> a = a0"
    and "\<And>t. t \<in> set (dTests d) \<Longrightarrow> tID t = tID t0 \<Longrightarrow> t = t0"
  shows "sql_reserved_assignment v d = Inr (d, assignment_details a0 t0)"
proof -
  let ?xs = "[(a, t). a \<leftarrow> dAssignments d, t \<leftarrow> dTests d, tID t = aTestID a \<and> aWorkerID a = v \<and>
      aStatus a = AssignmentStatusReserved]"
  have "set ?xs = {(a0, t0)}"
  proof (intro set_eqI iffI)
    fix p assume "p \<in> set ?xs"
    then obtain a t where "p = (a, t)" "a \<in> set (dAssignments d)" "t \<in> set (dTests d)" "tID t = aTestID a"
      "aWorkerID a = v" "aStatus a = AssignmentStatusReserved" by (auto split: if_splits)
    moreover from this(2,5,6) have "a = a0" by (rule assms(6))
    moreover from this \<open>t \<in> set (dTests d)\<close> \<open>tID t = aTestID a\<close> have "t = t0" using assms(5) by (intro assms(7)) simp_all
    ultimately show "p \<in> {(a0, t0)}" by simp
  next
    fix p assume "p \<in> {(a0, t0)}"
    with assms(1-5) show "p \<in> set ?xs" by (auto intro!: bexI [of _ a0] bexI [of _ t0])
  qed
  from set_singleton [OF this] obtain rest where "?xs = (a0, t0) # rest" by blast
  then show ?thesis by (simp only: sql_reserved_assignment_def list.case prod.case)
qed

lemma poll_quiet:
  assumes "quiet w" "sql_reserved_assignment v (wdb w) = Inr (wdb w, a)"
  shows "WorkerService_GetReservedAssignment v w = (Inr (Some a), w)"
  using assms by (simp add: WorkerService_GetReservedAssignment_def WorkerRepo_GetReservedAssignment_def io_defs quiet_simps)

text \<open>The row of the \<open>i\<close>-th worker of a start is found, and only it.\<close>

lemma started_poll:
  assumes "exclusive d" "integrity d" "sel = take m (idle_by_heartbeat d)" "length allocs = length sel" "i < length sel"
    and "t \<in> set (dTests d)" "tID t = tid" "tid \<notin> aTestID ` set (dAssignments d)"
  shows "sql_reserved_assignment (wID (sel ! i)) (started_db tid sel allocs d) =
    Inr (started_db tid sel allocs d,
      assignment_details (assignment_row tid (dNow d) (sel ! i, allocs ! i)) (started_test (int (length sel)) (dNow d) t))"
proof -
  let ?row = "assignment_row tid (dNow d)" and ?d = "started_db tid sel allocs d"
  have dist: "distinct (map wID sel)" and dt: "distinct (map tID (dTests d))"
    using assms(2) distinct_idle_by_heartbeat [of d m] by (auto simp: assms(3) integrity_def)
  have idle: "u \<in> set (dWorkers d) \<and> wStatus u = WorkerStatusIdle" if "u \<in> set sel" for u
    using that set_idle_by_heartbeat [of d] by (auto simp: assms(3) dest: in_set_takeD)
  have rows: "dAssignments ?d = dAssignments d @ map ?row (zip sel allocs)"
    "dTests ?d = update_where (\<lambda>t. tID t = tid) (started_test (int (length sel)) (dNow d)) (dTests d)"
    by (simp_all add: started_db_def reserved_db_def)
  have old: "aStatus a \<noteq> AssignmentStatusReserved" if "a \<in> set (dAssignments d)" "aWorkerID a = wID (sel ! i)" for a
  proof
    assume "aStatus a = AssignmentStatusReserved"
    from exclusiveD(2) [OF assms(1) that(1) this, of "sel ! i"] idle [of "sel ! i"] assms(5) that(2)
    show False by (simp add: holds_reservation_def)
  qed
  show ?thesis
  proof (rule reserved_found)
    show "?row (sel ! i, allocs ! i) \<in> set (dAssignments ?d)"
      using assms(4,5) by (auto simp: rows set_zip)
    show "started_test (int (length sel)) (dNow d) t \<in> set (dTests ?d)"
      unfolding rows using assms(6,7) by (intro in_update_where_hit)
    show "a = ?row (sel ! i, allocs ! i)" if "a \<in> set (dAssignments ?d)" "aWorkerID a = wID (sel ! i)"
      "aStatus a = AssignmentStatusReserved" for a
    proof -
      from that old obtain u q where a: "a = ?row (u, q)" "(u, q) \<in> set (zip sel allocs)" by (auto simp: rows)
      then obtain j where j: "j < length sel" "u = sel ! j" "q = allocs ! j" by (auto simp: set_zip)
      from a(1) that(2) j have "wID (sel ! j) = wID (sel ! i)" by (simp add: assignment_row_def)
      with dist j(1) assms(5) have "j = i" by (simp add: distinct_conv_nth) (metis nth_map)
      with a(1) j show ?thesis by simp
    qed
    show "u = started_test (int (length sel)) (dNow d) t" if "u \<in> set (dTests ?d)"
      "tID u = tID (started_test (int (length sel)) (dNow d) t)" for u
      using that(1) unfolding rows
    proof (cases rule: in_update_whereE)
      case (1 s)
      with dt assms(6,7) have "s = t" by (auto simp: distinct_map dest: inj_onD)
      with 1 show ?thesis by simp
    next
      case 2
      with that(2) assms(7) show ?thesis by (simp add: started_test_def)
    qed
  qed (use assms(7) in \<open>simp_all add: assignment_row_def started_test_def\<close>)
qed

text \<open>C3: the workers are told the rate. On a server that only these clients use and whose reservations
  are exclusive, a start with enough idle workers writes shares between one and the capacity of a
  worker that add up to the rate of the test; afterwards the poll of the \<open>i\<close>-th reserved worker over HTTP
  answers with an assignment to the test, with its target, method, duration and concurrency and with
  the \<open>i\<close>-th share, and changes nothing.\<close>

theorem workers_are_told_the_rate:
  assumes "agreed_apis x c" "plain_base base" "list_all id_ok ws"
    and "quiet w" "integrity (wdb w)" "t \<in> set (dTests (wdb w))" "tID t = tid" "tStatus t = StatusCreated"
    and "RequiredWorkers (tRPS t) (tsWorkerCapacityRPS s) = Inr n" "tsWorkerCapacityRPS s \<le> max_int4"
    and "n \<le> int (length (idle_by_heartbeat (wdb w)))" "tid \<notin> aTestID ` set (dAssignments (wdb w))"
    and "exclusive (wdb w)" "ws = map wID (take (nat n) (idle_by_heartbeat (wdb w)))"
  shows "\<exists>workers w1 shares. TestService_StartTest s pat tid w = (Inr workers, w1) \<and> map wID workers = ws \<and>
    length shares = length ws \<and> sum_list shares = tRPS t \<and> list_all (\<lambda>q. 1 \<le> q \<and> q \<le> tsWorkerCapacityRPS s) shares \<and>
    list_all (\<lambda>(v, q). Client_GetAssignment (connected x base c) v w1 =
      (Inr \<lparr>arAssigned = True, arTestID = tid, arStatus = ''RESERVED'', arTargetURL = tTargetURL t,
         arMethod = tMethod t, arDurationSec = tDurationSec t, arRPS = q, arConcurrency = tConcurrency t\<rparr>, w1))
      (zip ws shares)"
proof -
  let ?d = "wdb w" and ?sel = "take (nat n) (idle_by_heartbeat (wdb w))"
  from StartTest_exact [OF assms(4-12), of pat] obtain allocs where
    allocs: "length allocs = nat n" "sum_list allocs = tRPS t" "\<forall>q\<in>set allocs. 1 \<le> q \<and> q \<le> tsWorkerCapacityRPS s" and
    start: "TestService_StartTest s pat tid w = (Inr (map (\<lambda>w. w\<lparr>wStatus := WorkerStatusReserved\<rparr>) ?sel),
      w\<lparr>wdb := started_db tid ?sel allocs ?d\<rparr>)" by blast
  let ?w1 = "w\<lparr>wdb := started_db tid ?sel allocs ?d\<rparr>"
  have len: "length allocs = length ?sel" using allocs(1) assms(11) by simp
  have "Client_GetAssignment (connected x base c) (ws ! i) ?w1 =
      (Inr \<lparr>arAssigned = True, arTestID = tid, arStatus = ''RESERVED'', arTargetURL = tTargetURL t,
         arMethod = tMethod t, arDurationSec = tDurationSec t, arRPS = allocs ! i, arConcurrency = tConcurrency t\<rparr>, ?w1)"
    if "i < length ?sel" for i
  proof -
    have v: "ws ! i = wID (?sel ! i)" "id_ok (ws ! i)" using that assms(3) by (simp_all add: assms(14) list_all_length)
    have "WorkerService_GetReservedAssignment (ws ! i) ?w1 = (Inr (Some (assignment_details
        (assignment_row tid (dNow ?d) (?sel ! i, allocs ! i)) (started_test (int (length ?sel)) (dNow ?d) t))), ?w1)"
      using started_poll [OF assms(13,5) refl len that assms(6,7,12)] assms(4) v(1) by (intro poll_quiet) simp_all
    from same_call_ok [OF remote_query(1) [OF assms(1,2) v(2)] this] show ?thesis
      by (simp add: assignment_response_def assignment_details_def assignment_row_def started_test_def)
  qed
  then show ?thesis
    using start allocs len by (intro exI [of _ "map (\<lambda>w. w\<lparr>wStatus := WorkerStatusReserved\<rparr>) ?sel"] exI [of _ ?w1] exI [of _ allocs])
      (auto simp: assms(14) list_all_length list_all_iff set_zip)
qed

theorem workers_are_told_the_rate_witness:
  "\<exists>w1 q1 q2. TestService_StartTest (cpService (vulcan 100)) ex_patience ''A'' (ex_world ex_created) = (Inr ex_reserved, w1) \<and>
    map_sum id arRPS (fst (Client_GetAssignment (connected ex_api ''http://c'' ex_codec) ''w'' w1)) = Inr q1 \<and>
    map_sum id arRPS (fst (Client_GetAssignment (connected ex_api ''http://c'' ex_codec) ''v'' w1)) = Inr q2 \<and>
    q1 + q2 = 200"
proof -
  let ?t = "ex_test ''A'' 200 2 StatusCreated 3"
  have t: "?t \<in> set (dTests ex_created)" "tID ?t = ''A''" "tStatus ?t = StatusCreated" "tRPS ?t = 200"
    by (simp_all add: ex_db_defs ex_test_def)
  have n: "2 \<le> int (length (idle_by_heartbeat ex_created))" "''A'' \<notin> aTestID ` set (dAssignments ex_created)"
    "exclusive ex_created" "[''w'', ''v''] = map wID (take (nat 2) (idle_by_heartbeat ex_created))"
    by (simp_all add: idle_by_heartbeat_def exclusive_def ex_db_defs ex_row_defs)
  have ids: "list_all id_ok [''w'', ''v'']" "plain_base ''http://c''" by code_simp+
  from workers_are_told_the_rate [OF ex_agreed ids(2,1), of "ex_world ex_created" ?t "''A''"
      "cpService (vulcan 100)" 2 ex_patience] t n ex_integrity(1)
  show ?thesis
    by (auto simp: vulcan_capacity ex_required max_int4_def ex_start_step length_Suc_conv numeral_2_eq_2)
qed

end
