(* ===== verification/Programs.thy ===== *)
theory Programs
  imports Deployment Traffic Reporting Runtime
begin

text \<open>
  The three programs of \<open>cmd/\<close> from their start to their end. The goroutines of the server appear as the
  activities of \<open>Traffic\<close>: its two background loops are shown to be sequences of cycles that nothing
  but the end of the program stops. What the operating system, the network and the libraries do are
  arguments: the answers to connecting and listening, the requests, the ticks and the signals.
\<close>

section \<open>The server\<close>

text \<open>The handlers around the services of \<open>server_main\<close>; router and codec come from \<open>libs\<close>.\<close>

definition server_api :: "ProcessProvisioner api \<Rightarrow> Config \<Rightarrow> control_plane \<Rightarrow> ProcessProvisioner api" where
  "server_api libs cfg cp = libs\<lparr>apService := cpService cp, apMetricsURL := cfVictoriaMetricsURL cfg\<rparr>"

text \<open>
  It serves until \<open>ListenAndServe\<close> returns, which it does only with an error; \<open>script\<close> is what happens to
  the statements on the database \<open>d\<close>.
\<close>

definition server_program ::
    "environment \<Rightarrow> (string \<Rightarrow> go_error option) \<Rightarrow> (string \<Rightarrow> go_error option) \<Rightarrow> string list \<Rightarrow> os_event list \<Rightarrow>
     ProcessProvisioner api \<Rightarrow> db \<Rightarrow> db_event list \<Rightarrow> activity list \<Rightarrow> go_error \<Rightarrow>
     exit \<times> ProcessProvisioner world option" where
  "server_program env new_pool ping environ os libs d script xs listen_err =
     (case server_main env (db_New new_pool ping) environ os of
        Inl err \<Rightarrow> (Exit1 err, None)
      | Inr (cfg, prov, cp) \<Rightarrow>
          (Exit1 listen_err, Some (run_traffic (server_api libs cfg cp) (cfControlPlaneURL cfg) cp xs
             \<lparr>wdb = d, wscript = script, wprov = prov\<rparr>)))"

section \<open>The background loops\<close>

lemma never_fails:
  assumes "\<And>err w. \<exists>w'. h err w = (Inr (), w')"
  shows "\<exists>w'. catchM m h w = (Inr (), w')"
proof -
  obtain r w1 where m: "m w = (r, w1)" by fastforce
  show ?thesis
  proof (cases r)
    case (Inl err)
    with assms [of err w1] m show ?thesis by (simp add: catchM_def)
  next
    case (Inr u)
    with m show ?thesis by (simp add: catchM_def)
  qed
qed

lemma cycles_never_fail:
  "\<exists>w'. Reconciler_runOnce r w = (Inr (), w')" "\<exists>w'. WorkerReconciler_reconcile now w = (Inr (), w')"
  unfolding Reconciler_runOnce_def WorkerReconciler_reconcile_def by (rule never_fails, simp add: retM_def)+

lemma run_traffic_simps [simp]:
  "run_traffic a base cp [] w = w"
  "run_traffic a base cp (x # xs) w = run_traffic a base cp xs (act a base cp x w)"
  by (simp_all add: run_traffic_def)

lemma run_ticks_cycles:
  "run_ticks (cpReconciler cp) n err w = (Inl err, run_traffic a base cp (replicate n AutoscalerCycle) w)"
proof (induction n arbitrary: w)
  case 0
  then show ?case by (simp add: failM_def)
next
  case (Suc n)
  from cycles_never_fail(1) [of "cpReconciler cp" w] obtain w' where
    "Reconciler_runOnce (cpReconciler cp) w = (Inr (), w')" by blast
  with Suc.IH [of w'] show ?case by (simp add: tryM_def)
qed

lemma sweeps_cycles:
  "WorkerReconciler_Start nows w = (Inr (), run_traffic a base cp (map HealthSweep nows) w)"
proof (induction nows arbitrary: w)
  case Nil
  then show ?case by (simp add: retM_def)
next
  case (Cons now nows)
  from cycles_never_fail(2) [of now w] obtain w' where
    "WorkerReconciler_reconcile now w = (Inr (), w')" by blast
  with Cons.IH [of w'] show ?case by (simp add: tryM_def)
qed

text \<open>C26: the background loops of the server survive everything. With any configuration that loads, the
  autoscaler loop accepts its interval, runs one cycle at once and one per tick, whatever fails in
  them, and returns nothing but the error of its context; the health loop runs one sweep per tick and
  never returns an error. So the loops are exactly sequences of cycles between the requests.\<close>

theorem background_loops_survive:
  assumes "LoadServerConfig env = Inr cfg" "cp = vulcan (cfWorkerCapacityRPS cfg)"
  shows "Reconciler_Run (cpReconciler cp) (cfAutoscalerInterval cfg) None ticks ctx_err w =
      (Inl ctx_err, run_traffic a base cp (replicate (Suc ticks) AutoscalerCycle) w) \<and>
    WorkerReconciler_Start nows w = (Inr (), run_traffic a base cp (map HealthSweep nows) w)"
proof -
  have "0 < cfAutoscalerInterval cfg"
    using assms(1) load_ranges [of env] by (auto simp: LoadServerConfig_def Let_def split: if_splits)
  moreover obtain w1 where "Reconciler_runOnce (cpReconciler cp) w = (Inr (), w1)"
    using cycles_never_fail(1) by blast
  ultimately show ?thesis
    using run_ticks_cycles [of cp ticks ctx_err w1 a base] sweeps_cycles [of nows w a base cp]
    by (simp add: Reconciler_Run_def tryM_def)
qed

definition ex_env :: environment where
  "ex_env name = (if name = ''AUTOSCALER_INTERVAL'' then ''-3s'' else if name = ''WORKER_CAPACITY_RPS'' then []
     else ''http://c'')"

text \<open>An interval that is not positive is replaced by five seconds.\<close>

theorem background_loops_survive_witness:
  "\<exists>cfg. LoadServerConfig ex_env = Inr cfg \<and> cfAutoscalerInterval cfg = 5000000000 \<and>
    fst (Reconciler_Run (cpReconciler (vulcan (cfWorkerCapacityRPS cfg))) (cfAutoscalerInterval cfg) None 2
      ContextCanceled (ex_world ex_created)) = Inl ContextCanceled"
proof -
  obtain cfg where cfg: "LoadServerConfig ex_env = Inr cfg" "cfAutoscalerInterval cfg = 5000000000"
  proof -
    have "parsePositiveDuration ''-3s'' 5000000000 = 5000000000" by code_simp
    then have "LoadServerConfig ex_env = Inr (load ex_env)" "cfAutoscalerInterval (load ex_env) = 5000000000"
      by (simp_all add: LoadServerConfig_def load_def ex_env_def or_default_def Let_def)
    then show ?thesis by (rule that)
  qed
  then show ?thesis
    using background_loops_survive [OF cfg(1) refl, of 2 ContextCanceled "ex_world ex_created" ex_api "[]" "[]"]
    by simp
qed

text \<open>A server that starts keeps its tables sound for as long as it runs.\<close>

lemma server_program_sound:
  assumes "server_program env new_pool ping environ os libs d script xs listen_err = (e, Some w)"
    and "\<And>x d'. x \<in> set script \<Longrightarrow> reaches d' (ev_env x d')" "integrity d"
  shows "integrity (wdb w) \<and> evolves d (wdb w)"
proof -
  from assms(1) obtain cfg prov where w: "w = run_traffic (server_api libs cfg (vulcan (cfWorkerCapacityRPS cfg)))
      (cfControlPlaneURL cfg) (vulcan (cfWorkerCapacityRPS cfg)) xs \<lparr>wdb = d, wscript = script, wprov = prov\<rparr>"
    by (auto simp: server_program_def server_main_def split: sum.splits option.splits)
  have "reaches d (wdb w)"
    unfolding w using histories.R_traffic [of "server_api libs cfg (vulcan (cfWorkerCapacityRPS cfg))"
        "cfWorkerCapacityRPS cfg" "\<lparr>wdb = d, wscript = script, wprov = prov\<rparr>"] assms(2)
    by (simp add: server_api_def env_ok_def)
  from reaches_sound [OF this] assms(3) show ?thesis by (simp add: sound_step_def)
qed

section \<open>The worker\<close>

text \<open>
  \<open>client\<close> makes the client for the address of the control plane. The result is \<open>None\<close> while the process
  still tries to register; it ends with exit status 0 (the process as its goroutines left it) when its
  context is cancelled after the registration, and with 1 when it is cancelled before.
\<close>

definition worker_program ::
    "(string \<Rightarrow> go_error + string) \<Rightarrow> (string \<Rightarrow> go_error + WorkerConfig) \<Rightarrow> environment \<Rightarrow>
     (string \<Rightarrow> go_error option) \<Rightarrow> (string \<Rightarrow> 's Client) \<Rightarrow> wake list \<Rightarrow> runtime_event list \<Rightarrow> 's \<Rightarrow>
     (exit + 's process) option" where
  "worker_program read_file unmarshal env connect client wakes es s =
     (case worker_main read_file unmarshal env connect of
        Inl e \<Rightarrow> Some (Inl e)
      | Inr (level, cfg, ag) \<Rightarrow>
          (case Runtime_Start (client (wcURL cfg)) wakes es (ag, s) of
             None \<Rightarrow> None
           | Some (Inl err) \<Rightarrow> Some (Inl (Exit1 err))
           | Some (Inr pr) \<Rightarrow> Some (Inr pr)))"

section \<open>The aggregator\<close>

text \<open>A message that does not decode is logged and dropped; \<open>Create\<close> runs when the first look-up misses.\<close>

definition subscribe_callback :: "(string \<Rightarrow> go_error + MetricBucket) \<Rightarrow> string \<Rightarrow> aggregator \<Rightarrow> action list" where
  "subscribe_callback unmarshal data s =
     (case unmarshal data of
        Inl err \<Rightarrow> []
      | Inr bucket \<Rightarrow> [Receive bucket, Find] @
          (case store_find (mbTestID bucket) s of None \<Rightarrow> [Create] | Some r \<Rightarrow> []) @ [Merge])"

text \<open>\<open>Aggregator.Run\<close>: the report loop beside the subscription; it returns when its context ends.\<close>

definition Aggregator_Run ::
    "(string \<Rightarrow> go_error option) \<Rightarrow> (string \<Rightarrow> go_error option) \<Rightarrow> server \<Rightarrow> Writer \<Rightarrow> report_event list \<Rightarrow>
     aggregator \<Rightarrow> go_error + (aggregator \<times> http_request list) option" where
  "Aggregator_Run subscribe url_ok srv w evs s =
     (case subscribe ''metrics.test.*'' of
        Some err \<Rightarrow> Inl err
      | None \<Rightarrow> Inr (reportLoop url_ok srv w evs (s, [])))"

definition aggregator_program ::
    "environment \<Rightarrow> (string \<Rightarrow> go_error option) \<Rightarrow> (string \<Rightarrow> go_error option) \<Rightarrow> (string \<Rightarrow> go_error option) \<Rightarrow>
     server \<Rightarrow> report_event list \<Rightarrow> exit + (aggregator \<times> http_request list) option" where
  "aggregator_program env connect subscribe url_ok srv evs =
     (case aggregator_main env connect of
        Inl e \<Rightarrow> Inl e
      | Inr (cfg, store, writer) \<Rightarrow>
          (case Aggregator_Run subscribe url_ok srv writer evs store of
             Inl err \<Rightarrow> Inl (Fatal err)
           | Inr st \<Rightarrow> Inr st))"

text \<open>A callback that nothing interrupts always runs to its end and merges exactly its bucket.\<close>

lemma callback_runs:
  assumes "agSubscriber s = Waiting" "agReporter s = Resting"
  shows "\<exists>s'. agg_run (subscribe_callback unmarshal data s) s = Some s' \<and> agSubscriber s' = Waiting \<and>
    agReporter s' = Resting \<and> agReports s' = agReports s \<and>
    agMerged s' = agMerged s @ (case unmarshal data of Inl err \<Rightarrow> [] | Inr bucket \<Rightarrow> [bucket])"
  using assms
  by (auto simp: subscribe_callback_def store_find_def store_create_def split: sum.split option.split)

end
