(* ===== verification/Interruption.thy ===== *)
theory Interruption
  imports Reservations
begin

text \<open>
  What another client commits between two round trips of one operation. An operation on a quiet server
  runs in the same way when the script holds as many quiet events as it makes round trips, so an event
  placed behind them falls exactly before the next statement. Applied to a start, this is a stop between
  the reservation and the last statement.
\<close>

section \<open>Undisturbed round trips\<close>

text \<open>\<open>undisturbed m w\<close>: on the quiet server of \<open>w\<close> the operation makes some number of round trips, and
  whatever the script holds for later is left alone.\<close>

definition undisturbed :: "('p, 'a) io \<Rightarrow> 'p world \<Rightarrow> bool" where
  "undisturbed m w \<longleftrightarrow> quiet w \<and> quiet (snd (m w)) \<and>
     (\<exists>k. \<forall>es. m (w\<lparr>wscript := replicate k quiet_event @ es\<rparr>) = (fst (m w), (snd (m w))\<lparr>wscript := es\<rparr>))"

lemma undisturbedE:
  assumes "undisturbed m w" "m w = (r, w')"
  obtains k where "quiet w'" "\<And>es. m (w\<lparr>wscript := replicate k quiet_event @ es\<rparr>) = (r, w'\<lparr>wscript := es\<rparr>)"
  using assms unfolding undisturbed_def by auto

lemma undisturbedI:
  assumes "quiet w" "m w = (r, w')" "quiet w'"
    and "\<And>es. m (w\<lparr>wscript := replicate k quiet_event @ es\<rparr>) = (r, w'\<lparr>wscript := es\<rparr>)"
  shows "undisturbed m w"
  using assms unfolding undisturbed_def by auto

lemma world_script_self [simp]: "wscript w = es \<Longrightarrow> w\<lparr>wscript := es\<rparr> = w"
  by auto

lemma undisturbed_retM: "quiet w \<Longrightarrow> undisturbed (retM x) w"
  by (rule undisturbedI [where k = 0]) (simp_all add: retM_def)

lemma undisturbed_failM: "quiet w \<Longrightarrow> undisturbed (failM e) w"
  by (rule undisturbedI [where k = 0]) (simp_all add: failM_def)

lemma undisturbed_pool_stmt:
  assumes "quiet w"
  shows "undisturbed (pool_stmt q) w"
  by (rule undisturbedI [where k = 1 and r = "fst (pool_stmt q w)" and w' = "snd (pool_stmt q w)"])
     (use assms in \<open>simp_all add: pool_stmt_def next_event_def quiet_event_def Let_def split: sum.split\<close>)

lemma undisturbed_tx_stmt_locking:
  assumes "quiet w"
  shows "undisturbed (tx_stmt_locking q) w"
  by (rule undisturbedI [where k = 1 and r = "fst (tx_stmt_locking q w)" and w' = "snd (tx_stmt_locking q w)"])
     (use assms in \<open>simp_all add: tx_stmt_locking_def next_event_def quiet_event_def Let_def split: sum.split\<close>)

lemma undisturbed_tx_stmt: "quiet w \<Longrightarrow> undisturbed (tx_stmt q) w"
  unfolding tx_stmt_def by (rule undisturbed_tx_stmt_locking)

lemma undisturbed_tryM:
  assumes "undisturbed m w" "\<And>x w1. m w = (Inr x, w1) \<Longrightarrow> quiet w1 \<Longrightarrow> undisturbed (k x) w1"
  shows "undisturbed (tryM m k) w"
proof -
  have quiet: "quiet w" using assms(1) by (simp add: undisturbed_def)
  obtain r w1 where m: "m w = (r, w1)" by fastforce
  with assms(1) obtain i where i: "quiet w1"
    "\<And>es. m (w\<lparr>wscript := replicate i quiet_event @ es\<rparr>) = (r, w1\<lparr>wscript := es\<rparr>)" by (rule undisturbedE) blast
  show ?thesis
  proof (cases r)
    case (Inl e)
    with quiet m i show ?thesis
      by (intro undisturbedI [where k = i and r = "Inl e" and w' = w1]) (simp_all add: tryM_def)
  next
    case (Inr x)
    obtain r2 w2 where k: "k x w1 = (r2, w2)" by fastforce
    from assms(2) [of x w1] m Inr i(1) have "undisturbed (k x) w1" by simp
    from this k obtain j where j: "quiet w2"
      "\<And>es. k x (w1\<lparr>wscript := replicate j quiet_event @ es\<rparr>) = (r2, w2\<lparr>wscript := es\<rparr>)"
      by (rule undisturbedE) blast
    from quiet m Inr k i j show ?thesis
      by (intro undisturbedI [where k = "i + j" and r = r2 and w' = w2])
         (simp_all add: tryM_def replicate_add)
  qed
qed

lemma undisturbed_catchM:
  assumes "undisturbed m w" "\<And>e w1. m w = (Inl e, w1) \<Longrightarrow> quiet w1 \<Longrightarrow> undisturbed (h e) w1"
  shows "undisturbed (catchM m h) w"
proof -
  have quiet: "quiet w" using assms(1) by (simp add: undisturbed_def)
  obtain r w1 where m: "m w = (r, w1)" by fastforce
  with assms(1) obtain i where i: "quiet w1"
    "\<And>es. m (w\<lparr>wscript := replicate i quiet_event @ es\<rparr>) = (r, w1\<lparr>wscript := es\<rparr>)" by (rule undisturbedE) blast
  show ?thesis
  proof (cases r)
    case (Inr x)
    with quiet m i show ?thesis
      by (intro undisturbedI [where k = i and r = "Inr x" and w' = w1]) (simp_all add: catchM_def)
  next
    case (Inl e)
    obtain r2 w2 where h: "h e w1 = (r2, w2)" by fastforce
    from assms(2) [of e w1] m Inl i(1) have "undisturbed (h e) w1" by simp
    from this h obtain j where j: "quiet w2"
      "\<And>es. h e (w1\<lparr>wscript := replicate j quiet_event @ es\<rparr>) = (r2, w2\<lparr>wscript := es\<rparr>)"
      by (rule undisturbedE) blast
    from quiet m Inl h i j show ?thesis
      by (intro undisturbedI [where k = "i + j" and r = r2 and w' = w2])
         (simp_all add: catchM_def replicate_add)
  qed
qed

lemma undisturbed_wrapM:
  assumes "undisturbed m w"
  shows "undisturbed (wrapM msg m) w"
proof -
  obtain r w1 where m: "m w = (r, w1)" by fastforce
  with assms obtain i where i: "quiet w1"
    "\<And>es. m (w\<lparr>wscript := replicate i quiet_event @ es\<rparr>) = (r, w1\<lparr>wscript := es\<rparr>)" by (rule undisturbedE) blast
  with m assms show ?thesis
    by (intro undisturbedI [where k = i and r = "fst (wrapM msg m w)" and w' = w1])
       (simp_all add: wrapM_def undisturbed_def split: sum.split)
qed

lemma next_quiet: "next_event (w\<lparr>wscript := quiet_event # es\<rparr>) = (quiet_event, w\<lparr>wscript := es\<rparr>)"
  by (simp add: next_event_def)

lemma quiet_event_simps: "ev_env quiet_event = id" "ev_out quiet_event = Done"
  by (simp_all add: quiet_event_def)

lemma script_only: "wdb (w\<lparr>wscript := es\<rparr>) = wdb w" "w\<lparr>wscript := es, wdb := wdb w\<rparr> = w\<lparr>wscript := es\<rparr>"
  by simp_all

lemma undisturbed_in_tx:
  assumes "undisturbed body w"
  shows "undisturbed (in_tx msg body) w"
proof -
  have quiet: "quiet w" using assms by (simp add: undisturbed_def)
  obtain r w1 where b: "body w = (r, w1)" by fastforce
  with assms obtain i where i: "quiet w1"
    "\<And>es. body (w\<lparr>wscript := replicate i quiet_event @ es\<rparr>) = (r, w1\<lparr>wscript := es\<rparr>)" by (rule undisturbedE) blast
  have begins: "in_tx msg body (w\<lparr>wscript := quiet_event # es\<rparr>) =
      (case body (w\<lparr>wscript := es\<rparr>) of
         (Inl err, w2) \<Rightarrow> (Inl err, w2\<lparr>wdb := wdb w\<rparr>)
       | (Inr (wrap, x), w2) \<Rightarrow>
           (let (e', w3) = next_event w2 in
            case ev_out e' of
              Done \<Rightarrow> (Inr x, w3) | Failed err \<Rightarrow> (Inl (wrap err), w3\<lparr>wdb := wdb w\<rparr>) | Lost err \<Rightarrow> (Inl (wrap err), w3)))" for es
    unfolding in_tx_def next_quiet prod.case quiet_event_simps id_apply outcome.case script_only Let_def ..
  have alone: "in_tx msg body w =
      (case r of Inl err \<Rightarrow> (Inl err, w1\<lparr>wdb := wdb w\<rparr>) | Inr (wrap, x) \<Rightarrow> (Inr x, w1))"
    using quiet b i(1) by (auto simp: in_tx_def next_event_def quiet_event_def split: sum.split prod.split)
  show ?thesis
  proof (cases r)
    case (Inl e)
    have "in_tx msg body (w\<lparr>wscript := replicate (Suc i) quiet_event @ es\<rparr>) = (Inl e, w1\<lparr>wscript := es, wdb := wdb w\<rparr>)" for es
      using Inl i(2) by (simp add: begins)
    with quiet Inl alone i(1) show ?thesis
      by (intro undisturbedI [where k = "Suc i" and r = "Inl e" and w' = "w1\<lparr>wdb := wdb w\<rparr>"]) simp_all
  next
    case (Inr y)
    obtain wrap x where y: "y = (wrap, x)" by fastforce
    have "in_tx msg body (w\<lparr>wscript := replicate (Suc i + 1) quiet_event @ es\<rparr>) = (Inr x, w1\<lparr>wscript := es\<rparr>)" for es
      using i(2) [of "quiet_event # es"] Inr y
      by (simp add: begins replicate_app_Cons_same next_event_def) (simp add: quiet_event_def)
    with quiet Inr y alone i(1) show ?thesis
      by (intro undisturbedI [where k = "Suc i + 1" and r = "Inr x" and w' = w1]) simp_all
  qed
qed

lemma undisturbed_if: "(b \<Longrightarrow> undisturbed m w) \<Longrightarrow> (\<not> b \<Longrightarrow> undisturbed m' w) \<Longrightarrow> undisturbed (if b then m else m') w"
  by simp

lemmas undisturbed_intros =
  undisturbed_retM undisturbed_failM undisturbed_pool_stmt undisturbed_tx_stmt_locking undisturbed_tx_stmt
  undisturbed_tryM undisturbed_catchM undisturbed_wrapM undisturbed_in_tx undisturbed_if

section \<open>A stop during a start\<close>

text \<open>A start up to its last statement, and the last statement.\<close>

definition start_reserves :: "'p TestService \<Rightarrow> patience \<Rightarrow> string \<Rightarrow> ('p, Worker list) io" where
  "start_reserves s pat testID =
     tryM (TestRepo_GetTestByID testID)
     (\<lambda>test. tryM (TestRepo_TryTransitionStatus testID StatusCreated StatusStarting)
     (\<lambda>ok. if \<not> ok then failM ErrInvalidTestState
        else catchM
            (tryM (case RequiredWorkers (tRPS test) (tsWorkerCapacityRPS s) of
                     Inl err \<Rightarrow> failM err | Inr n \<Rightarrow> retM n)
             (\<lambda>requiredWorkers. tryM (TestRepo_UpdateWorkerCount testID requiredWorkers)
             (\<lambda>_. tryM (TestService_ensureWorkersAvailable s pat requiredWorkers)
             (\<lambda>_. tryM (case DistributeRPS (tRPS test) requiredWorkers of
                          Inl err \<Rightarrow> failM err | Inr allocs \<Rightarrow> retM allocs)
             (\<lambda>rpsAllocations.
                DefaultScheduler_AllocateWorkers (tID test) requiredWorkers rpsAllocations)))))
            (roll_back testID)))"

lemma tryM_guarded:
  assumes "\<And>x w1. m w = (Inr x, w1) \<Longrightarrow> h x = g"
  shows "tryM m (\<lambda>x. tryM p (\<lambda>ok. if \<not> ok then failM e else tryM (b x) (h x))) w =
    tryM (tryM m (\<lambda>x. tryM p (\<lambda>ok. if \<not> ok then failM e else b x))) g w"
  using assms by (auto simp: tryM_def failM_def split: prod.split sum.split)

lemma StartTest_split:
  "TestService_StartTest s pat tid w =
    tryM (start_reserves s pat tid) (\<lambda>ws. tryM (TestRepo_UpdateStatus tid StatusRunning) (\<lambda>_. retM ws)) w"
  unfolding TestService_StartTest_def start_reserves_def
  by (rule tryM_guarded) (auto elim: GetTestByID_InrE)

lemma undisturbed_repo:
  assumes "quiet w"
  shows "undisturbed (TestRepo_GetTestByID tid) w" "undisturbed (TestRepo_TryTransitionStatus tid st st') w"
    "undisturbed (TestRepo_UpdateWorkerCount tid n) w" "undisturbed WorkerRepo_GetWorkers w"
    "undisturbed (WorkerRepo_ReserveWorkersForTest tid n allocs) w"
  unfolding TestRepo_defs WorkerRepo_GetWorkers_def WorkerRepo_ReserveWorkersForTest_def reserve_body_def Let_def
  by (insert assms, (rule undisturbed_intros | assumption)+)

text \<open>With enough idle workers the first part of a start succeeds, undisturbed.\<close>

lemma start_reserves_quiet:
  assumes "quiet w" and d: "d = wdb w" and able: "startable d tid t n allocs"
    and sel: "sel = take (nat n) (idle_by_heartbeat d)"
    and req: "RequiredWorkers (tRPS t) (tsWorkerCapacityRPS s) = Inr n"
    and dist: "DistributeRPS (tRPS t) n = Inr allocs"
  shows "start_reserves s pat tid w = (Inr (map (\<lambda>w. w\<lparr>wStatus := WorkerStatusReserved\<rparr>) sel),
      w\<lparr>wdb := reserved_db tid sel allocs (counted_db tid n (claimed_db tid d))\<rparr>)"
    and "undisturbed (start_reserves s pat tid) w"
proof -
  note steps = StartTest_steps [OF assms(1) d able sel]
  let ?d1 = "claimed_db tid d" and ?d2 = "counted_db tid n (claimed_db tid d)"
  let ?w1 = "w\<lparr>wdb := ?d1\<rparr>" and ?w2 = "w\<lparr>wdb := ?d2\<rparr>"
  have q: "quiet ?w1" "quiet ?w2" using assms(1) by simp_all
  have enough: "n \<le> int (length (idle_by_heartbeat ?d2))" and t: "tID t = tid"
    using able by (simp_all add: startable_def idle_by_heartbeat_def)
  have ensure: "TestService_ensureWorkersAvailable s pat n ?w2 = (Inr (), ?w2)"
    using q(2) enough by (intro ensure_enough) simp_all
  have "count_idle (sort_key (\<lambda>w. - wRegisteredAt w) (dWorkers ?d2)) = count_idle (dWorkers ?d2)"
    by (simp add: count_idle_def)
  then have u_ensure: "undisturbed (TestService_ensureWorkersAvailable s pat n) ?w2"
    unfolding TestService_ensureWorkersAvailable_def Let_def
    using q(2) able
    by (intro undisturbed_tryM [OF undisturbed_repo(4) [OF q(2)]])
       (auto simp: GetWorkers_quiet count_idle_eq startable_def intro: undisturbed_retM)
  show "start_reserves s pat tid w = (Inr (map (\<lambda>w. w\<lparr>wStatus := WorkerStatusReserved\<rparr>) sel),
      w\<lparr>wdb := reserved_db tid sel allocs (counted_db tid n (claimed_db tid d))\<rparr>)"
    using steps ensure req dist t
    by (simp add: start_reserves_def DefaultScheduler_AllocateWorkers_def tryM_def catchM_def retM_def wrapM_def)
  let ?body = "tryM (case RequiredWorkers (tRPS t) (tsWorkerCapacityRPS s) of Inl err \<Rightarrow> failM err | Inr n \<Rightarrow> retM n)
     (\<lambda>n. tryM (TestRepo_UpdateWorkerCount tid n)
     (\<lambda>_. tryM (TestService_ensureWorkersAvailable s pat n)
     (\<lambda>_. tryM (case DistributeRPS (tRPS t) n of Inl err \<Rightarrow> failM err | Inr allocs \<Rightarrow> retM allocs)
     (\<lambda>allocs. DefaultScheduler_AllocateWorkers (tID t) n allocs))))"
  have body: "?body ?w1 = (Inr (map (\<lambda>w. w\<lparr>wStatus := WorkerStatusReserved\<rparr>) sel),
      w\<lparr>wdb := reserved_db tid sel allocs ?d2\<rparr>)"
    using steps ensure req dist t
    by (simp add: DefaultScheduler_AllocateWorkers_def tryM_def retM_def wrapM_def)
  have u4: "undisturbed (tryM (case DistributeRPS (tRPS t) n of Inl err \<Rightarrow> failM err | Inr allocs \<Rightarrow> retM allocs)
     (\<lambda>allocs. DefaultScheduler_AllocateWorkers (tID t) n allocs)) ?w2"
    unfolding DefaultScheduler_AllocateWorkers_def dist sum.case
    by (rule undisturbed_tryM) (auto intro: undisturbed_wrapM undisturbed_repo undisturbed_retM simp: assms(1))
  have u3: "undisturbed (tryM (TestService_ensureWorkersAvailable s pat n)
     (\<lambda>_. tryM (case DistributeRPS (tRPS t) n of Inl err \<Rightarrow> failM err | Inr allocs \<Rightarrow> retM allocs)
     (\<lambda>allocs. DefaultScheduler_AllocateWorkers (tID t) n allocs))) ?w2"
    by (rule undisturbed_tryM [OF u_ensure]) (use u4 ensure in simp)
  have u_body: "undisturbed ?body ?w1"
    unfolding req sum.case
  proof (rule undisturbed_tryM)
    show "undisturbed (retM n) ?w1" using q(1) by (rule undisturbed_retM)
    fix m w1 assume "retM n ?w1 = (Inr m, w1)"
    then have m: "m = n" "w1 = ?w1" by (auto elim: retM_InrE)
    show "undisturbed (tryM (TestRepo_UpdateWorkerCount tid m)
     (\<lambda>_. tryM (TestService_ensureWorkersAvailable s pat m)
     (\<lambda>_. tryM (case DistributeRPS (tRPS t) m of Inl err \<Rightarrow> failM err | Inr allocs \<Rightarrow> retM allocs)
     (\<lambda>allocs. DefaultScheduler_AllocateWorkers (tID t) m allocs)))) w1"
      unfolding m by (rule undisturbed_tryM [OF undisturbed_repo(3) [OF q(1)]]) (use u3 steps(3) in simp)
  qed
  have u_caught: "undisturbed (catchM ?body (roll_back tid)) ?w1"
    by (rule undisturbed_catchM [OF u_body]) (use body in simp)
  have u_claimed: "undisturbed (tryM (TestRepo_TryTransitionStatus tid StatusCreated StatusStarting)
      (\<lambda>ok. if \<not> ok then failM ErrInvalidTestState else catchM ?body (roll_back tid))) w"
    by (rule undisturbed_tryM [OF undisturbed_repo(2) [OF assms(1)]]) (use u_caught steps(2) in simp)
  show "undisturbed (start_reserves s pat tid) w"
    unfolding start_reserves_def
    by (rule undisturbed_tryM [OF undisturbed_repo(1) [OF assms(1)]]) (use u_claimed steps(1) in simp)
qed

text \<open>What a stop of the test commits, as an event of another client.\<close>

definition stop_event :: "string \<Rightarrow> 'p \<Rightarrow> db_event" where
  "stop_event tid p = quiet_event\<lparr>ev_env :=
     (\<lambda>d. wdb (snd (TestService_StopTest tid \<lparr>wdb = d, wscript = [], wprov = p\<rparr>)))\<rparr>"

text \<open>A stop that finds the workers reserved.\<close>

lemma stop_reserved:
  assumes "tid \<in> tID ` set (dTests d)" "tid \<notin> aTestID ` set (dAssignments d)" "length allocs = length sel"
    and "d3 = reserved_db tid sel allocs (counted_db tid n (claimed_db tid d))"
    and "d4 = ev_env (stop_event tid p) d3"
  shows "fst (TestService_StopTest tid \<lparr>wdb = d3, wscript = [], wprov = p\<rparr>) = Inr ()"
    and "test_status tid d4 = Some StatusStopped"
    and "\<forall>a\<in>set (dAssignments d4). aTestID a = tid \<longrightarrow> aStatus a = AssignmentStatusCompleted"
    and "\<forall>v\<in>set (dWorkers d4). wID v \<in> wID ` set sel \<longrightarrow> wStatus v = WorkerStatusIdle"
    and "wID ` set (dWorkers d4) = wID ` set (dWorkers d)"
proof -
  let ?w = "\<lparr>wdb = d3, wscript = [], wprov = p\<rparr>"
  from assms(1) obtain t where t: "find_row tID tid (dTests d) = Some t" by (metis find_row_None not_None_eq)
  have tests: "dTests d3 = dTests (counted_db tid n (claimed_db tid d))"
    by (simp add: assms(4) reserved_db_def)
  have starting: "test_status tid d3 = Some StatusStarting"
    using t find_row_key [OF t]
    by (simp add: test_status_def tests counted_db_def claimed_db_def find_row_update_where test_count_to_def)
  note stop = StopTest_quiet [of ?w tid StatusStarting, simplified, OF starting]
  show "fst (TestService_StopTest tid ?w) = Inr ()" by (simp add: stop)
  have d4: "dAssignments d4 = dAssignments (released_db tid d3)" "dWorkers d4 = dWorkers (released_db tid d3)"
    "dTests d4 = update_where (\<lambda>t. tID t = tid) (test_to StatusStopped (dNow d3))
       (update_where (\<lambda>t. tID t = tid \<and> tStatus t = StatusStarting) (test_to StatusStopping (dNow d3)) (dTests d3))"
    by (simp_all add: assms(5) stop_event_def stop)
  from starting obtain u where u: "find_row tID tid (dTests d3) = Some u" by (auto simp: test_status_def)
  then show "test_status tid d4 = Some StatusStopped"
    using find_row_key [OF u] by (auto simp: test_status_def d4(3) find_row_update_where)
  have rows: "dAssignments d3 = dAssignments d @ map (assignment_row tid (dNow d)) (zip sel allocs)"
    by (simp add: assms(4) reserved_db_def)
  have released: "dAssignments d4 = update_where (\<lambda>a. aTestID a = tid \<and> active_assignment a)
      (assignment_done AssignmentStatusCompleted (dNow d3)) (dAssignments d3)"
    "dWorkers d4 = update_where (\<lambda>w. (tid, wID w) \<in> akey ` set (dAssignments d3) \<and> wStatus w = WorkerStatusReserved)
      (worker_to WorkerStatusIdle (dNow d3)) (dWorkers d3)"
    by (simp_all add: d4 released_db_def)
  have active: "active_assignment a" if "a \<in> set (dAssignments d3)" "aTestID a = tid" for a
  proof -
    from that assms(2) obtain p where "a = assignment_row tid (dNow d) p" by (auto simp: rows)
    then show ?thesis by (cases p) (simp add: assignment_row_def active_assignment_def)
  qed
  have "aStatus a = AssignmentStatusCompleted" if "a \<in> set (dAssignments d4)" "aTestID a = tid" for a
    using that(1) unfolding released
    by (rule in_update_whereE) (use that(2) active in auto)
  then show "\<forall>a\<in>set (dAssignments d4). aTestID a = tid \<longrightarrow> aStatus a = AssignmentStatusCompleted" by blast
  have "akey ` set (map (assignment_row tid (dNow d)) (zip sel allocs)) = (\<lambda>w. (tid, wID w)) ` set sel"
    using map_akey_rows [OF assms(3), of tid "dNow d"] by (metis set_map)
  then have held: "(tid, i) \<in> akey ` set (dAssignments d3)" if "i \<in> wID ` set sel" for i
    using that unfolding rows set_append image_Un by blast
  have workers: "dWorkers d3 = update_where (\<lambda>w. wID w \<in> wID ` set sel) (worker_to WorkerStatusReserved (dNow d)) (dWorkers d)"
    by (simp add: assms(4) reserved_db_def)
  have reserved: "wStatus v = WorkerStatusReserved" if "v \<in> set (dWorkers d3)" "wID v \<in> wID ` set sel" for v
    using that(1) unfolding workers by (rule in_update_whereE) (use that(2) in auto)
  have "wStatus v = WorkerStatusIdle" if "v \<in> set (dWorkers d4)" "wID v \<in> wID ` set sel" for v
    using that(1) unfolding released
    by (rule in_update_whereE) (use that(2) held reserved in auto)
  then show "\<forall>v\<in>set (dWorkers d4). wID v \<in> wID ` set sel \<longrightarrow> wStatus v = WorkerStatusIdle" by blast
  show "wID ` set (dWorkers d4) = wID ` set (dWorkers d)"
    by (simp add: d4 released_db_def keys_update_where assms(4) reserved_db_def)
qed

text \<open>C34: the last statement of a start sets the test RUNNING whatever its status is by then. Take any test
  that can be started on a server with enough idle workers, and let another client stop it after the
  workers were reserved and before that statement. The stop succeeds, releases the workers and completes
  their assignments; the start succeeds too and returns the workers; and the test ends RUNNING although
  all its assignments are COMPLETED and the workers it was given IDLE: none of them will ever execute it,
  and no completion will ever finish it.\<close>

theorem StartTest_revives_stopped:
  assumes "quiet w" "integrity (wdb w)" "t \<in> set (dTests (wdb w))" "tID t = tid" "tStatus t = StatusCreated"
    and "RequiredWorkers (tRPS t) (tsWorkerCapacityRPS s) = Inr n" "tsWorkerCapacityRPS s \<le> max_int4"
    and "n \<le> int (length (idle_by_heartbeat (wdb w)))" "tid \<notin> aTestID ` set (dAssignments (wdb w))"
  shows "\<exists>k ws w' d. length ws = nat n \<and> 0 < n \<and>
    TestService_StartTest s pat tid (w\<lparr>wscript := replicate k quiet_event @ [stop_event tid (wprov w)]\<rparr>) = (Inr ws, w') \<and>
    quiet w' \<and> fst (TestService_StopTest tid (w\<lparr>wdb := d\<rparr>)) = Inr () \<and>
    test_status tid (ev_env (stop_event tid (wprov w)) d) = Some StatusStopped \<and>
    test_status tid (wdb w') = Some StatusRunning \<and>
    (\<forall>a\<in>set (dAssignments (wdb w')). aTestID a = tid \<longrightarrow> aStatus a = AssignmentStatusCompleted) \<and>
    wID ` set ws \<subseteq> wID ` set (dWorkers (wdb w')) \<and>
    (\<forall>v\<in>set (dWorkers (wdb w')). wID v \<in> wID ` set ws \<longrightarrow> wStatus v = WorkerStatusIdle)"
proof -
  let ?sel = "take (nat n) (idle_by_heartbeat (wdb w))" and ?e = "stop_event tid (wprov w)"
  from StartTest_able [OF assms(2-9)] obtain allocs where
    able: "startable (wdb w) tid t n allocs" and dist: "DistributeRPS (tRPS t) n = Inr allocs" by blast
  let ?d3 = "reserved_db tid ?sel allocs (counted_db tid n (claimed_db tid (wdb w)))"
  let ?d4 = "ev_env ?e ?d3" and ?ws = "map (\<lambda>w. w\<lparr>wStatus := WorkerStatusReserved\<rparr>) ?sel"
  let ?w3 = "w\<lparr>wdb := ?d3\<rparr>"
  note first = start_reserves_quiet [OF assms(1) refl able refl assms(6) dist, of pat]
  from first(2,1) obtain k where k: "\<And>es. start_reserves s pat tid (w\<lparr>wscript := replicate k quiet_event @ es\<rparr>) =
      (Inr ?ws, ?w3\<lparr>wscript := es\<rparr>)" by (rule undisturbedE) blast
  have "nat n \<le> length (idle_by_heartbeat (wdb w))" using assms(8) by linarith
  then have len: "length ?sel = nat n" "length allocs = length ?sel" "0 < n"
    using able by (simp_all add: startable_def)
  have tid: "tid \<in> tID ` set (dTests (wdb w))" using assms(3,4) by auto
  note stopped = stop_reserved [OF tid assms(9) len(2) refl refl, where p = "wprov w"]
  from stopped(2) obtain u where u: "find_row tID tid (dTests ?d4) = Some u" by (auto simp: test_status_def)
  let ?d5 = "?d4\<lparr>dTests := update_where (\<lambda>t. tID t = tid) (test_to StatusRunning (dNow ?d4)) (dTests ?d4)\<rparr>"
  have "count_where (\<lambda>t. tID t = tid) (dTests ?d4) \<noteq> 0"
    using find_row_Some [OF u] by (auto simp: count_where_zero)
  moreover have "ev_out ?e = Done" by (simp add: stop_event_def quiet_event_def)
  ultimately have "TestRepo_UpdateStatus tid StatusRunning (?w3\<lparr>wscript := [?e]\<rparr>) = (Inr (), w\<lparr>wdb := ?d5\<rparr>)"
    using assms(1)
    by (simp add: TestRepo_UpdateStatus_def io_defs pool_stmt_def next_event_def sql_update_status_def
        test_to_def [abs_def] Let_def)
  with k [of "[?e]"] have run: "TestService_StartTest s pat tid (w\<lparr>wscript := replicate k quiet_event @ [?e]\<rparr>) =
      (Inr ?ws, w\<lparr>wdb := ?d5\<rparr>)"
    by (simp add: StartTest_split tryM_def retM_def)
  have "test_status tid ?d5 = Some StatusRunning"
    using u find_row_key [OF u] by (simp add: test_status_def find_row_update_where)
  moreover have "w\<lparr>wdb := ?d3\<rparr> = \<lparr>wdb = ?d3, wscript = [], wprov = wprov w\<rparr>" using assms(1) by (cases w) simp
  then have "fst (TestService_StopTest tid (w\<lparr>wdb := ?d3\<rparr>)) = Inr ()" using stopped(1) by (simp only:)
  moreover have "set ?sel \<subseteq> set (dWorkers (wdb w))"
    using set_idle_by_heartbeat [of "wdb w"] by (auto dest: in_set_takeD)
  then have "wID ` set ?ws \<subseteq> wID ` set (dWorkers ?d5)" using stopped(5) by (auto simp: image_image)
  moreover have "wID ` set ?ws = wID ` set ?sel" by (simp add: image_image)
  ultimately show ?thesis
    using run stopped(2-4) len assms(1)
    by (intro exI [of _ k] exI [of _ ?ws] exI [of _ "w\<lparr>wdb := ?d5\<rparr>"] exI [of _ ?d3] conjI) simp_all
qed

theorem StartTest_revives_stopped_witness:
  "\<exists>k ws w'. length ws = 2 \<and>
    TestService_StartTest (cpService (vulcan 100)) ex_patience ''A''
      ((ex_world ex_created)\<lparr>wscript := replicate k quiet_event @ [stop_event ''A'' ex_prov]\<rparr>) = (Inr ws, w') \<and>
    test_status ''A'' (wdb w') = Some StatusRunning \<and>
    (\<forall>a\<in>set (dAssignments (wdb w')). aTestID a = ''A'' \<longrightarrow> aStatus a = AssignmentStatusCompleted)"
proof -
  let ?t = "ex_test ''A'' 200 2 StatusCreated 3"
  have t: "?t \<in> set (dTests ex_created)" "tID ?t = ''A''" "tStatus ?t = StatusCreated" "tRPS ?t = 200"
    by (simp_all add: ex_db_defs ex_test_def)
  have n: "2 \<le> int (length (idle_by_heartbeat ex_created))" "''A'' \<notin> aTestID ` set (dAssignments ex_created)"
    by (simp_all add: idle_by_heartbeat_def ex_db_defs ex_row_defs)
  have "wprov (ex_world ex_created) = ex_prov" by (simp add: ex_world_def)
  with StartTest_revives_stopped [of "ex_world ex_created" ?t "''A''" "cpService (vulcan 100)" 2 ex_patience]
    ex_integrity(1) t n
  show ?thesis by (simp add: vulcan_capacity ex_required max_int4_def) blast
qed

end
