(* ===== verification/Spec2Isabelle.thy ===== *)
theory Spec2Isabelle
  imports Assignments Fleet Requests Guarantees EndToEnd Telemetry Pipeline Reporting Targets
    Traffic Dashboard Deployment Runtime Campaign Polling Programs Interruption
begin

text \<open>
  A model of Vulcan, a distributed load tester written in Go. A control plane keeps tests, workers and
  assignments in PostgreSQL and serves an HTTP interface; worker processes register, send heartbeats,
  poll for assignments, send load to a target at a fixed rate and publish what they measured; an
  aggregator merges these buckets into windows and writes a report per second to VictoriaMetrics; a
  dashboard reads them back. An autoscaler starts and stops worker processes.

  \<^bold>\<open>Shared.\<close> \<open>Prelude\<close>: 64-bit \<open>int\<close> (\<open>wrap64\<close>, truncating division), decimal formatting, errors (one
  constructor per sentinel, \<open>Wrapf\<close> for \<open>fmt.Errorf("...: %w")\<close>, \<open>errors_is\<close>), updates of tables as
  lists of rows. \<open>GoFloat\<close>: \<open>float64\<close> as the rational it stands for, every operation rounded to the
  nearest even 53-bit value. \<open>Validation\<close>: \<open>strings.TrimSpace\<close>, \<open>strings.ToUpper\<close> and
  \<open>internal/validation\<close>. \<open>Durations\<close>: \<open>fmt.Sscanf("%d")\<close> and \<open>time.ParseDuration\<close>. \<open>Models\<close>:
  \<open>internal/models\<close>, \<open>internal/constants\<close>. \<open>Http\<close>: requests, responses, a server as a function of the
  requests so far, escaping of query parameters.

  \<^bold>\<open>The database.\<close> \<open>Database\<close>: the three tables with keys, references and column ranges, the clock of
  \<open>NOW()\<close>, and how an operation meets other clients: before each statement or transaction a script (the
  \<open>world\<close>) says what others commit, whether the round trip fails, how a commit ends (done, failed, or
  done with the answer lost) and which rows \<open>SKIP LOCKED\<close> passes over. A transaction is one serial unit.
  \<open>TestRepository\<close>, \<open>WorkerRepository\<close> (\<open>internal/repository\<close>): every SQL statement (\<open>sql_...\<close>), every
  transaction body (\<open>..._body\<close>) and every operation (\<open>TestRepo_...\<close>, \<open>WorkerRepo_...\<close>). \<open>Transactions\<close>:
  what each transaction promises (\<open>..._post\<close>) and the locale \<open>transaction\<close> (all or nothing, interpreted on
  each of the six transactions).

  \<^bold>\<open>The control plane.\<close> \<open>Capacity\<close> (\<open>internal/scheduler/rps.go\<close>, \<open>internal/autoscaler/capacity.go\<close>),
  \<open>Provisioner\<close> (\<open>internal/provisioner\<close>), \<open>Autoscaler\<close> (\<open>internal/autoscaler/reconciler.go\<close>),
  \<open>WorkerService\<close> and \<open>TestService\<close> (\<open>internal/service\<close>, \<open>internal/reconciler\<close>, \<open>internal/scheduler\<close>).
  Operations are functions of type \<open>io\<close>: a \<open>world\<close> in, an error or a result and a \<open>world\<close> out. The wait
  for workers in \<open>StartTest\<close> takes the number of ticks (\<open>patTicks\<close>, at most 60, one per half second of
  the 30 second limit) as an argument. Identifiers and the process clock are arguments.
  \<open>Lifecycle\<close>, \<open>Integrity\<close>, \<open>Exclusive\<close>: relations on the tables that operations keep, through the locale
  \<open>repository_relation\<close>; the statuses of workers and assignments are ordered by what may become of
  them (instances of \<open>preorder\<close> and \<open>order_bot\<close>). \<open>Histories\<close>: the committed writes as an inductive step relation, and runs of
  operations on \<open>vulcan\<close>, the wiring of \<open>cmd/server\<close>. \<open>StartStop\<close>: what starting and stopping a test do.
  \<open>Scenario\<close>: a worked example. \<open>Guarantees\<close>, \<open>Reservations\<close>, \<open>Assignments\<close>, \<open>Fleet\<close>, \<open>Requests\<close>: the
  properties, with their instances in the example. \<open>Interruption\<close>: a stop that another client commits
  while a test is being started; an operation that meets nothing but quiet events is replayed with one
  event changed.

  \<^bold>\<open>HTTP.\<close> \<open>ControlPlane\<close>: the client \<open>internal/controlplane\<close>, over any transport. \<open>Api\<close>: the handlers,
  responses and routes of \<open>internal/api\<close>. \<open>Remote\<close>: a remote call is a local call. The router library
  and the JSON library are arguments; what is used of them is stated as \<open>routes_correctly\<close> (a path that
  fits a route of the table reaches its handler with its parameter) and \<open>codecs_agree\<close> (decoding undoes
  encoding), and a router and a codec that have these properties are given.
  \<open>Traffic\<close>: the running server, any requests of any clients with the two background loops in between.

  \<^bold>\<open>The worker.\<close> \<open>Execution\<close> (\<open>internal/execution\<close>): the result of a request, and the fixed-rate scheduler
  as a machine: its loop, and one goroutine per request that executes, gives back its slot and signs
  off, in any order. \<open>Metrics\<close> (\<open>internal/metrics\<close>): collector and buckets, against a reference that
  sums the results between two flushes. \<open>Agent\<close> (\<open>internal/worker\<close>): registration, heartbeats, polling,
  processing and execution of an assignment; what the goroutines and tickers do in between is the list
  of events of the \<open>select\<close> loop. \<open>AgentRuns\<close>: the requests a worker sends and the buckets it publishes.
  \<open>EndToEnd\<close>: worker, client, server and tables together. \<open>Runtime\<close> (\<open>Runtime.Start\<close>): the process as two
  goroutines that share its status, one step per access to the status and per call, so that heartbeats
  fall between any two steps of the poll loop. \<open>Agent\<close> describes what that loop does without them;
  \<open>runtime_refines_poll\<close> ties the two descriptions together and says nothing about the program itself.

  \<^bold>\<open>Telemetry.\<close> \<open>Aggregator\<close> (\<open>internal/aggregator\<close>): the store, its windows on a heap, and the critical
  sections of the subscription callback and of the report in any interleaving. \<open>Telemetry\<close>: conservation
  of the counters, by the locale \<open>counter\<close>. \<open>Victoria\<close>
  (\<open>victoria.go\<close>, \<open>internal/victoria\<close>): the exposition text, read back by a reader, and its delivery.
  \<open>Reporting\<close>: a whole report as the sequence of its critical sections, the report loop, and the race
  between callback and report that loses a bucket.
  \<open>Dashboard\<close> (\<open>internal/dashboard\<close>): queries, parsers and services, down to the text the aggregator wrote.
  \<open>Pipeline\<close>: from the scheduler of a worker to the samples in the metrics store; every request is in one
  of them, in a report the store refused, in a window, or in a bucket that was not delivered.
  \<open>Targets\<close> (\<open>scripts\<close>): the test servers, and what the load generator measures against them.

  \<^bold>\<open>Programs.\<close> \<open>Config\<close> (\<open>internal/config\<close>, \<open>internal/worker/config.go\<close>) and \<open>Deployment\<close> (\<open>cmd\<close>,
  \<open>internal/db\<close>): configuration and wiring, and the way of a process from the provisioner to the fleet.
  \<open>Programs\<close>: the three programs from their start to their exit status; the background loops of the
  server are sequences of the cycles of \<open>Traffic\<close>. \<open>Campaign\<close>: a test from its start over the calls of its
  workers, in any order and with heartbeats that may be out of date, to its completion; \<open>Polling\<close>: what these workers are told when they poll.

  \<^bold>\<open>Bounds and fuel.\<close> No function runs on fuel: loops over slices are recursions on lists, loops that wait
  are recursions on the list of what wakes them (ticks, events, answers), so a run that is still waiting
  when the list ends is a value of its own (\<open>None\<close>), and the properties that something ends are stated
  on the machines (\<open>scheduler_drains\<close>, \<open>registration_backoff\<close>).

  \<^bold>\<open>Not modelled.\<close> Logging and printing. PostgreSQL below the level of a statement or transaction: locks
  and isolation inside a transaction. The texts of driver errors while scanning rows (they are those of
  the statement). The HTTP transport and its time-outs, the middlewares of the router, NATS beyond a
  publication that succeeds or fails, YAML, JSON and \<open>strconv.ParseFloat\<close> (arguments). Infinities and
  NaN; \<open>int64\<close> of a float out of range is that of amd64. \<open>strings.ToUpper\<close> outside ASCII, but for the two
  runes whose upper case is ASCII. Deployment files and dashboards. When a signal arrives, when
  listening fails and how goroutines are scheduled: arguments and lists of events say so.
\<close>

end
